(* ===== verification/Prelude.thy ===== *)
theory Prelude
  imports Main "HOL-Library.Word" "HOL-Library.List_Lexorder" "HOL-Library.Char_ord"
begin

text \<open>
  Shared vocabulary of the development: Rust results and panics, and the effect monad every
  stateful operation is written in, with its loops and their rules. Strings are byte lists
  (\<open>string\<close>), which is what a Rust \<^verbatim>\<open>String\<close> is in UTF-8.
\<close>

named_theorems run_simps \<open>running an effect on a concrete state\<close>
named_theorems name_inject \<open>injectivity of the generated names\<close>

type_synonym u8 = "8 word"
type_synonym u16 = "16 word"
type_synonym u32 = "32 word"
type_synonym u64 = "64 word"
type_synonym u128 = "128 word"
type_synonym usize = "64 word"

section \<open>Results\<close>

text \<open>
  An \<^verbatim>\<open>anyhow::Error\<close> is a message, possibly wrapped in contexts; its \<open>to_string\<close> prints
  the outermost layer only. A fallible Rust computation returns, returns an error, or panics.
\<close>

datatype error = Msg string | Context string error

fun error_to_string :: "error \<Rightarrow> string" where
  "error_to_string (Msg m) = m"
| "error_to_string (Context c e) = c"

datatype 'a res = Ok 'a | Err error | Panic

fun bind_res :: "'a res \<Rightarrow> ('a \<Rightarrow> 'b res) \<Rightarrow> 'b res" where
  "bind_res (Ok x) f = f x"
| "bind_res (Err e) f = Err e"
| "bind_res Panic f = Panic"

fun context_res :: "string \<Rightarrow> 'a res \<Rightarrow> 'a res" where
  "context_res c (Err e) = Err (Context c e)"
| "context_res c r = r"

text \<open>\<open>Option::ok_or\<close>, \<open>Option::unwrap\<close>, and collecting an iterator of results.\<close>

fun ok_or :: "'a option \<Rightarrow> error \<Rightarrow> 'a res" where
  "ok_or (Some x) e = Ok x"
| "ok_or None e = Err e"

fun unwrap :: "'a option \<Rightarrow> 'a res" where
  "unwrap (Some x) = Ok x"
| "unwrap None = Panic"

fun collect_res :: "('a \<Rightarrow> 'b res) \<Rightarrow> 'a list \<Rightarrow> 'b list res" where
  "collect_res f [] = Ok []"
| "collect_res f (x # xs) =
     bind_res (f x) (\<lambda>y. bind_res (collect_res f xs) (\<lambda>ys. Ok (y # ys)))"

text \<open>A \<^verbatim>\<open>for\<close> loop that threads a value and may stop early.\<close>

fun fold_res :: "('a \<Rightarrow> 'x \<Rightarrow> 'a res) \<Rightarrow> 'a \<Rightarrow> 'x list \<Rightarrow> 'a res" where
  "fold_res f a [] = Ok a"
| "fold_res f a (x # xs) = bind_res (f a x) (\<lambda>a'. fold_res f a' xs)"

lemma bind_res_Ok_iff:
  "bind_res r f = Ok y \<longleftrightarrow> (\<exists>x. r = Ok x \<and> f x = Ok y)"
  by (cases r) auto

lemma bind_res_cong [fundef_cong]:
  "r = r' \<Longrightarrow> (\<And>x. r' = Ok x \<Longrightarrow> f x = g x) \<Longrightarrow> bind_res r f = bind_res r' g"
  by (cases r') auto

lemma context_res_Ok_iff [simp]: "context_res c r = Ok x \<longleftrightarrow> r = Ok x"
  by (cases r) auto

lemma ok_or_Ok_iff [simp]: "ok_or x e = Ok y \<longleftrightarrow> x = Some y"
  by (cases x) auto

lemma unwrap_Ok_iff [simp]: "unwrap x = Ok y \<longleftrightarrow> x = Some y"
  by (cases x) auto

lemma unwrap_Panic_iff [simp]: "unwrap x = Panic \<longleftrightarrow> x = None"
  by (cases x) auto

lemma collect_res_Ok:
  "(\<And>x. x \<in> set xs \<Longrightarrow> f x = Ok (g x)) \<Longrightarrow> collect_res f xs = Ok (map g xs)"
  by (induction xs) auto

lemma fold_res_append:
  "fold_res f a (xs @ ys) = bind_res (fold_res f a xs) (\<lambda>a'. fold_res f a' ys)"
proof (induction xs arbitrary: a)
  case (Cons x xs)
  then show ?case by (cases "f a x") auto
qed simp

lemma fold_res_Ok:
  "(\<And>a x. x \<in> set xs \<Longrightarrow> f a x = Ok (g a x)) \<Longrightarrow> fold_res f a xs = Ok (foldl g a xs)"
  by (induction xs arbitrary: a) auto

lemma collect_res_length: "collect_res f xs = Ok ys \<Longrightarrow> length ys = length xs"
  by (induction xs arbitrary: ys) (auto simp: bind_res_Ok_iff)

section \<open>Effects\<close>

text \<open>
  An effectful operation takes a state and gives a result and the state it leaves behind. The
  state is kept when the operation fails: what was done before an error stays done.
\<close>

type_synonym ('s, 'a) io = "'s \<Rightarrow> 'a res \<times> 's"

definition ret :: "'a \<Rightarrow> ('s, 'a) io" where
  "ret x = (\<lambda>s. (Ok x, s))"

definition fail :: "error \<Rightarrow> ('s, 'a) io" where
  "fail e = (\<lambda>s. (Err e, s))"

definition lift_res :: "'a res \<Rightarrow> ('s, 'a) io" where
  "lift_res r = (\<lambda>s. (r, s))"

definition get_st :: "('s, 's) io" where
  "get_st = (\<lambda>s. (Ok s, s))"

definition put_st :: "'s \<Rightarrow> ('s, unit) io" where
  "put_st s' = (\<lambda>_. (Ok (), s'))"

definition bind_io :: "('s, 'a) io \<Rightarrow> ('a \<Rightarrow> ('s, 'b) io) \<Rightarrow> ('s, 'b) io" where
  "bind_io m f = (\<lambda>s. case m s of
       (Ok x, s') \<Rightarrow> f x s'
     | (Err e, s') \<Rightarrow> (Err e, s')
     | (Panic, s') \<Rightarrow> (Panic, s'))"

definition then_io :: "('s, 'a) io \<Rightarrow> ('s, 'b) io \<Rightarrow> ('s, 'b) io" where
  "then_io m k = bind_io m (\<lambda>_. k)"

definition context_io :: "string \<Rightarrow> ('s, 'a) io \<Rightarrow> ('s, 'a) io" where
  "context_io c m = (\<lambda>s. (context_res c (fst (m s)), snd (m s)))"

definition when_io :: "bool \<Rightarrow> ('s, unit) io \<Rightarrow> ('s, unit) io" where
  "when_io b m = (if b then m else ret ())"

text \<open>A \<^verbatim>\<open>for\<close> loop whose body may leave it through \<^verbatim>\<open>?\<close>.\<close>

fun for_io :: "'a list \<Rightarrow> ('a \<Rightarrow> ('s, unit) io) \<Rightarrow> ('s, unit) io" where
  "for_io [] body = ret ()"
| "for_io (x # xs) body = then_io (body x) (for_io xs body)"

text \<open>
  \<open>zoom get put m\<close> runs an operation of a part of the state (a field, a borrowed entry).
\<close>

definition zoom :: "('t \<Rightarrow> 's) \<Rightarrow> ('s \<Rightarrow> 't \<Rightarrow> 't) \<Rightarrow> ('s, 'a) io \<Rightarrow> ('t, 'a) io" where
  "zoom get_part put_part m = (\<lambda>t. case m (get_part t) of (r, s) \<Rightarrow> (r, put_part s t))"

lemma run_ret [run_simps]: "ret x s = (Ok x, s)"
  by (simp add: ret_def)

lemma run_fail [run_simps]: "fail e s = (Err e, s)"
  by (simp add: fail_def)

lemma run_lift_res [run_simps]: "lift_res r s = (r, s)"
  by (simp add: lift_res_def)

lemma run_get_st [run_simps]: "get_st s = (Ok s, s)"
  by (simp add: get_st_def)

lemma run_put_st [run_simps]: "put_st s' s = (Ok (), s')"
  by (simp add: put_st_def)

lemma run_when_io [run_simps]: "when_io b m s = (if b then m s else (Ok (), s))"
  by (simp add: when_io_def ret_def)

lemma run_bind_Ok: "m s = (Ok x, s') \<Longrightarrow> bind_io m f s = f x s'"
  by (simp add: bind_io_def)

lemma run_bind_Err: "m s = (Err e, s') \<Longrightarrow> bind_io m f s = (Err e, s')"
  by (simp add: bind_io_def)

lemma run_bind_Panic: "m s = (Panic, s') \<Longrightarrow> bind_io m f s = (Panic, s')"
  by (simp add: bind_io_def)

lemma run_then_Ok: "m s = (Ok x, s') \<Longrightarrow> then_io m k s = k s'"
  by (simp add: then_io_def run_bind_Ok)

lemma run_then_Err: "m s = (Err e, s') \<Longrightarrow> then_io m k s = (Err e, s')"
  by (simp add: then_io_def run_bind_Err)

lemma run_then_Panic: "m s = (Panic, s') \<Longrightarrow> then_io m k s = (Panic, s')"
  by (simp add: then_io_def run_bind_Panic)

lemmas run_bind = run_bind_Ok run_bind_Err run_bind_Panic run_then_Ok run_then_Err run_then_Panic

lemma run_context_Ok: "m s = (Ok x, s') \<Longrightarrow> context_io c m s = (Ok x, s')"
  by (simp add: context_io_def)

lemma run_context_Err: "m s = (Err e, s') \<Longrightarrow> context_io c m s = (Err (Context c e), s')"
  by (simp add: context_io_def)

lemma bind_io_Ok_iff:
  "bind_io m f s = (Ok y, t) \<longleftrightarrow> (\<exists>x s'. m s = (Ok x, s') \<and> f x s' = (Ok y, t))"
  by (auto simp: bind_io_def split: prod.splits res.splits)

lemma then_io_Ok_iff:
  "then_io m k s = (Ok y, t) \<longleftrightarrow> (\<exists>x s'. m s = (Ok x, s') \<and> k s' = (Ok y, t))"
  by (simp add: then_io_def bind_io_Ok_iff)

lemma context_io_Ok_iff: "context_io c m s = (Ok y, t) \<longleftrightarrow> m s = (Ok y, t)"
  by (cases "m s") (auto simp: context_io_def)

lemma snd_context_io [simp]: "snd (context_io c m s) = snd (m s)"
  by (simp add: context_io_def)

lemma for_io_append:
  "for_io (xs @ ys) body = then_io (for_io xs body) (for_io ys body)"
  by (induction xs)
    (auto simp: fun_eq_iff then_io_def bind_io_def ret_def split: prod.splits res.splits)

section \<open>Total correctness of effects\<close>

text \<open>
  \<open>total_io P m Q\<close>: from every state that satisfies \<open>P\<close> the operation returns \<open>Ok\<close> with a value
  and a state that satisfy \<open>Q\<close>. It neither fails nor panics.
\<close>

definition total_io :: "('s \<Rightarrow> bool) \<Rightarrow> ('s, 'a) io \<Rightarrow> ('a \<Rightarrow> 's \<Rightarrow> bool) \<Rightarrow> bool" where
  "total_io P m Q \<longleftrightarrow> (\<forall>s. P s \<longrightarrow> (\<exists>x s'. m s = (Ok x, s') \<and> Q x s'))"

lemma totalI: "(\<And>s. P s \<Longrightarrow> \<exists>x s'. m s = (Ok x, s') \<and> Q x s') \<Longrightarrow> total_io P m Q"
  by (auto simp: total_io_def)

lemma totalD: "total_io P m Q \<Longrightarrow> P s \<Longrightarrow> \<exists>x s'. m s = (Ok x, s') \<and> Q x s'"
  by (auto simp: total_io_def)

lemma total_ret: "(\<And>s. P s \<Longrightarrow> Q x s) \<Longrightarrow> total_io P (ret x) Q"
  by (simp add: total_io_def ret_def)

lemma total_bind: "total_io P m R \<Longrightarrow> (\<And>x. total_io (R x) (f x) Q) \<Longrightarrow> total_io P (bind_io m f) Q"
  by (fastforce simp: total_io_def bind_io_def)

lemma total_then: "total_io P m (\<lambda>_. R) \<Longrightarrow> total_io R k Q \<Longrightarrow> total_io P (then_io m k) Q"
  unfolding then_io_def by (rule total_bind)

lemma total_context: "total_io P m Q \<Longrightarrow> total_io P (context_io c m) Q"
  by (fastforce simp: total_io_def context_io_def)

lemma total_when:
  "total_io (\<lambda>s. P s \<and> b) m (\<lambda>_. Q) \<Longrightarrow> (\<And>s. P s \<Longrightarrow> \<not> b \<Longrightarrow> Q s) \<Longrightarrow> total_io P (when_io b m) (\<lambda>_. Q)"
  by (auto simp: total_io_def when_io_def ret_def)

lemma total_pre: "total_io P m Q \<Longrightarrow> (\<And>s. P' s \<Longrightarrow> P s) \<Longrightarrow> total_io P' m Q"
  by (auto simp: total_io_def)

lemma total_post: "total_io P m Q \<Longrightarrow> (\<And>x s. Q x s \<Longrightarrow> Q' x s) \<Longrightarrow> total_io P m Q'"
  by (fastforce simp: total_io_def)

text \<open>The loop rule: the invariant speaks of the elements already done.\<close>

lemma total_for_aux:
  assumes "\<And>x ds. x \<in> set todo \<Longrightarrow> total_io (I ds) (body x) (\<lambda>_. I (ds @ [x]))"
  shows "total_io (I ds0) (for_io todo body) (\<lambda>_. I (ds0 @ todo))"
  using assms
proof (induction todo arbitrary: ds0)
  case Nil
  then show ?case by (simp add: total_ret)
next
  case (Cons x xs)
  have "total_io (I ds0) (body x) (\<lambda>_. I (ds0 @ [x]))" using Cons.prems by simp
  moreover have "total_io (I (ds0 @ [x])) (for_io xs body) (\<lambda>_. I ((ds0 @ [x]) @ xs))"
    using Cons.prems by (intro Cons.IH) simp
  ultimately show ?case by (simp add: total_then)
qed

lemma total_for:
  assumes "\<And>x ds. x \<in> set xs \<Longrightarrow> total_io (I ds) (body x) (\<lambda>_. I (ds @ [x]))"
  shows "total_io (I []) (for_io xs body) (\<lambda>_. I xs)"
  using total_for_aux [of xs I body "[]", OF assms] by simp

end
