(* ===== verification/Rust_Std.thy ===== *)
theory Rust_Std
  imports Prelude
begin

text \<open>
  The parts of the Rust language and \<^verbatim>\<open>std\<close> that the gateway's code computes with: integer
  arithmetic under the two build profiles, decimal printing and \<^verbatim>\<open>str::parse\<close> for unsigned
  integers, and the \<^verbatim>\<open>str\<close> operations \<^verbatim>\<open>split\<close>, \<^verbatim>\<open>lines\<close>, \<^verbatim>\<open>join\<close> and \<^verbatim>\<open>starts_with\<close>.
\<close>

section \<open>Arithmetic\<close>

text \<open>
  With overflow checks (a debug build) \<open>+\<close> and \<open>-\<close> panic on overflow; without them (a release
  build) they wrap. The Makefile's default is a debug build, the Dockerfile's a release build, so
  both profiles are modelled.
\<close>

datatype profile = Debug | Release

definition add_ck :: "profile \<Rightarrow> 'a::len word \<Rightarrow> 'a word \<Rightarrow> 'a word res" where
  "add_ck p a b = (if p = Debug \<and> 2 ^ LENGTH('a) \<le> unat a + unat b then Panic else Ok (a + b))"

definition sub_ck :: "profile \<Rightarrow> 'a::len word \<Rightarrow> 'a word \<Rightarrow> 'a word res" where
  "sub_ck p a b = (if p = Debug \<and> a < b then Panic else Ok (a - b))"

lemma add_ck_Ok: "add_ck p a b = Ok c \<Longrightarrow> c = a + b"
  by (auto simp: add_ck_def split: if_splits)

lemma sub_ck_Ok: "sub_ck p a b = Ok c \<Longrightarrow> c = a - b"
  by (auto simp: sub_ck_def split: if_splits)

lemma add_ck_Release [simp]: "add_ck Release a b = Ok (a + b)"
  by (simp add: add_ck_def)

lemma sub_ck_Release [simp]: "sub_ck Release a b = Ok (a - b)"
  by (simp add: sub_ck_def)

lemma add_ck_Debug_unat: "add_ck Debug a b = Ok c \<Longrightarrow> unat c = unat a + unat b"
  by (auto simp: add_ck_def unat_word_ariths split: if_splits)

lemma add_ck_not_Err [simp]: "add_ck p a b \<noteq> Err e"
  by (simp add: add_ck_def)

lemma add_ck_no_overflow:
  fixes a b :: "'a::len word"
  shows "unat a + unat b < 2 ^ LENGTH('a) \<Longrightarrow> add_ck p a b = Ok (a + b)"
  by (simp add: add_ck_def)

lemma sub_ck_no_underflow: "b \<le> a \<Longrightarrow> sub_ck p a b = Ok (a - b)"
  by (auto simp: sub_ck_def)

section \<open>Strings\<close>

abbreviation NL :: char where "NL \<equiv> CHR 0x0A"
abbreviation CR :: char where "CR \<equiv> CHR 0x0D"
abbreviation TAB :: char where "TAB \<equiv> CHR 0x09"

definition starts_with :: "string \<Rightarrow> string \<Rightarrow> bool" where
  "starts_with p s \<longleftrightarrow> take (length p) s = p"

fun split_on :: "'a \<Rightarrow> 'a list \<Rightarrow> 'a list list" where
  "split_on c [] = [[]]"
| "split_on c (x # xs) =
     (if x = c then [] # split_on c xs
      else (case split_on c xs of [] \<Rightarrow> [[x]] | w # ws \<Rightarrow> (x # w) # ws))"

fun join :: "'a list \<Rightarrow> 'a list list \<Rightarrow> 'a list" where
  "join sep [] = []"
| "join sep [w] = w"
| "join sep (w # ws) = w @ sep @ join sep ws"

definition strip_cr :: "string \<Rightarrow> string" where
  "strip_cr l = (if l \<noteq> [] \<and> last l = CR then butlast l else l)"

text \<open>
  \<^verbatim>\<open>str::lines\<close>: every line ends with a line feed, an optional carriage return before it is
  dropped, and a last line without a line feed counts only when it is not empty.
\<close>

definition lines :: "string \<Rightarrow> string list" where
  "lines s = (let ws = split_on NL s
     in map strip_cr (butlast ws) @ (if last ws = [] then [] else [last ws]))"

lemma starts_with_append [simp]: "starts_with p (p @ s)"
  by (simp add: starts_with_def)

lemma starts_with_iff: "starts_with p s \<longleftrightarrow> (\<exists>t. s = p @ t)"
  by (metis append_eq_conv_conj append_take_drop_id starts_with_def)

lemma split_on_not_Nil [simp]: "split_on c s \<noteq> []"
  by (induction s) (auto split: list.splits)

lemma split_on_no_sep: "c \<notin> set w \<Longrightarrow> split_on c w = [w]"
  by (induction w) auto

lemma split_on_append: "c \<notin> set w \<Longrightarrow> split_on c (w @ c # s) = w # split_on c s"
  by (induction w) auto

lemma split_on_join:
  "ws \<noteq> [] \<Longrightarrow> (\<forall>w \<in> set ws. c \<notin> set w) \<Longrightarrow> split_on c (join [c] ws) = ws"
proof (induction "[c]" ws rule: join.induct)
  case (3 w w' ws)
  then show ?case by (simp add: split_on_append)
qed (simp_all add: split_on_no_sep)

lemma split_on_pieces: "w \<in> set (split_on c s) \<Longrightarrow> c \<notin> set w"
  by (induction s arbitrary: w) (auto split: if_splits list.splits)

lemma join_split_on: "join [c] (split_on c s) = s"
proof (induction s)
  case (Cons x s)
  obtain w ws where "split_on c s = w # ws" by (cases "split_on c s") auto
  with Cons show ?case by (cases ws) auto
qed simp

text \<open>The first two pieces, and what may follow them.\<close>

lemma split_on_two:
  "(\<exists>ws. split_on c s = a # b # ws) \<longleftrightarrow> c \<notin> set a \<and> c \<notin> set b \<and>
     (\<exists>rest. s = a @ c # b @ rest \<and> (rest = [] \<or> hd rest = c))"
proof (intro iffI conjI)
  assume "\<exists>ws. split_on c s = a # b # ws"
  then obtain ws where ws: "split_on c s = a # b # ws" by blast
  then show "c \<notin> set a" "c \<notin> set b" by (simp_all add: split_on_pieces [of _ c s])
  have "s = a @ c # join [c] (b # ws)" using join_split_on [of c s] by (simp add: ws)
  then show "\<exists>rest. s = a @ c # b @ rest \<and> (rest = [] \<or> hd rest = c)"
    by (cases ws) auto
next
  assume "c \<notin> set a \<and> c \<notin> set b \<and> (\<exists>rest. s = a @ c # b @ rest \<and> (rest = [] \<or> hd rest = c))"
  then obtain rest where *: "c \<notin> set a" "c \<notin> set b" "s = a @ c # b @ rest" "rest = [] \<or> hd rest = c" by blast
  then show "\<exists>ws. split_on c s = a # b # ws"
    by (cases rest) (auto simp: split_on_append split_on_no_sep)
qed

lemma join_snoc: "ws \<noteq> [] \<Longrightarrow> join sep (ws @ [w]) = join sep ws @ sep @ w"
  by (induction sep ws rule: join.induct) auto

text \<open>A text whose lines each end with a line feed is read back line by line.\<close>

lemma split_on_terminated:
  "(\<forall>l \<in> set ls. NL \<notin> set l) \<Longrightarrow> split_on NL (concat (map (\<lambda>l. l @ [NL]) ls)) = ls @ [[]]"
  by (induction ls) (auto simp: split_on_append)

lemma strip_cr_id: "CR \<notin> set l \<Longrightarrow> strip_cr l = l"
  using last_in_set by (fastforce simp: strip_cr_def)

lemma lines_terminated:
  assumes "\<forall>l \<in> set ls. NL \<notin> set l \<and> CR \<notin> set l"
  shows "lines (concat (map (\<lambda>l. l @ [NL]) ls)) = ls"
  using assms by (simp add: lines_def split_on_terminated strip_cr_id map_idI)

lemma concat_map_nl: "concat (map (\<lambda>l. l @ [NL]) ls) = (if ls = [] then [] else join [NL] ls @ [NL])"
  by (induction "[NL]" ls rule: join.induct) auto

lemma lines_join:
  assumes "ls \<noteq> []" and "\<forall>l \<in> set ls. NL \<notin> set l \<and> CR \<notin> set l"
  shows "lines (join [NL] ls @ [NL]) = ls"
  using lines_terminated [OF assms(2)] assms(1) by (simp add: concat_map_nl)

section \<open>Decimal numbers\<close>

definition digit_char :: "nat \<Rightarrow> char" where
  "digit_char d = char_of (48 + d)"

definition digit_val :: "char \<Rightarrow> nat option" where
  "digit_val c = (let n = of_char c in if 48 \<le> n \<and> n < 58 then Some (n - 48) else None)"

fun nat_to_dec :: "nat \<Rightarrow> string" where
  "nat_to_dec n = (if n < 10 then [digit_char n] else nat_to_dec (n div 10) @ [digit_char (n mod 10)])"

declare nat_to_dec.simps [simp del]

abbreviation word_to_dec :: "'a::len word \<Rightarrow> string" where
  "word_to_dec w \<equiv> nat_to_dec (unat w)"

text \<open>
  \<^verbatim>\<open>str::parse\<close> for an unsigned type with values below \<open>bound\<close>: an optional \<open>+\<close>, then at least one
  digit; the first character that is no digit, or the first digit that makes the value too
  large, stops it with its error.
\<close>

definition int_empty :: error where
  "int_empty = Msg ''cannot parse integer from empty string''"

definition int_invalid :: error where
  "int_invalid = Msg ''invalid digit found in string''"

definition int_overflow :: error where
  "int_overflow = Msg ''number too large to fit in target type''"

fun parse_digits :: "nat \<Rightarrow> nat \<Rightarrow> string \<Rightarrow> nat res" where
  "parse_digits bound acc [] = Ok acc"
| "parse_digits bound acc (c # cs) =
     (case digit_val c of
        None \<Rightarrow> Err int_invalid
      | Some d \<Rightarrow> (if 10 * acc + d < bound then parse_digits bound (10 * acc + d) cs else Err int_overflow))"

fun parse_nat :: "nat \<Rightarrow> string \<Rightarrow> nat res" where
  "parse_nat bound [] = Err int_empty"
| "parse_nat bound (c # cs) =
     (if c = CHR ''+''
      then (if cs = [] then Err int_invalid else parse_digits bound 0 cs)
      else parse_digits bound 0 (c # cs))"

definition parse_word :: "string \<Rightarrow> 'a::len word res" where
  "parse_word s = bind_res (parse_nat (2 ^ LENGTH('a)) s) (\<lambda>n. Ok (of_nat n))"

lemma digit_val_char [simp]: "d < 10 \<Longrightarrow> digit_val (digit_char d) = Some d"
  by (simp add: digit_val_def digit_char_def Let_def)

lemma digit_char_not_special:
  "d < 10 \<Longrightarrow> digit_char d \<noteq> CHR ''+''" "d < 10 \<Longrightarrow> digit_char d \<noteq> TAB"
  "d < 10 \<Longrightarrow> digit_char d \<noteq> NL" "d < 10 \<Longrightarrow> digit_char d \<noteq> CR"
  "d < 10 \<Longrightarrow> digit_char d \<noteq> CHR ''.''" "d < 10 \<Longrightarrow> digit_char d \<noteq> CHR '':''"
  by (auto simp: digit_char_def char_of_eq_iff take_bit_eq_mod)

lemma parse_digits_append:
  "parse_digits b acc (xs @ ys) = bind_res (parse_digits b acc xs) (\<lambda>a. parse_digits b a ys)"
  by (induction b acc xs rule: parse_digits.induct) (auto split: option.splits)

lemma nat_to_dec_digits: "c \<in> set (nat_to_dec n) \<Longrightarrow> \<exists>d<10. c = digit_char d"
proof (induction n rule: nat_to_dec.induct)
  case (1 n)
  show ?case
  proof (cases "n < 10")
    case True
    with 1(2) show ?thesis by (auto simp: nat_to_dec.simps [of n])
  next
    case False
    with 1(2) have "c \<in> set (nat_to_dec (n div 10)) \<or> c = digit_char (n mod 10)"
      by (auto simp: nat_to_dec.simps [of n])
    moreover have "n mod 10 < 10" by simp
    ultimately show ?thesis using 1(1) [OF False] by blast
  qed
qed

lemma nat_to_dec_not_Nil [simp]: "nat_to_dec n \<noteq> []"
  by (simp add: nat_to_dec.simps [of n])

lemma parse_digits_nat_to_dec: "n < b \<Longrightarrow> parse_digits b 0 (nat_to_dec n) = Ok n"
proof (induction n rule: nat_to_dec.induct)
  case (1 n)
  show ?case
  proof (cases "n < 10")
    case True
    with 1(2) show ?thesis by (simp add: nat_to_dec.simps [of n])
  next
    case False
    with 1 have IH: "parse_digits b 0 (nat_to_dec (n div 10)) = Ok (n div 10)" by simp
    have "nat_to_dec n = nat_to_dec (n div 10) @ [digit_char (n mod 10)]"
      using False by (simp add: nat_to_dec.simps [of n])
    with IH 1(2) show ?thesis by (simp add: parse_digits_append)
  qed
qed

lemma nat_to_dec_special:
  "CHR ''+'' \<notin> set (nat_to_dec n)" "TAB \<notin> set (nat_to_dec n)" "NL \<notin> set (nat_to_dec n)"
  "CR \<notin> set (nat_to_dec n)" "CHR ''.'' \<notin> set (nat_to_dec n)" "CHR '':'' \<notin> set (nat_to_dec n)"
  using nat_to_dec_digits digit_char_not_special by (metis (no_types))+

lemma parse_nat_nat_to_dec: "n < b \<Longrightarrow> parse_nat b (nat_to_dec n) = Ok n"
proof -
  assume "n < b"
  obtain c cs where d: "nat_to_dec n = c # cs" by (meson list.exhaust nat_to_dec_not_Nil)
  then have "c \<noteq> CHR ''+''" using nat_to_dec_special(1) [of n] by auto
  with d parse_digits_nat_to_dec [OF \<open>n < b\<close>] show ?thesis by simp
qed

lemma parse_word_to_dec [simp]: "parse_word (word_to_dec w) = Ok w"
  by (simp add: parse_word_def parse_nat_nat_to_dec)

lemma nat_to_dec_inject [simp, name_inject]: "nat_to_dec m = nat_to_dec n \<longleftrightarrow> m = n"
  using parse_digits_nat_to_dec [of m "Suc (max m n)"] parse_digits_nat_to_dec [of n "Suc (max m n)"]
  by (metis less_Suc_eq_le max.cobounded1 max.cobounded2 res.inject(1))

text \<open>Every value below the bound that parses is a sequence of digits; nothing else is accepted.\<close>

lemma parse_digits_bound: "acc < b \<Longrightarrow> parse_digits b acc s = Ok n \<Longrightarrow> n < b"
  by (induction b acc s rule: parse_digits.induct) (auto split: option.splits if_splits)

end
