(* ===== verification/BTreeMap.thy ===== *)
theory BTreeMap
  imports Prelude "HOL-Library.Multiset"
begin

text \<open>
  \<^verbatim>\<open>std::collections::BTreeMap\<close>: a finite map iterated in ascending key order. The
  representation is the sorted entry list, so two maps with the same entries are equal. The
  contract the clients use is the locale \<open>ordered_map\<close>; what the components prove about loops
  over a map and about in-place updates of an entry follows from it.
\<close>

section \<open>The contract\<close>

locale ordered_map =
  fixes empty :: "'m"
    and get :: "'m \<Rightarrow> 'k::linorder \<Rightarrow> 'v option"
    and insert :: "'k \<Rightarrow> 'v \<Rightarrow> 'm \<Rightarrow> 'm"
    and remove :: "'k \<Rightarrow> 'm \<Rightarrow> 'm"
    and iter :: "'m \<Rightarrow> ('k \<times> 'v) list"
  assumes get_empty: "get empty k = None"
    and get_insert: "get (insert k v m) k' = (if k' = k then Some v else get m k')"
    and get_remove: "get (remove k m) k' = (if k' = k then None else get m k')"
    and iter_sorted: "sorted_wrt (<) (map fst (iter m))"
    and iter_get: "map_of (iter m) k = get m k"
    and get_ext: "(\<And>k. get m k = get m' k) \<Longrightarrow> m = m'"
begin

lemma iter_distinct: "distinct (map fst (iter m))"
  using iter_sorted [of m] by (simp add: strict_sorted_iff)

lemma iter_mem: "(k, v) \<in> set (iter m) \<longleftrightarrow> get m k = Some v"
  using iter_distinct [of m] by (simp add: iter_get [symmetric])

lemma iter_keys: "fst ` set (iter m) = {k. get m k \<noteq> None}"
proof -
  have "k \<in> fst ` set (iter m) \<longleftrightarrow> get m k \<noteq> None" for k
    using iter_get [of m k] by (metis map_of_eq_None_iff)
  then show ?thesis by blast
qed

lemma insert_insert: "insert k v (insert k w m) = insert k v m"
  by (rule get_ext) (simp add: get_insert)

lemma insert_same: "get m k = Some v \<Longrightarrow> insert k v m = m"
  by (rule get_ext) (simp add: get_insert)

lemma insert_commute: "k \<noteq> k' \<Longrightarrow> insert k v (insert k' v' m) = insert k' v' (insert k v m)"
  by (rule get_ext) (simp add: get_insert)

lemma remove_insert: "remove k (insert k v m) = remove k m"
  by (rule get_ext) (simp add: get_insert get_remove)

lemma remove_absent: "get m k = None \<Longrightarrow> remove k m = m"
  by (rule get_ext) (simp add: get_remove)

text \<open>A sum over the values, when one entry is replaced or added.\<close>

lemma iter_mset_insert:
  "mset (iter (insert k v m)) =
     add_mset (k, v) (filter_mset (\<lambda>e. fst e \<noteq> k) (mset (iter m)))"
proof -
  have d: "distinct (iter m)" for m
    using iter_distinct [of m] by (simp add: distinct_map)
  have "mset (iter (insert k v m)) = mset_set (set (iter (insert k v m)))"
    using d by (simp add: mset_set_set)
  also have "set (iter (insert k v m)) = Set.insert (k, v) {e \<in> set (iter m). fst e \<noteq> k}"
    by (auto simp: iter_mem get_insert split: if_splits)
  also have "mset_set \<dots> = add_mset (k, v) (mset_set {e \<in> set (iter m). fst e \<noteq> k})"
    by simp
  also have "mset_set {e \<in> set (iter m). fst e \<noteq> k} = filter_mset (\<lambda>e. fst e \<noteq> k) (mset (iter m))"
    using d by (simp add: mset_set_set [symmetric] filter_mset_mset_set)
  finally show ?thesis .
qed

lemma iter_mset_split:
  "mset (iter m) = filter_mset (\<lambda>e. fst e \<noteq> k) (mset (iter m)) +
     (case get m k of None \<Rightarrow> {#} | Some v \<Rightarrow> {#(k, v)#})"
proof (cases "get m k")
  case None
  then have "\<forall>e \<in> set (iter m). fst e \<noteq> k" by (force simp: iter_mem)
  then have "filter (\<lambda>e. fst e \<noteq> k) (iter m) = iter m" by (simp add: filter_id_conv)
  then show ?thesis by (simp add: None flip: mset_filter)
next
  case (Some v)
  then have m: "insert k v m = m" by (rule insert_same)
  show ?thesis using iter_mset_insert [of k v m] by (simp add: m Some)
qed

lemma sum_insert:
  fixes f :: "'v \<Rightarrow> 'n::comm_monoid_add"
  shows "sum_list (map (\<lambda>e. f (snd e)) (iter (insert k v m)))
           + (case get m k of None \<Rightarrow> 0 | Some w \<Rightarrow> f w)
         = sum_list (map (\<lambda>e. f (snd e)) (iter m)) + f v"
proof -
  let ?F = "\<lambda>e. f (snd e)" and ?R = "filter_mset (\<lambda>e. fst e \<noteq> k) (mset (iter m))"
  have s: "sum_list (map ?F xs) = sum_mset (image_mset ?F (mset xs))" for xs
    by (induction xs) simp_all
  have "sum_mset (image_mset ?F (mset (iter m))) =
      sum_mset (image_mset ?F ?R) + (case get m k of None \<Rightarrow> 0 | Some w \<Rightarrow> f w)"
    by (subst iter_mset_split [of m k]) (simp split: option.splits)
  then show ?thesis by (simp add: s iter_mset_insert ac_simps split: option.splits)
qed

end

section \<open>The representation\<close>

fun ins_list :: "'k::linorder \<Rightarrow> 'v \<Rightarrow> ('k \<times> 'v) list \<Rightarrow> ('k \<times> 'v) list" where
  "ins_list k v [] = [(k, v)]"
| "ins_list k v (e # es) =
     (if k < fst e then (k, v) # e # es
      else if k = fst e then (k, v) # es
      else e # ins_list k v es)"

definition del_list :: "'k \<Rightarrow> ('k \<times> 'v) list \<Rightarrow> ('k \<times> 'v) list" where
  "del_list k es = filter (\<lambda>e. fst e \<noteq> k) es"

lemma ins_list_keys: "fst ` set (ins_list k v es) = insert k (fst ` set es)"
  by (induction es) auto

lemma ins_list_sorted:
  "sorted_wrt (<) (map fst es) \<Longrightarrow> sorted_wrt (<) (map fst (ins_list k v es))"
proof (induction es)
  case (Cons e es)
  have "fst e < x" if "\<not> k < fst e" "k \<noteq> fst e" "x \<in> set (map fst (ins_list k v es))" for x
  proof -
    from that(3) have "x = k \<or> x \<in> fst ` set es"
      using ins_list_keys [of k v es] by simp
    with that(1,2) Cons.prems show ?thesis by auto
  qed
  with Cons show ?case by auto
qed simp

lemma map_of_ins_list: "map_of (ins_list k v es) k' = (if k' = k then Some v else map_of es k')"
  by (induction es) auto

lemma map_of_del_list: "map_of (del_list k es) k' = (if k' = k then None else map_of es k')"
  by (induction es) (auto simp: del_list_def)

lemma del_list_sorted: "sorted_wrt (<) (map fst es) \<Longrightarrow> sorted_wrt (<) (map fst (del_list k es))"
  by (induction es) (auto simp: del_list_def)

typedef (overloaded) ('k::linorder, 'v) btreemap =
  "{es :: ('k \<times> 'v) list. sorted_wrt (<) (map fst es)}"
  morphisms bt_iter Abs_btreemap
  by (rule exI [of _ "[]"]) simp

setup_lifting type_definition_btreemap

lift_definition bt_empty :: "('k::linorder, 'v) btreemap" is "[]"
  by simp

lift_definition bt_insert :: "'k::linorder \<Rightarrow> 'v \<Rightarrow> ('k, 'v) btreemap \<Rightarrow> ('k, 'v) btreemap" is ins_list
  by (rule ins_list_sorted)

lift_definition bt_remove :: "'k::linorder \<Rightarrow> ('k, 'v) btreemap \<Rightarrow> ('k, 'v) btreemap" is del_list
  by (rule del_list_sorted)

definition bt_get :: "('k::linorder, 'v) btreemap \<Rightarrow> 'k \<Rightarrow> 'v option" where
  "bt_get m k = map_of (bt_iter m) k"

text \<open>Evaluation of a closed map goes through its entries.\<close>

lemma bt_iter_empty [simp]: "bt_iter bt_empty = []"
  by (rule bt_empty.rep_eq)

lemma bt_iter_insert [simp]: "bt_iter (bt_insert k v m) = ins_list k v (bt_iter m)"
  by (rule bt_insert.rep_eq)

lemma bt_iter_remove [simp]: "bt_iter (bt_remove k m) = del_list k (bt_iter m)"
  by (rule bt_remove.rep_eq)

lemma bt_iter_sorted: "sorted_wrt (<) (map fst (bt_iter m))"
  using bt_iter by blast

interpretation bt: ordered_map bt_empty bt_get bt_insert bt_remove bt_iter
proof
  fix m m' :: "('k::linorder, 'v) btreemap"
  assume "\<And>k. bt_get m k = bt_get m' k"
  then have "map_of (bt_iter m) = map_of (bt_iter m')" by (simp add: bt_get_def fun_eq_iff)
  then have "set (bt_iter m) = set (bt_iter m')"
    using bt_iter_sorted [of m] bt_iter_sorted [of m']
    by (metis map_of_inject_set strict_sorted_iff)
  then have "set (map fst (bt_iter m)) = set (map fst (bt_iter m'))" by simp
  then have "map fst (bt_iter m) = map fst (bt_iter m')"
    using bt_iter_sorted [of m] bt_iter_sorted [of m'] by (metis strict_sorted_equal)
  moreover have "map snd (bt_iter m) = map (\<lambda>k. the (map_of (bt_iter m) k)) (map fst (bt_iter m))"
    for m :: "('k::linorder, 'v) btreemap"
    using bt_iter_sorted [of m] by (auto simp: strict_sorted_iff)
  ultimately have "map snd (bt_iter m) = map snd (bt_iter m')"
    using \<open>map_of (bt_iter m) = map_of (bt_iter m')\<close> by metis
  with \<open>map fst (bt_iter m) = map fst (bt_iter m')\<close> show "m = m'"
    by (metis bt_iter_inject zip_map_fst_snd)
qed (simp_all add: bt_get_def map_of_ins_list map_of_del_list bt_iter_sorted)

lemmas bt_get_simps [simp] = bt.get_empty bt.get_insert bt.get_remove

section \<open>Derived operations\<close>

text \<open>
  \<open>entry(k).or_insert(d)\<close> gives a mutable reference to the entry; the code then changes the
  entry in place. \<open>bt_upsert\<close> is that whole sequence.
\<close>

definition bt_or :: "('k::linorder, 'v) btreemap \<Rightarrow> 'k \<Rightarrow> 'v \<Rightarrow> 'v" where
  "bt_or m k d = (case bt_get m k of None \<Rightarrow> d | Some v \<Rightarrow> v)"

definition bt_upsert :: "'k::linorder \<Rightarrow> 'v \<Rightarrow> ('v \<Rightarrow> 'v) \<Rightarrow> ('k, 'v) btreemap \<Rightarrow> ('k, 'v) btreemap" where
  "bt_upsert k d f m = bt_insert k (f (bt_or m k d)) m"

definition bt_of_list :: "('k::linorder \<times> 'v) list \<Rightarrow> ('k, 'v) btreemap" where
  "bt_of_list es = foldl (\<lambda>m e. bt_insert (fst e) (snd e) m) bt_empty es"

definition bt_keys :: "('k::linorder, 'v) btreemap \<Rightarrow> 'k list" where
  "bt_keys m = map fst (bt_iter m)"

definition bt_values :: "('k::linorder, 'v) btreemap \<Rightarrow> 'v list" where
  "bt_values m = map snd (bt_iter m)"

definition bt_sum :: "('v \<Rightarrow> 'n::comm_monoid_add) \<Rightarrow> ('k::linorder, 'v) btreemap \<Rightarrow> 'n" where
  "bt_sum f m = sum_list (map (\<lambda>e. f (snd e)) (bt_iter m))"

lemma bt_get_upsert [simp]:
  "bt_get (bt_upsert k d f m) k' = (if k' = k then Some (f (bt_or m k d)) else bt_get m k')"
  by (simp add: bt_upsert_def)

lemma bt_or_eq: "bt_get m k = Some v \<Longrightarrow> bt_or m k d = v" "bt_get m k = None \<Longrightarrow> bt_or m k d = d"
  by (simp_all add: bt_or_def)

lemma bt_sum_empty [simp]: "bt_sum f bt_empty = 0"
  by (simp add: bt_sum_def)

lemma bt_sum_insert:
  "bt_sum f (bt_insert k v m) + (case bt_get m k of None \<Rightarrow> 0 | Some w \<Rightarrow> f w) = bt_sum f m + f v"
  unfolding bt_sum_def by (rule bt.sum_insert)

lemma bt_sum_upsert:
  assumes "f d = 0"
  shows "bt_sum f (bt_upsert k d g m) + f (bt_or m k d) = bt_sum f m + f (g (bt_or m k d))"
  using bt_sum_insert [of f k "g (bt_or m k d)" m] assms
  by (simp add: bt_upsert_def bt_or_def split: option.splits)

lemma bt_keys_distinct: "distinct (bt_keys m)"
  unfolding bt_keys_def by (rule bt.iter_distinct)

lemma bt_keys_mem: "k \<in> set (bt_keys m) \<longleftrightarrow> bt_get m k \<noteq> None"
  using bt.iter_keys [of m] by (auto simp: bt_keys_def)

instantiation btreemap :: (linorder, equal) equal
begin

definition equal_btreemap :: "('a, 'b) btreemap \<Rightarrow> ('a, 'b) btreemap \<Rightarrow> bool" where
  "equal_btreemap m m' \<longleftrightarrow> bt_iter m = bt_iter m'"

instance
  by standard (simp add: equal_btreemap_def bt_iter_inject)

end

lemma bt_eq_iff: "m = m' \<longleftrightarrow> bt_iter m = bt_iter m'"
  by (simp add: bt_iter_inject)

end
