(* ===== verification/Libs.thy ===== *)
theory Libs
  imports Rust_Std BTreeMap
begin

text \<open>
  The value types of \<^verbatim>\<open>std::net\<close> and of the third-party crates \<^verbatim>\<open>ipnet\<close>, \<^verbatim>\<open>url\<close> and
  \<^verbatim>\<open>wireguard_keys\<close> the gateway stores in its state, and the functions of those crates the code
  calls, as one record \<open>libs\<close> of parameters. What the gateway relies on of each crate is a locale
  of its own (\<open>ipnet_laws\<close>, \<open>ipnet_text_laws\<close>, \<open>key_laws\<close>, \<open>base32_laws\<close>, \<open>url_laws\<close>, \<open>hash_laws\<close>,
  and \<open>regex_laws\<close> in \<open>Iptables\<close>), stating documented behaviour; \<open>Libs_Instance\<close> shows that they can hold together.
\<close>

unbundle bit_operations_syntax

section \<open>Addresses\<close>

datatype ip_addr = IpV4 u32 | IpV6 u128

text \<open>An IPv6 socket address carries a scope id, which only the text form can set.\<close>

datatype socket_addr = SockV4 u32 u16 | SockV6 u128 u16 u32

fun sock_ip :: "socket_addr \<Rightarrow> ip_addr" where
  "sock_ip (SockV4 a p) = IpV4 a"
| "sock_ip (SockV6 a p s) = IpV6 a"

fun sock_port :: "socket_addr \<Rightarrow> u16" where
  "sock_port (SockV4 a p) = p"
| "sock_port (SockV6 a p s) = p"

fun socket_addr_new :: "ip_addr \<Rightarrow> u16 \<Rightarrow> socket_addr" where
  "socket_addr_new (IpV4 a) p = SockV4 a p"
| "socket_addr_new (IpV6 a) p = SockV6 a p 0"

datatype ipv4net = Ipv4Net (net4_addr: u32) (net4_prefix_len: u8)

datatype ip_net = IpNetV4 ipv4net | IpNetV6 u128 u8

fun ip_net_addr :: "ip_net \<Rightarrow> ip_addr" where
  "ip_net_addr (IpNetV4 n) = IpV4 (net4_addr n)"
| "ip_net_addr (IpNetV6 a p) = IpV6 a"

definition octet :: "u32 \<Rightarrow> nat \<Rightarrow> nat" where
  "octet a i = unat (take_bit 8 (drop_bit (8 * (3 - i)) a))"

definition ipv4_to_string :: "u32 \<Rightarrow> string" where
  "ipv4_to_string a = join ''.'' (map (\<lambda>i. nat_to_dec (octet a i)) [0, 1, 2, 3])"

definition ipv4_of_octets :: "nat \<Rightarrow> nat \<Rightarrow> nat \<Rightarrow> nat \<Rightarrow> u32" where
  "ipv4_of_octets a b c d = of_nat (((a * 256 + b) * 256 + c) * 256 + d)"

section \<open>Keys and URLs\<close>

datatype pubkey = Pubkey (pubkey_bytes: "u8 list")
datatype privkey = Privkey (privkey_bytes: "u8 list")
datatype secret = Secret (secret_bytes: "u8 list")

text \<open>A parsed URL is its serialisation, which is what the crate compares and orders it by.\<close>

datatype url = Url (url_to_string: string)

instantiation pubkey :: linorder
begin

definition less_eq_pubkey :: "pubkey \<Rightarrow> pubkey \<Rightarrow> bool" where
  "less_eq_pubkey a b \<longleftrightarrow> pubkey_bytes a \<le> pubkey_bytes b"

definition less_pubkey :: "pubkey \<Rightarrow> pubkey \<Rightarrow> bool" where
  "less_pubkey a b \<longleftrightarrow> pubkey_bytes a < pubkey_bytes b"

instance
  by standard (auto simp: less_eq_pubkey_def less_pubkey_def pubkey.expand)

end

instantiation url :: linorder
begin

definition less_eq_url :: "url \<Rightarrow> url \<Rightarrow> bool" where
  "less_eq_url a b \<longleftrightarrow> url_to_string a \<le> url_to_string b"

definition less_url :: "url \<Rightarrow> url \<Rightarrow> bool" where
  "less_url a b \<longleftrightarrow> url_to_string a < url_to_string b"

instance
  by standard (auto simp: less_eq_url_def less_url_def url.expand)

end

section \<open>The functions of the crates\<close>

record libs =
  pubkey_to_string :: "pubkey \<Rightarrow> string"
  pubkey_from_str :: "string \<Rightarrow> pubkey res"
  privkey_to_string :: "privkey \<Rightarrow> string"
  privkey_from_str :: "string \<Rightarrow> privkey res"
  secret_to_string :: "secret \<Rightarrow> string"
  secret_from_str :: "string \<Rightarrow> secret res"
  url_parse :: "string \<Rightarrow> url res"
  url_scheme :: "url \<Rightarrow> string"
  url_host_str :: "url \<Rightarrow> string option"
  base32_encode :: "u8 list \<Rightarrow> string"
  ipv4net_new :: "u32 \<Rightarrow> u8 \<Rightarrow> ipv4net option"
  ipv4net_network :: "ipv4net \<Rightarrow> u32"
  ipv4_saturating_add :: "u32 \<Rightarrow> u32 \<Rightarrow> u32"
  ipnet_trunc :: "ip_net \<Rightarrow> ip_net"
  ipnet_to_string :: "ip_net \<Rightarrow> string"
  ipnet_from_str :: "string \<Rightarrow> ip_net res"
  ipv6_to_string :: "u128 \<Rightarrow> string"
  sockv6_to_string :: "u128 \<Rightarrow> u16 \<Rightarrow> u32 \<Rightarrow> string"
  sockv6_from_str :: "string \<Rightarrow> socket_addr res"
  regex_replace :: "string \<Rightarrow> string \<Rightarrow> string \<Rightarrow> string"
  hash_iter :: "string list \<Rightarrow> string list"

text \<open>\<^verbatim>\<open>String::as_bytes\<close>; the \<open>Display\<close> of addresses, with the IPv6 text form a parameter.\<close>

definition as_bytes :: "string \<Rightarrow> u8 list" where
  "as_bytes s = map of_char s"

fun ip_to_string :: "libs \<Rightarrow> ip_addr \<Rightarrow> string" where
  "ip_to_string L (IpV4 a) = ipv4_to_string a"
| "ip_to_string L (IpV6 a) = ipv6_to_string L a"

fun sock_to_string :: "libs \<Rightarrow> socket_addr \<Rightarrow> string" where
  "sock_to_string L (SockV4 a p) = ipv4_to_string a @ '':'' @ word_to_dec p"
| "sock_to_string L (SockV6 a p s) = sockv6_to_string L a p s"

text \<open>
  \<^verbatim>\<open>SocketAddr::from_str\<close>: an IPv4 address and a port, and where that fails an IPv6 one. An octet
  is one to three digits without a leading zero; a port is any digits that fit 16 bits.
\<close>

definition digits_only :: "string \<Rightarrow> bool" where
  "digits_only s \<longleftrightarrow> s \<noteq> [] \<and> (\<forall>c \<in> set s. digit_val c \<noteq> None)"

definition parse_octet :: "string \<Rightarrow> nat option" where
  "parse_octet s =
     (if digits_only s \<and> length s \<le> 3 \<and> \<not> (1 < length s \<and> hd s = CHR ''0'')
      then (case parse_digits 256 0 s of Ok n \<Rightarrow> Some n | _ \<Rightarrow> None) else None)"

definition parse_port :: "string \<Rightarrow> u16 option" where
  "parse_port s =
     (if digits_only s then (case parse_digits 65536 0 s of Ok n \<Rightarrow> Some (of_nat n) | _ \<Rightarrow> None)
      else None)"

definition sockv4_from_str :: "string \<Rightarrow> socket_addr option" where
  "sockv4_from_str s =
     (case split_on (CHR '':'') s of
        [ip, port] \<Rightarrow>
          (case (map parse_octet (split_on (CHR ''.'') ip), parse_port port) of
             ([Some a, Some b, Some c, Some d], Some p) \<Rightarrow> Some (SockV4 (ipv4_of_octets a b c d) p)
           | _ \<Rightarrow> None)
      | _ \<Rightarrow> None)"

definition sock_from_str :: "libs \<Rightarrow> string \<Rightarrow> socket_addr res" where
  "sock_from_str L s = (case sockv4_from_str s of Some a \<Rightarrow> Ok a | None \<Rightarrow> sockv6_from_str L s)"

section \<open>What the gateway relies on\<close>

locale ipnet_laws =
  fixes L :: libs
  assumes net_new: "p \<le> 32 \<Longrightarrow> ipv4net_new L a p = Some (Ipv4Net a p)"
    and net_network: "p \<le> 32 \<Longrightarrow>
      ipv4net_network L (Ipv4Net a p) = push_bit (32 - unat p) (drop_bit (32 - unat p) a)"
    and net_saturating_add: "ipv4_saturating_add L a n =
      (if unat a + unat n < 2 ^ 32 then a + n else - 1)"

locale ipnet_text_laws =
  fixes L :: libs
  assumes ipnet_roundtrip: "ipnet_from_str L (ipnet_to_string L n) = Ok n"
    and ipnet_chars: "c \<in> set (ipnet_to_string L n) \<Longrightarrow> c \<notin> {TAB, NL, CR, CHR '','', CHR ''(''}"
    and ipnet_nonempty: "ipnet_to_string L n \<noteq> []"

locale key_laws =
  fixes L :: libs
  assumes pubkey_roundtrip: "length (pubkey_bytes k) = 32 \<Longrightarrow>
      pubkey_from_str L (pubkey_to_string L k) = Ok k"
    and privkey_roundtrip: "length (privkey_bytes k') = 32 \<Longrightarrow>
      privkey_from_str L (privkey_to_string L k') = Ok k'"
    and secret_roundtrip: "length (secret_bytes k'') = 32 \<Longrightarrow>
      secret_from_str L (secret_to_string L k'') = Ok k''"
    and pubkey_chars: "c \<in> set (pubkey_to_string L k) \<Longrightarrow> c \<notin> {TAB, NL, CR}"
    and privkey_chars: "c \<in> set (privkey_to_string L k') \<Longrightarrow> c \<notin> {TAB, NL, CR}"
    and secret_chars: "c \<in> set (secret_to_string L k'') \<Longrightarrow> c \<notin> {TAB, NL, CR, CHR ''(''}"

locale base32_laws =
  fixes L :: libs
  assumes base32_inject: "base32_encode L xs = base32_encode L ys \<Longrightarrow> xs = ys"

locale url_laws =
  fixes L :: libs
  assumes special_host: "url_scheme L u \<in> {''http'', ''https''} \<Longrightarrow> url_host_str L u \<noteq> None"

locale hash_laws =
  fixes L :: libs
  assumes hash_set: "set (hash_iter L xs) = set xs"
    and hash_distinct: "distinct (hash_iter L xs)"

end
