(* ===== verification/Client.thy ===== *)
theory Client
  imports Libs
begin

text \<open>
  The client crate (\<^verbatim>\<open>client/src/lib.rs\<close>): the events, requests and responses exchanged with the
  manager, the configuration types with the merge of a partial configuration, and the traffic
  accounting records with their \<open>add\<close> operations.
\<close>

section \<open>Events\<close>

record gateway_peer_connected_event =
  pc_network :: pubkey
  pc_peer :: pubkey
  pc_endpoint :: socket_addr

record gateway_peer_disconnected_event =
  pd_network :: pubkey
  pd_peer :: pubkey

record gateway_peer_endpoint_event =
  pe_network :: pubkey
  pe_peer :: pubkey
  pe_endpoint :: socket_addr

datatype gateway_event =
    PeerConnected gateway_peer_connected_event
  | PeerDisconnected gateway_peer_disconnected_event
  | Endpoint gateway_peer_endpoint_event

section \<open>Errors\<close>

text \<open>
  The error type the crate offers its users, with its messages. The second constructor depends on a
  feature \<open>api\<close>, which the crate's manifest does not declare; nothing constructs either. The request's
  error is given by its text.
\<close>

datatype gateway_error = UnknownError | Reqwest string

fun gateway_error_to_string :: "gateway_error \<Rightarrow> string" where
  "gateway_error_to_string UnknownError = ''An unknown error has occured''"
| "gateway_error_to_string (Reqwest e) = ''An error making the request has occured: '' @ e"

section \<open>Configuration\<close>

record peer_state =
  ps_preshared_key :: "secret option"
  ps_allowed_ips :: "ip_net list"
  ps_endpoint :: "socket_addr option"

record network_state =
  ns_private_key :: privkey
  ns_listen_port :: u16
  ns_mtu :: usize
  ns_address :: "ip_net list"
  ns_peers :: "(pubkey, peer_state) btreemap"
  ns_proxy :: "(url, socket_addr list) btreemap"

type_synonym gateway_config = "(u16, network_state) btreemap"
type_synonym gateway_config_partial = "(u16, network_state option) btreemap"

definition default_mtu :: usize where
  "default_mtu = 1420"

text \<open>
  \<open>GatewayConfig::apply_partial\<close>: one pass over the partial configuration; an entry without a
  network removes the port, an entry with one stores it.
\<close>

definition config_apply_partial :: "gateway_config \<Rightarrow> gateway_config_partial \<Rightarrow> gateway_config" where
  "config_apply_partial self partial =
     foldl (\<lambda>c e. case snd e of
                None \<Rightarrow> bt_remove (fst e) c
              | Some network \<Rightarrow> bt_insert (fst e) network c)
       self (bt_iter partial)"

section \<open>Traffic accounting\<close>

record traffic =
  rx :: usize
  tx :: usize

definition traffic_new :: "usize \<Rightarrow> usize \<Rightarrow> traffic" where
  "traffic_new r t = \<lparr>rx = r, tx = t\<rparr>"

definition traffic_default :: traffic where
  "traffic_default = \<lparr>rx = 0, tx = 0\<rparr>"

text \<open>The operator \<open>+\<close>, the operator \<open>+=\<close>, and the inherent method \<open>add\<close>.\<close>

definition traffic_plus :: "profile \<Rightarrow> traffic \<Rightarrow> traffic \<Rightarrow> traffic res" where
  "traffic_plus p self rhs =
     bind_res (add_ck p (rx self) (rx rhs)) (\<lambda>r.
     bind_res (add_ck p (tx self) (tx rhs)) (\<lambda>t.
     Ok \<lparr>rx = r, tx = t\<rparr>))"

definition traffic_add_assign :: "profile \<Rightarrow> traffic \<Rightarrow> traffic \<Rightarrow> traffic res" where
  "traffic_add_assign p self other =
     bind_res (add_ck p (tx self) (tx other)) (\<lambda>t.
     bind_res (add_ck p (rx self) (rx other)) (\<lambda>r.
     Ok (self\<lparr>tx := t, rx := r\<rparr>)))"

definition traffic_add :: "profile \<Rightarrow> traffic \<Rightarrow> traffic \<Rightarrow> traffic res" where
  "traffic_add p self other =
     bind_res (add_ck p (rx self) (rx other)) (\<lambda>r.
     bind_res (add_ck p (tx self) (tx other)) (\<lambda>t.
     Ok (self\<lparr>rx := r, tx := t\<rparr>)))"

record device_traffic =
  dt_traffic :: traffic
  dt_times :: "(usize, traffic) btreemap"

definition device_traffic_default :: device_traffic where
  "device_traffic_default = \<lparr>dt_traffic = traffic_default, dt_times = bt_empty\<rparr>"

definition device_traffic_add :: "profile \<Rightarrow> device_traffic \<Rightarrow> usize \<Rightarrow> traffic \<Rightarrow> device_traffic res" where
  "device_traffic_add p self time t =
     bind_res (traffic_add_assign p (dt_traffic self) t) (\<lambda>total.
     Ok (self\<lparr>dt_traffic := total, dt_times := bt_insert time t (dt_times self)\<rparr>))"

record network_traffic =
  nt_traffic :: traffic
  nt_devices :: "(pubkey, device_traffic) btreemap"

definition network_traffic_default :: network_traffic where
  "network_traffic_default = \<lparr>nt_traffic = traffic_default, nt_devices = bt_empty\<rparr>"

definition network_traffic_add ::
  "profile \<Rightarrow> network_traffic \<Rightarrow> pubkey \<Rightarrow> usize \<Rightarrow> traffic \<Rightarrow> network_traffic res" where
  "network_traffic_add p self device time t =
     bind_res (traffic_add_assign p (nt_traffic self) t) (\<lambda>total.
     bind_res (device_traffic_add p (bt_or (nt_devices self) device device_traffic_default) time t)
       (\<lambda>device_traffic.
     Ok (self\<lparr>nt_traffic := total, nt_devices := bt_insert device device_traffic (nt_devices self)\<rparr>)))"

record traffic_info =
  ti_start_time :: usize
  ti_stop_time :: usize
  ti_traffic :: traffic
  ti_networks :: "(pubkey, network_traffic) btreemap"

definition traffic_info_new :: "usize \<Rightarrow> traffic_info" where
  "traffic_info_new start_time =
     \<lparr>ti_start_time = start_time, ti_stop_time = start_time,
      ti_traffic = traffic_default, ti_networks = bt_empty\<rparr>"

definition traffic_info_add ::
  "profile \<Rightarrow> traffic_info \<Rightarrow> pubkey \<Rightarrow> pubkey \<Rightarrow> usize \<Rightarrow> traffic \<Rightarrow> traffic_info res" where
  "traffic_info_add p self network device time t =
     bind_res (traffic_add_assign p (ti_traffic self) t) (\<lambda>total.
     bind_res (network_traffic_add p (bt_or (ti_networks self) network network_traffic_default)
                 device time t) (\<lambda>network_traffic.
     Ok (self\<lparr>ti_traffic := total,
              ti_stop_time := max (ti_stop_time self) time,
              ti_networks := bt_insert network network_traffic (ti_networks self)\<rparr>)))"

section \<open>Messages\<close>

datatype gateway_request =
    ReqApply gateway_config
  | ReqApplyPartial gateway_config_partial
  | ReqShutdown

datatype gateway_response =
    RespTraffic traffic_info
  | RespEvent gateway_event
  | RespApply "string + unit"

end
