(* ===== verification/Types.thy ===== *)
theory Types
  imports Client
begin

text \<open>
  \<^verbatim>\<open>src/types.rs\<close>: the names and addresses derived from a network's listen port, the WireGuard
  configuration text, the port mappings and the iptables template's context, the NGINX
  forwarding tables, and the parsers of the WireGuard statistics dump.
\<close>

section \<open>Names and addresses of a network\<close>

definition NETNS_PREFIX :: string where "NETNS_PREFIX = ''network-''"
definition VETH_PREFIX :: string where "VETH_PREFIX = ''veth''"
definition WIREGUARD_PREFIX :: string where "WIREGUARD_PREFIX = ''wg''"
definition PORT_MAPPING_START :: u16 where "PORT_MAPPING_START = 2000"

definition BRIDGE_NET :: "libs \<Rightarrow> ipv4net res" where
  "BRIDGE_NET L = unwrap (ipv4net_new L (ipv4_of_octets 172 99 0 1) 16)"

definition netns_name :: "network_state \<Rightarrow> string" where
  "netns_name n = NETNS_PREFIX @ word_to_dec (ns_listen_port n)"

definition wgif_name :: "network_state \<Rightarrow> string" where
  "wgif_name n = WIREGUARD_PREFIX @ word_to_dec (ns_listen_port n)"

definition veth_name :: "network_state \<Rightarrow> string" where
  "veth_name n = VETH_PREFIX @ word_to_dec (ns_listen_port n)"

definition veth_ipv4net :: "libs \<Rightarrow> network_state \<Rightarrow> ipv4net res" where
  "veth_ipv4net L n =
     bind_res (BRIDGE_NET L) (\<lambda>bridge.
     let addr = ipv4net_network L bridge;
         addr = ipv4_saturating_add L addr (ucast (ns_listen_port n))
     in unwrap (ipv4net_new L addr (net4_prefix_len bridge)))"

section \<open>WireGuard configuration\<close>

text \<open>\<^verbatim>\<open>writeln!\<close> to a string appends the text and a line feed.\<close>

abbreviation writeln :: "string \<Rightarrow> string" where
  "writeln s \<equiv> s @ [NL]"

definition peer_to_config :: "libs \<Rightarrow> peer_state \<Rightarrow> pubkey \<Rightarrow> string" where
  "peer_to_config L self public_key =
     writeln ''[Peer]''
     @ writeln (''PublicKey = '' @ pubkey_to_string L public_key)
     @ writeln (''AllowedIPs = '' @
         join '', '' (map (\<lambda>ip. ipnet_to_string L (ipnet_trunc L ip)) (ps_allowed_ips self)))
     @ (case ps_preshared_key self of
          Some preshared_key \<Rightarrow> writeln (''PresharedKey = '' @ secret_to_string L preshared_key)
        | None \<Rightarrow> [])
     @ (case ps_endpoint self of
          Some endpoint \<Rightarrow> writeln (''Endpoint = '' @ sock_to_string L endpoint)
        | None \<Rightarrow> [])
     @ writeln ''PersistentKeepalive = 25''"

definition network_to_config :: "libs \<Rightarrow> network_state \<Rightarrow> string" where
  "network_to_config L self =
     writeln ''[Interface]''
     @ writeln (''ListenPort = '' @ word_to_dec (ns_listen_port self))
     @ writeln (''PrivateKey = '' @ privkey_to_string L (ns_private_key self))
     @ concat (map (\<lambda>(pubkey, peer). writeln ([NL] @ peer_to_config L peer pubkey))
         (bt_iter (ns_peers self)))"

section \<open>Port mappings\<close>

record port_mapping =
  port_in :: u16
  port_out :: u16
  ip_out :: ip_addr

record PortConfig =
  interface_in :: string
  interface_out :: string
  ip_source :: ip_addr
  mappings :: "port_mapping list"

text \<open>The targets of all URLs in one list, each with its URL; \<open>i as u16\<close> truncates the index.\<close>

definition proxy_targets :: "network_state \<Rightarrow> (url \<times> socket_addr) list" where
  "proxy_targets n = concat (map (\<lambda>(url, addrs). map (\<lambda>a. (url, a)) addrs) (bt_iter (ns_proxy n)))"

definition port_mappings :: "profile \<Rightarrow> network_state \<Rightarrow> (url \<times> u16 \<times> socket_addr) list res" where
  "port_mappings p n =
     collect_res (\<lambda>(i, url, addr).
         bind_res (add_ck p PORT_MAPPING_START (of_nat i)) (\<lambda>port. Ok (url, port, addr)))
       (enumerate 0 (proxy_targets n))"

definition port_config :: "profile \<Rightarrow> network_state \<Rightarrow> PortConfig res" where
  "port_config p n =
     bind_res (unwrap (case ns_address n of [] \<Rightarrow> None | a # _ \<Rightarrow> Some a)) (\<lambda>first.
     bind_res (port_mappings p n) (\<lambda>ms.
     Ok \<lparr>interface_in = veth_name n,
         interface_out = wgif_name n,
         ip_source = ip_net_addr first,
         mappings = map (\<lambda>(_, port, sock).
            \<lparr>port_in = port, port_out = sock_port sock, ip_out = sock_ip sock\<rparr>) ms\<rparr>))"

section \<open>NGINX forwarding\<close>

record forwarding =
  https_forwarding :: "(string, string) btreemap"
  https_upstream :: "(string, socket_addr list) btreemap"
  http_forwarding :: "(string, string) btreemap"
  http_upstream :: "(string, socket_addr list) btreemap"
  ssh_forwarding :: "(string, socket_addr) btreemap"

definition forwarding_new :: forwarding where
  "forwarding_new = \<lparr>https_forwarding = bt_empty, https_upstream = bt_empty,
     http_forwarding = bt_empty, http_upstream = bt_empty, ssh_forwarding = bt_empty\<rparr>"

definition add_https :: "libs \<Rightarrow> forwarding \<Rightarrow> url \<Rightarrow> socket_addr \<Rightarrow> forwarding res" where
  "add_https L self url socket =
     bind_res (unwrap (url_host_str L url)) (\<lambda>host.
     let upstream = bt_or (https_forwarding self) host (''https_'' @ base32_encode L (as_bytes host));
         servers = bt_or (https_upstream self) upstream []
     in Ok (self\<lparr>https_forwarding := bt_insert host upstream (https_forwarding self),
                 https_upstream := bt_insert upstream (servers @ [socket]) (https_upstream self)\<rparr>))"

definition add_http :: "libs \<Rightarrow> forwarding \<Rightarrow> url \<Rightarrow> socket_addr \<Rightarrow> forwarding res" where
  "add_http L self url socket =
     bind_res (unwrap (url_host_str L url)) (\<lambda>host.
     let upstream = bt_or (http_forwarding self) host (''http_'' @ base32_encode L (as_bytes host));
         servers = bt_or (http_upstream self) upstream []
     in Ok (self\<lparr>http_forwarding := bt_insert host upstream (http_forwarding self),
                 http_upstream := bt_insert upstream (servers @ [socket]) (http_upstream self)\<rparr>))"

definition add_ssh :: "forwarding \<Rightarrow> url \<Rightarrow> socket_addr \<Rightarrow> forwarding res" where
  "add_ssh self url socket = Ok self"

text \<open>An unknown scheme is logged and skipped.\<close>

definition add_mapping :: "libs \<Rightarrow> forwarding \<Rightarrow> url \<Rightarrow> socket_addr \<Rightarrow> forwarding res" where
  "add_mapping L self url sock =
     (if url_scheme L url = ''https'' then add_https L self url sock
      else if url_scheme L url = ''http'' then add_http L self url sock
      else if url_scheme L url = ''ssh'' then add_ssh self url sock
      else Ok self)"

definition forwarding_add :: "libs \<Rightarrow> profile \<Rightarrow> forwarding \<Rightarrow> network_state \<Rightarrow> forwarding res" where
  "forwarding_add L p self network =
     bind_res (port_mappings p network) (\<lambda>ms.
     fold_res (\<lambda>fwd (url, port, _).
         bind_res (veth_ipv4net L network) (\<lambda>net.
         add_mapping L fwd url (socket_addr_new (IpV4 (net4_addr net)) port)))
       self ms)"

definition add_custom :: "libs \<Rightarrow> forwarding \<Rightarrow> url \<Rightarrow> socket_addr \<Rightarrow> forwarding res" where
  "add_custom L self url socket =
     (if url_scheme L url = ''https'' then add_https L self url socket
      else if url_scheme L url = ''http'' then add_http L self url socket
      else Ok self)"

section \<open>WireGuard statistics\<close>

text \<open>
  A \<^verbatim>\<open>SystemTime\<close> is a number of nanoseconds since the epoch; on Linux its seconds are a signed
  64-bit count, so \<open>UNIX_EPOCH.checked_add\<close> fails from \<open>2 ^ 63\<close> seconds on.
\<close>

type_synonym system_time = int

definition unix_epoch_checked_add :: "u64 \<Rightarrow> system_time option" where
  "unix_epoch_checked_add secs = (if unat secs < 2 ^ 63 then Some (int (unat secs) * 10 ^ 9) else None)"

record peer_stats =
  pst_public_key :: pubkey
  pst_preshared_key :: "secret option"
  pst_endpoint :: "socket_addr option"
  pst_allowed_ips :: "ip_net list"
  pst_latest_handshake :: "system_time option"
  pst_transfer_rx :: usize
  pst_transfer_tx :: usize
  pst_persistent_keepalive :: "usize option"

record network_stats =
  nst_private_key :: privkey
  nst_public_key :: pubkey
  nst_listen_port :: u16
  nst_fwmark :: "u16 option"
  nst_peers :: "peer_stats list"

record netns_item =
  netns_item_name :: string
  netns_item_id :: "usize option"

definition wrong_len :: error where
  "wrong_len = Msg ''Wrong network stats line len''"

definition parse_handshake :: "string \<Rightarrow> system_time option res" where
  "parse_handshake s =
     bind_res (parse_word s) (\<lambda>timestamp :: u64.
     if 0 < timestamp
     then bind_res (ok_or (unix_epoch_checked_add timestamp)
            (Msg ''Error parsing latest handshake time'')) (\<lambda>t. Ok (Some t))
     else Ok None)"

definition parse_peer_fields ::
  "libs \<Rightarrow> string \<Rightarrow> string \<Rightarrow> string \<Rightarrow> string \<Rightarrow> string \<Rightarrow> string \<Rightarrow> string \<Rightarrow> string \<Rightarrow> peer_stats res" where
  "parse_peer_fields L c0 c1 c2 c3 c4 c5 c6 c7 =
     bind_res (pubkey_from_str L c0) (\<lambda>public_key.
     bind_res (if c1 = ''(none)'' then Ok None
               else bind_res (secret_from_str L c1) (\<lambda>k. Ok (Some k))) (\<lambda>preshared_key.
     bind_res (if c2 = ''(none)'' then Ok None
               else bind_res (context_res ''Parsing endpoint'' (sock_from_str L c2)) (\<lambda>a. Ok (Some a)))
       (\<lambda>endpoint.
     bind_res (if c3 = ''(none)'' then Ok []
               else context_res ''Parsing IpNet'' (collect_res (ipnet_from_str L) (split_on (CHR '','') c3)))
       (\<lambda>allowed_ips.
     bind_res (parse_handshake c4) (\<lambda>latest_handshake.
     bind_res (parse_word c5) (\<lambda>transfer_rx.
     bind_res (parse_word c6) (\<lambda>transfer_tx.
     bind_res (if c7 = ''off'' then Ok None
               else bind_res (parse_word c4) (\<lambda>k. Ok (Some k))) (\<lambda>persistent_keepalive.
     Ok \<lparr>pst_public_key = public_key, pst_preshared_key = preshared_key, pst_endpoint = endpoint,
         pst_allowed_ips = allowed_ips, pst_latest_handshake = latest_handshake,
         pst_transfer_rx = transfer_rx, pst_transfer_tx = transfer_tx,
         pst_persistent_keepalive = persistent_keepalive\<rparr>))))))))"

definition peer_stats_from_str :: "libs \<Rightarrow> string \<Rightarrow> peer_stats res" where
  "peer_stats_from_str L output =
     (case split_on TAB output of
        [c0, c1, c2, c3, c4, c5, c6, c7] \<Rightarrow> parse_peer_fields L c0 c1 c2 c3 c4 c5 c6 c7
      | _ \<Rightarrow> Err wrong_len)"

definition network_stats_from_str :: "libs \<Rightarrow> string \<Rightarrow> network_stats res" where
  "network_stats_from_str L output =
     (case lines output of
        [] \<Rightarrow> Err (Msg ''Missing network line'')
      | network_line # peer_lines \<Rightarrow>
          (case split_on TAB network_line of
             [c0, c1, c2, c3] \<Rightarrow>
               bind_res (privkey_from_str L c0) (\<lambda>private_key.
               bind_res (pubkey_from_str L c1) (\<lambda>public_key.
               bind_res (parse_word c2) (\<lambda>listen_port.
               bind_res (if c3 = ''off'' then Ok None
                         else bind_res (parse_word c3) (\<lambda>m. Ok (Some m))) (\<lambda>fwmark.
               bind_res (collect_res (peer_stats_from_str L) peer_lines) (\<lambda>peers.
               Ok \<lparr>nst_private_key = private_key, nst_public_key = public_key,
                   nst_listen_port = listen_port, nst_fwmark = fwmark, nst_peers = peers\<rparr>)))))
           | _ \<Rightarrow> Err wrong_len))"

definition peer_stats_transfer :: "peer_stats \<Rightarrow> usize \<times> usize" where
  "peer_stats_transfer self = (pst_transfer_rx self, pst_transfer_tx self)"

end
