(* ===== verification/Gateway.thy ===== *)
theory Gateway
  imports Types
begin

text \<open>
  \<^verbatim>\<open>src/gateway.rs\<close>: bringing the system into a given state. The crate
  \<^verbatim>\<open>fractal_networking_wrappers\<close> (which runs \<^verbatim>\<open>ip\<close>, \<^verbatim>\<open>wg\<close>, \<^verbatim>\<open>iptables\<close> and \<^verbatim>\<open>nginx\<close>), the
  file system and the template engine are the operations of the record \<open>env\<close>, parameters over
  an arbitrary system state \<open>'s\<close>. Every function below makes the calls of its source, in order,
  and stops at the first error.
\<close>

section \<open>The environment\<close>

text \<open>The command-line options (\<^verbatim>\<open>src/lib.rs\<close>); the watchdog interval is in nanoseconds.\<close>

record options =
  opt_token :: string
  opt_watchdog :: nat
  opt_custom_forwarding :: "(url \<times> socket_addr) list"
  opt_manager :: url
  opt_identity :: string

text \<open>What the code reads of \<^verbatim>\<open>interface_show\<close>: the \<open>mtu\<close> field and the method \<open>is_down\<close>.\<close>

record interface_info =
  info_mtu :: "usize option"
  info_is_down :: bool

record 's env =
  lib :: libs
  prof :: profile
  opts :: options
  render_iptables :: "PortConfig \<Rightarrow> string res"
  render_nginx :: "forwarding \<Rightarrow> string res"
  render_sites :: "forwarding \<Rightarrow> string res"
  netns_list :: "('s, netns_item list) io"
  netns_exists :: "string \<Rightarrow> ('s, bool) io"
  netns_add :: "string \<Rightarrow> ('s, unit) io"
  netns_del :: "string \<Rightarrow> ('s, unit) io"
  netns_write_file :: "string \<Rightarrow> string \<Rightarrow> string \<Rightarrow> ('s, unit) io"
  bridge_exists :: "string option \<Rightarrow> string \<Rightarrow> ('s, bool) io"
  bridge_add :: "string option \<Rightarrow> string \<Rightarrow> ('s, unit) io"
  wireguard_exists :: "string \<Rightarrow> string \<Rightarrow> ('s, bool) io"
  wireguard_create :: "string option \<Rightarrow> string \<Rightarrow> ('s, unit) io"
  wireguard_syncconf :: "string \<Rightarrow> string \<Rightarrow> ('s, unit) io"
  interface_show :: "string option \<Rightarrow> string \<Rightarrow> ('s, interface_info) io"
  interface_mtu :: "string option \<Rightarrow> string \<Rightarrow> usize \<Rightarrow> ('s, unit) io"
  interface_up :: "string option \<Rightarrow> string \<Rightarrow> ('s, unit) io"
  addr_list :: "string option \<Rightarrow> string \<Rightarrow> ('s, ip_net list) io"
  addr_add :: "string option \<Rightarrow> string \<Rightarrow> ip_net \<Rightarrow> ('s, unit) io"
  veth_exists :: "string \<Rightarrow> string \<Rightarrow> ('s, bool) io"
  veth_add :: "string \<Rightarrow> string \<Rightarrow> string \<Rightarrow> ('s, unit) io"
  link_get_master :: "string option \<Rightarrow> string \<Rightarrow> ('s, string option) io"
  link_set_master :: "string option \<Rightarrow> string \<Rightarrow> string \<Rightarrow> ('s, unit) io"
  iptables_save :: "string option \<Rightarrow> ('s, string) io"
  iptables_restore :: "string option \<Rightarrow> string \<Rightarrow> ('s, unit) io"
  nginx_reload :: "('s, unit) io"
  is_file :: "string \<Rightarrow> ('s, bool) io"
  fs_write :: "string \<Rightarrow> string \<Rightarrow> ('s, unit) io"

definition BRIDGE_INTERFACE :: string where "BRIDGE_INTERFACE = ''ensbr0''"

definition NGINX_MODULE_PATH :: string where
  "NGINX_MODULE_PATH = ''/etc/nginx/modules-enabled/gateway.conf''"

definition NGINX_SITE_PATH :: string where
  "NGINX_SITE_PATH = ''/etc/nginx/sites-enabled/gateway.conf''"

text \<open>The regular expression of the packet counters: two numbers in brackets at the line's end.\<close>

definition IPTABLES_PACKET_COUNTER_REGEX :: string where
  "IPTABLES_PACKET_COUNTER_REGEX =
     [CHR 0x5C] @ ''['' @ [CHR 0x5C] @ ''d+:'' @ [CHR 0x5C] @ ''d+'' @ [CHR 0x5C] @ '']$''"

section \<open>Interfaces and addresses\<close>

definition apply_addr :: "'s env \<Rightarrow> string option \<Rightarrow> string \<Rightarrow> ip_net list \<Rightarrow> ('s, unit) io" where
  "apply_addr E netns interface target =
     bind_io (addr_list E netns interface) (\<lambda>current.
     for_io target (\<lambda>addr.
       when_io (addr \<notin> set current) (addr_add E netns interface addr)))"

definition apply_interface_up :: "'s env \<Rightarrow> string option \<Rightarrow> string \<Rightarrow> ('s, unit) io" where
  "apply_interface_up E netns interface =
     bind_io (interface_show E netns interface) (\<lambda>status.
     when_io (info_is_down status) (interface_up E netns interface))"

definition apply_link_master :: "'s env \<Rightarrow> string option \<Rightarrow> string \<Rightarrow> string \<Rightarrow> ('s, unit) io" where
  "apply_link_master E netns interface master =
     bind_io (link_get_master E netns interface) (\<lambda>current.
     when_io (current = None \<or> current \<noteq> Some master)
       (context_io ''Setting master of interface'' (link_set_master E netns interface master)))"

definition apply_bridge :: "'s env \<Rightarrow> string \<Rightarrow> ip_net list \<Rightarrow> ('s, unit) io" where
  "apply_bridge E unused_name addr =
     then_io (bind_io (bridge_exists E None BRIDGE_INTERFACE) (\<lambda>exists.
       when_io (\<not> exists) (bridge_add E None BRIDGE_INTERFACE)))
     (then_io (context_io ''Setting up bridge interface'' (apply_addr E None BRIDGE_INTERFACE addr))
     (context_io ''Bringing bridge interface up'' (apply_interface_up E None BRIDGE_INTERFACE)))"

section \<open>One network\<close>

definition apply_netns :: "'s env \<Rightarrow> network_state \<Rightarrow> ('s, unit) io" where
  "apply_netns E network =
     (let netns = netns_name network in
      bind_io (netns_exists E netns) (\<lambda>exists.
      when_io (\<not> exists) (netns_add E netns)))"

definition apply_wireguard :: "'s env \<Rightarrow> network_state \<Rightarrow> ('s, unit) io" where
  "apply_wireguard E network =
     (let netns = netns_name network; wgif = wgif_name network in
      then_io (bind_io (wireguard_exists E netns wgif) (\<lambda>exists.
        when_io (\<not> exists) (wireguard_create E (Some netns) wgif)))
      (bind_io (interface_show E (Some netns) wgif) (\<lambda>show_info.
      bind_io (lift_res (ok_or (info_mtu show_info) (Msg ''Missing MTU for WireGuard network''))) (\<lambda>mtu.
      then_io (when_io (mtu \<noteq> ns_mtu network)
        (interface_mtu E (Some netns) wgif (ns_mtu network)))
      (then_io (context_io ''Setting wireguard interface UP'' (apply_interface_up E (Some netns) wgif))
      (then_io (netns_write_file E netns (''wireguard/'' @ wgif @ ''.conf'')
        (network_to_config (lib E) network))
      (then_io (context_io ''Applying wireguard interface addresses''
        (apply_addr E (Some netns) wgif (ns_address network)))
      (wireguard_syncconf E netns wgif))))))))"

definition apply_veth :: "'s env \<Rightarrow> network_state \<Rightarrow> ('s, unit) io" where
  "apply_veth E network =
     (let netns = netns_name network; veth = veth_name network in
      then_io (bind_io (veth_exists E netns veth) (\<lambda>exists.
        when_io (\<not> exists) (veth_add E netns veth veth)))
      (bind_io (lift_res (veth_ipv4net (lib E) network)) (\<lambda>addr.
      then_io (context_io ''Applying veth addr'' (apply_addr E (Some netns) veth [IpNetV4 addr]))
      (then_io (context_io ''Setting veth master'' (apply_link_master E None veth BRIDGE_INTERFACE))
      (then_io (context_io ''Making inner veth interface UP'' (apply_interface_up E (Some netns) veth))
      (context_io ''Marking outer veth interface UP'' (apply_interface_up E None veth)))))))"

definition clean_iptables :: "libs \<Rightarrow> string \<Rightarrow> string" where
  "clean_iptables L input =
     join [NL]
       (map (\<lambda>line. regex_replace L IPTABLES_PACKET_COUNTER_REGEX line ''[0:0]'')
         (filter (\<lambda>line. line \<noteq> [])
           (filter (\<lambda>line. take 1 line \<noteq> ''#'') (lines input)))) @ [NL]"

definition apply_forwarding :: "'s env \<Rightarrow> network_state \<Rightarrow> ('s, unit) io" where
  "apply_forwarding E network =
     (let netns = netns_name network in
      bind_io (lift_res (port_config (prof E) network)) (\<lambda>config.
      bind_io (lift_res (render_iptables E config)) (\<lambda>savefile.
      let savefile = clean_iptables (lib E) savefile in
      bind_io (iptables_save E (Some netns)) (\<lambda>current.
      let current = clean_iptables (lib E) current in
      when_io (savefile \<noteq> current) (iptables_restore E (Some netns) savefile)))))"

definition apply_network :: "'s env \<Rightarrow> network_state \<Rightarrow> ('s, unit) io" where
  "apply_network E network =
     then_io (apply_netns E network)
     (then_io (apply_wireguard E network)
     (then_io (apply_veth E network)
     (apply_forwarding E network)))"

section \<open>NGINX\<close>

definition build_forwarding ::
  "libs \<Rightarrow> profile \<Rightarrow> network_state list \<Rightarrow> (url \<times> socket_addr) list \<Rightarrow> forwarding res" where
  "build_forwarding L p networks custom =
     bind_res (fold_res (forwarding_add L p) forwarding_new networks) (\<lambda>forwarding.
     fold_res (\<lambda>f (url, socket). add_custom L f url socket) forwarding custom)"

definition apply_nginx :: "'s env \<Rightarrow> network_state list \<Rightarrow> ('s, unit) io" where
  "apply_nginx E networks =
     bind_io (lift_res (build_forwarding (lib E) (prof E) networks (opt_custom_forwarding (opts E))))
       (\<lambda>forwarding.
     bind_io (lift_res (render_nginx E forwarding)) (\<lambda>config.
     then_io (fs_write E NGINX_MODULE_PATH config)
     (bind_io (lift_res (render_sites E forwarding)) (\<lambda>config.
     then_io (fs_write E NGINX_SITE_PATH config)
     (nginx_reload E)))))"

definition startup :: "'s env \<Rightarrow> ('s, unit) io" where
  "startup E =
     bind_io (is_file E NGINX_MODULE_PATH) (\<lambda>present.
     when_io (\<not> present) (apply_nginx E []))"

section \<open>Whole configurations\<close>

text \<open>
  The state behind \<open>global.lock()\<close> is the stored configuration; the mutex makes the body of
  \<open>apply\<close> and \<open>apply_partial\<close> exclusive, so it is a part of the state they run on.
\<close>

record 's gateway =
  gw_config :: gateway_config
  gw_sys :: 's

definition on_sys :: "('s, 'a) io \<Rightarrow> ('s gateway, 'a) io" where
  "on_sys m = zoom gw_sys (\<lambda>s g. g\<lparr>gw_sys := s\<rparr>) m"

definition update_config :: "(gateway_config \<Rightarrow> gateway_config) \<Rightarrow> ('s gateway, unit) io" where
  "update_config f = (\<lambda>g. (Ok (), g\<lparr>gw_config := f (gw_config g)\<rparr>))"

text \<open>The networks of a configuration, each with the port it is stored under.\<close>

definition networks_of :: "gateway_config \<Rightarrow> network_state list" where
  "networks_of config = map (\<lambda>(port, state). state\<lparr>ns_listen_port := port\<rparr>) (bt_iter config)"

text \<open>The namespaces that exist but are not expected, in the hash set's iteration order.\<close>

definition surplus_netns :: "libs \<Rightarrow> string list \<Rightarrow> string list \<Rightarrow> string list" where
  "surplus_netns L existing expected = filter (\<lambda>ns. ns \<notin> set expected) (hash_iter L existing)"

definition apply_system :: "'s env \<Rightarrow> network_state list \<Rightarrow> ('s, unit) io" where
  "apply_system E state =
     bind_io (lift_res (BRIDGE_NET (lib E))) (\<lambda>bridge.
     then_io (context_io ''Creating bridge interface''
       (apply_bridge E BRIDGE_INTERFACE [IpNetV4 bridge]))
     (bind_io (netns_list E) (\<lambda>items.
     let netns_existing = map netns_item_name items;
         netns_expected = map netns_name state
     in then_io (for_io (surplus_netns (lib E) netns_existing netns_expected) (\<lambda>netns.
          when_io (starts_with NETNS_PREFIX netns)
            (context_io ''Removing surplus network namespace'' (netns_del E netns))))
        (then_io (for_io state (apply_network E))
        (context_io ''Applying nginx configuration'' (apply_nginx E state))))))"

definition gateway_apply :: "'s env \<Rightarrow> gateway_config \<Rightarrow> ('s gateway, unit) io" where
  "gateway_apply E config =
     then_io (update_config (\<lambda>_. config))
     (on_sys (apply_system E (networks_of config)))"

definition apply_partial_entry ::
  "'s env \<Rightarrow> string list \<Rightarrow> u16 \<times> network_state option \<Rightarrow> ('s gateway, unit) io" where
  "apply_partial_entry E existing entry =
     (case entry of
        (port, None) \<Rightarrow>
          then_io (update_config (bt_remove port))
          (let netns = NETNS_PREFIX @ word_to_dec port in
           when_io (netns \<in> set existing) (on_sys (netns_del E netns)))
      | (port, Some network) \<Rightarrow>
          then_io (on_sys (apply_network E network))
          (update_config (bt_insert port network)))"

definition apply_partial :: "'s env \<Rightarrow> gateway_config_partial \<Rightarrow> ('s gateway, unit) io" where
  "apply_partial E config =
     bind_io (lift_res (BRIDGE_NET (lib E))) (\<lambda>bridge.
     then_io (on_sys (context_io ''Creating bridge interface''
       (apply_bridge E BRIDGE_INTERFACE [IpNetV4 bridge])))
     (bind_io (on_sys (netns_list E)) (\<lambda>items.
     then_io (for_io (bt_iter config) (apply_partial_entry E (map netns_item_name items)))
     (bind_io get_st (\<lambda>g.
     on_sys (context_io ''Applying nginx configuration''
       (apply_nginx E (bt_values (gw_config g)))))))))"

end
