(* ===== verification/Integration.thy ===== *)
theory Integration
  imports Gateway
begin

text \<open>
  \<^verbatim>\<open>integration/src/main.rs\<close>: the integration test that plays the manager. Modelled are the generators
  of configurations and partial configurations, sending one and waiting for its answer, the check
  that a configuration's peers can (or can no longer) reach their network, and the test run itself. The random generator, key
  generation, the sockets, the JSON codec and running a command are the operations of the record \<open>test_env\<close>;
  the namespaces and interfaces are driven through the same wrappers as in the gateway (\<open>env\<close>).
\<close>

section \<open>The environment\<close>

definition PORT_RANGE :: "u16 \<times> u16" where "PORT_RANGE = (50000, 60000)"
definition NETWORK_MTU :: usize where "NETWORK_MTU = 1420"

definition IP_PATH :: string where "IP_PATH = ''ip''"
definition PING_PATH :: string where "PING_PATH = ''ping''"

text \<open>The command-line options; a host name is looked up when the program starts.\<close>

record test_options =
  opt_listen :: socket_addr
  opt_gateway :: string

text \<open>What the code reads of a finished command: its status, and its \<open>Debug\<close> text.\<close>

record cmd_output =
  out_success :: bool
  out_debug :: string

text \<open>Ranges are given by their two ends, the upper one excluded.\<close>

record 't test_env =
  gen_range_u16 :: "u16 \<times> u16 \<Rightarrow> ('t, u16) io"
  gen_range_usize :: "nat \<times> nat \<Rightarrow> ('t, nat) io"
  choose_multiple :: "u16 list \<Rightarrow> nat \<Rightarrow> ('t, u16 list) io"
  generate_key :: "('t, privkey) io"
  privkey_pubkey :: "privkey \<Rightarrow> pubkey"
  pubkey_to_hex :: "pubkey \<Rightarrow> string"
  ipv6_saturating_add :: "u128 \<Rightarrow> u128 \<Rightarrow> u128"
  ipnet_new :: "ip_addr \<Rightarrow> u8 \<Rightarrow> ip_net option"
  test_send :: "string \<Rightarrow> ('t, unit) io"
  request_to_string :: "gateway_request \<Rightarrow> string res"
  response_from_str :: "string \<Rightarrow> gateway_response res"
  run_command :: "string \<Rightarrow> string list \<Rightarrow> ('t, cmd_output) io"
  test_sleep :: "nat \<Rightarrow> ('t, unit) io"
  lookup_host :: "string \<Rightarrow> ('t, socket_addr list) io"
  tcp_bind :: "socket_addr \<Rightarrow> ('t, unit) io"
  tcp_accept :: "('t, unit) io"
  accept_async :: "('t, unit) io"

text \<open>
  The test's state: the private keys of the peers generated so far, the messages the socket has yet to
  give until it ends or fails, and the rest of the world.
\<close>

datatype test_msg = MsgText string | MsgOther

record 't test_state =
  peer_keys :: "(pubkey, privkey) btreemap"
  inbox :: "test_msg list"
  test_sys :: 't

definition on_test :: "('t, 'a) io \<Rightarrow> ('t test_state, 'a) io" where
  "on_test m = zoom test_sys (\<lambda>s t. t\<lparr>test_sys := s\<rparr>) m"

text \<open>\<open>Result::unwrap\<close> panics on an error.\<close>

definition unwrap_res :: "'a res \<Rightarrow> 'a res" where
  "unwrap_res r = (case r of Ok x \<Rightarrow> Ok x | _ \<Rightarrow> Panic)"

section \<open>Generating configurations\<close>

definition peer_address :: "libs \<Rightarrow> profile \<Rightarrow> 't test_env \<Rightarrow> ip_net \<Rightarrow> nat \<Rightarrow> ip_net res" where
  "peer_address L p T address n =
     bind_res (case ip_net_addr address of
         IpV4 ipv4 \<Rightarrow> bind_res (add_ck p 1 (of_nat n)) (\<lambda>k. Ok (IpV4 (ipv4_saturating_add L ipv4 k)))
       | IpV6 ipv6 \<Rightarrow> bind_res (add_ck p 1 (of_nat n)) (\<lambda>k. Ok (IpV6 (ipv6_saturating_add T ipv6 k))))
     (\<lambda>addr. unwrap (ipnet_new T addr 32))"

definition generate_peer ::
  "libs \<Rightarrow> profile \<Rightarrow> 't test_env \<Rightarrow> ip_net \<Rightarrow> nat \<Rightarrow> network_state \<Rightarrow> ('t test_state, network_state) io" where
  "generate_peer L p T address n network =
     bind_io (lift_res (peer_address L p T address n)) (\<lambda>addr.
     bind_io (on_test (generate_key T)) (\<lambda>privkey.
     let pubkey = privkey_pubkey T privkey in
     then_io (\<lambda>t. (Ok (), t\<lparr>peer_keys := bt_insert pubkey privkey (peer_keys t)\<rparr>))
     (ret (network\<lparr>ns_peers := bt_insert pubkey
       \<lparr>ps_preshared_key = None, ps_allowed_ips = [addr], ps_endpoint = None\<rparr> (ns_peers network)\<rparr>))))"

fun generate_peers ::
  "libs \<Rightarrow> profile \<Rightarrow> 't test_env \<Rightarrow> ip_net \<Rightarrow> nat list \<Rightarrow> network_state \<Rightarrow> ('t test_state, network_state) io" where
  "generate_peers L p T address [] network = ret network"
| "generate_peers L p T address (n # ns) network =
     bind_io (generate_peer L p T address n network) (generate_peers L p T address ns)"

definition generate_network ::
  "libs \<Rightarrow> profile \<Rightarrow> 't test_env \<Rightarrow> nat \<times> nat \<Rightarrow> gateway_config \<Rightarrow> ('t test_state, gateway_config) io" where
  "generate_network L p T rng config =
     bind_io (on_test (gen_range_u16 T PORT_RANGE)) (\<lambda>port.
     bind_io (on_test (gen_range_usize T rng)) (\<lambda>peers.
     bind_io (lift_res (unwrap_res (ipnet_from_str L ''10.0.0.1/8''))) (\<lambda>address.
     bind_io (on_test (generate_key T)) (\<lambda>privkey.
     bind_io (lift_res (unwrap_res (ipnet_from_str L ''10.0.0.1/8''))) (\<lambda>own.
     bind_io (generate_peers L p T address [0..<peers]
       \<lparr>ns_private_key = privkey, ns_listen_port = port, ns_mtu = NETWORK_MTU, ns_address = [own],
        ns_peers = bt_empty, ns_proxy = bt_empty\<rparr>) (\<lambda>network.
     ret (bt_insert port network config)))))))"

fun generate_networks ::
  "libs \<Rightarrow> profile \<Rightarrow> 't test_env \<Rightarrow> nat \<times> nat \<Rightarrow> nat \<Rightarrow> gateway_config \<Rightarrow> ('t test_state, gateway_config) io" where
  "generate_networks L p T rng 0 config = ret config"
| "generate_networks L p T rng (Suc k) config =
     bind_io (generate_network L p T rng config) (generate_networks L p T rng k)"

definition generate_config ::
  "libs \<Rightarrow> profile \<Rightarrow> 't test_env \<Rightarrow> nat \<Rightarrow> nat \<times> nat \<Rightarrow> ('t test_state, gateway_config) io" where
  "generate_config L p T amount rng = generate_networks L p T rng amount bt_empty"

definition generate_partial_config ::
  "libs \<Rightarrow> profile \<Rightarrow> 't test_env \<Rightarrow> nat \<Rightarrow> nat \<Rightarrow> nat \<times> nat \<Rightarrow> u16 list \<Rightarrow> ('t test_state, gateway_config_partial) io" where
  "generate_partial_config L p T add remove rng existing =
     bind_io (generate_config L p T add rng) (\<lambda>config.
     let partial = foldl (\<lambda>c e. bt_insert (fst e) (Some (snd e)) c) bt_empty (bt_iter config) in
     bind_io (on_test (choose_multiple T existing remove)) (\<lambda>ports.
     ret (foldl (\<lambda>c port. bt_insert port None c) partial ports)))"

section \<open>Applying a configuration\<close>

text \<open>The first apply response among the messages, and the messages after it.\<close>

fun await_apply :: "'t test_env \<Rightarrow> test_msg list \<Rightarrow> (string + unit) res \<times> test_msg list" where
  "await_apply T [] = (Err (Msg ''Missing apply config response''), [])"
| "await_apply T (MsgOther # ms) = await_apply T ms"
| "await_apply T (MsgText v # ms) = (case response_from_str T v of
      Ok (RespApply status) \<Rightarrow> (Ok status, ms)
    | Ok _ \<Rightarrow> await_apply T ms
    | Err e \<Rightarrow> (Err e, ms)
    | Panic \<Rightarrow> (Panic, ms))"

definition receive_status :: "'t test_env \<Rightarrow> ('t test_state, string + unit) io" where
  "receive_status T t = (case await_apply T (inbox t) of (r, ms) \<Rightarrow> (r, t\<lparr>inbox := ms\<rparr>))"

definition apply_config :: "'t test_env \<Rightarrow> gateway_config \<Rightarrow> ('t test_state, string + unit) io" where
  "apply_config T config =
     bind_io (lift_res (request_to_string T (ReqApply config))) (\<lambda>m.
     then_io (on_test (test_send T m)) (receive_status T))"

definition apply_partial_config ::
  "'t test_env \<Rightarrow> gateway_config_partial \<Rightarrow> ('t test_state, string + unit) io" where
  "apply_partial_config T config =
     bind_io (lift_res (request_to_string T (ReqApplyPartial config))) (\<lambda>m.
     then_io (on_test (test_send T m)) (receive_status T))"

section \<open>Checking connectivity\<close>

definition ping_args :: "libs \<Rightarrow> string \<Rightarrow> ip_addr \<Rightarrow> string list" where
  "ping_args L netns host = [''netns'', ''exec'', netns, PING_PATH, ''-f'', ''-c'', ''4'', ''-W'', ''0.1'',
     ip_to_string L host]"

definition ping_host :: "libs \<Rightarrow> 't test_env \<Rightarrow> string \<Rightarrow> ip_addr \<Rightarrow> ('t, unit) io" where
  "ping_host L T netns host =
     bind_io (run_command T IP_PATH (ping_args L netns host)) (\<lambda>output.
     if out_success output then ret ()
     else fail (Msg (''Error pinging '' @ ip_to_string L host @ '' in '' @ netns @ '': '' @ out_debug output)))"

definition index0 :: "'a list \<Rightarrow> 'a res" where
  "index0 xs = unwrap (case xs of [] \<Rightarrow> None | x # _ \<Rightarrow> Some x)"

definition test_netns :: "'t test_env \<Rightarrow> u16 \<Rightarrow> pubkey \<Rightarrow> string" where
  "test_netns T port pubkey = ''network-'' @ word_to_dec port @ ''-'' @ pubkey_to_hex T pubkey"

definition test_conf :: "libs \<Rightarrow> 't test_env \<Rightarrow> ip_addr \<Rightarrow> u16 \<Rightarrow> network_state \<Rightarrow> privkey \<Rightarrow> ip_net \<Rightarrow> string" where
  "test_conf L T gateway port network key address =
     join [NL] [''[Interface]'',
       ''PrivateKey = '' @ privkey_to_string L key,
       [],
       ''[Peer]'',
       ''PublicKey = '' @ pubkey_to_string L (privkey_pubkey T (ns_private_key network)),
       ''Endpoint = '' @ ip_to_string L gateway @ '':'' @ word_to_dec port,
       ''AllowedIPs = '' @ ipnet_to_string L address,
       ''PersistentKeepalive = 25'']"

text \<open>Setting up a namespace for one peer of a network.\<close>

definition setup_peer :: "'t env \<Rightarrow> 't test_env \<Rightarrow> ip_addr \<Rightarrow> (pubkey, privkey) btreemap \<Rightarrow>
    u16 \<Rightarrow> network_state \<Rightarrow> pubkey \<Rightarrow> peer_state \<Rightarrow> ('t, unit) io" where
  "setup_peer E T gateway keys port network pubkey peer =
     (let netns = test_netns T port pubkey in
      then_io (netns_add E netns)
      (then_io (wireguard_create E (Some netns) ''wg0'')
      (then_io (interface_up E (Some netns) ''wg0'')
      (bind_io (lift_res (index0 (ps_allowed_ips peer))) (\<lambda>first.
      bind_io (lift_res (case first of
          IpNetV4 ipv4net \<Rightarrow> bind_res (ok_or (ipv4net_new (lib E) (net4_addr ipv4net) 8)
            (Msg ''invalid prefix length'')) (\<lambda>n. Ok (IpNetV4 n))
        | _ \<Rightarrow> Panic)) (\<lambda>addr.
      then_io (addr_add E (Some netns) ''wg0'' addr)
      (bind_io (lift_res (unwrap (bt_get keys pubkey))) (\<lambda>key.
      bind_io (lift_res (index0 (ns_address network))) (\<lambda>address.
      then_io (netns_write_file E netns ''wireguard/wg0.conf''
        (test_conf (lib E) T gateway port network key address))
      (wireguard_syncconf E netns ''wg0''))))))))))"

definition verify_peer :: "'t env \<Rightarrow> 't test_env \<Rightarrow> ip_addr \<Rightarrow> (pubkey, privkey) btreemap \<Rightarrow>
    u16 \<Rightarrow> network_state \<Rightarrow> pubkey \<times> peer_state \<Rightarrow> ('t, unit) io" where
  "verify_peer E T gateway keys port network e =
     then_io (setup_peer E T gateway keys port network (fst e) (snd e))
     (bind_io (lift_res (index0 (ns_address network))) (\<lambda>address.
     then_io (ping_host (lib E) T (test_netns T port (fst e)) (ip_net_addr address))
     (netns_del E (test_netns T port (fst e)))))"

definition verify_config ::
  "'t env \<Rightarrow> 't test_env \<Rightarrow> ip_addr \<Rightarrow> gateway_config \<Rightarrow> (pubkey, privkey) btreemap \<Rightarrow> ('t, unit) io" where
  "verify_config E T gateway config keys =
     for_io (bt_iter config) (\<lambda>(port, network).
       for_io (bt_iter (ns_peers network)) (verify_peer E T gateway keys port network))"

text \<open>The opposite check: the ping must fail.\<close>

definition verify_old_peer :: "'t env \<Rightarrow> 't test_env \<Rightarrow> ip_addr \<Rightarrow> (pubkey, privkey) btreemap \<Rightarrow>
    u16 \<Rightarrow> network_state \<Rightarrow> pubkey \<times> peer_state \<Rightarrow> ('t, unit) io" where
  "verify_old_peer E T gateway keys port network e =
     then_io (setup_peer E T gateway keys port network (fst e) (snd e))
     (bind_io (lift_res (index0 (ns_address network))) (\<lambda>address.
     (\<lambda>s. case ping_host (lib E) T (test_netns T port (fst e)) (ip_net_addr address) s of
        (Ok _, s') \<Rightarrow> (Err (Msg ''Network is reachable''), s')
      | (Err _, s') \<Rightarrow> netns_del E (test_netns T port (fst e)) s'
      | (Panic, s') \<Rightarrow> (Panic, s'))))"

definition verify_old_config ::
  "'t env \<Rightarrow> 't test_env \<Rightarrow> ip_addr \<Rightarrow> gateway_config \<Rightarrow> (pubkey, privkey) btreemap \<Rightarrow> ('t, unit) io" where
  "verify_old_config E T gateway config keys =
     for_io (bt_iter config) (\<lambda>(port, network).
       for_io (bt_iter (ns_peers network)) (verify_old_peer E T gateway keys port network))"

section \<open>The test run\<close>

text \<open>\<open>assert!(response.is_ok())\<close>, and a loop of a fixed number of rounds.\<close>

definition assert_ok :: "string + unit \<Rightarrow> unit res" where
  "assert_ok response = (case response of Inr _ \<Rightarrow> Ok () | Inl _ \<Rightarrow> Panic)"

fun rounds :: "nat \<Rightarrow> ('a \<Rightarrow> ('s, 'a) io) \<Rightarrow> 'a \<Rightarrow> ('s, 'a) io" where
  "rounds 0 body x = ret x"
| "rounds (Suc k) body x = bind_io (body x) (rounds k body)"

definition verify_with ::
  "((pubkey, privkey) btreemap \<Rightarrow> ('t, unit) io) \<Rightarrow> ('t test_state, unit) io" where
  "verify_with check = (\<lambda>t. on_test (check (peer_keys t)) t)"

definition apply_ok :: "('t test_state, string + unit) io \<Rightarrow> ('t test_state, unit) io" where
  "apply_ok m = bind_io m (\<lambda>response. lift_res (assert_ok response))"

definition round_config ::
  "'t env \<Rightarrow> 't test_env \<Rightarrow> ip_addr \<Rightarrow> gateway_config \<Rightarrow> ('t test_state, gateway_config) io" where
  "round_config E T gateway _ =
     bind_io (generate_config (lib E) (prof E) T 10 (0, 3)) (\<lambda>config.
     then_io (apply_ok (apply_config T config))
     (then_io (verify_with (verify_config E T gateway config)) (ret config)))"

definition round_old_config ::
  "'t env \<Rightarrow> 't test_env \<Rightarrow> ip_addr \<Rightarrow> gateway_config \<Rightarrow> ('t test_state, gateway_config) io" where
  "round_old_config E T gateway config =
     bind_io (generate_config (lib E) (prof E) T 10 (0, 3)) (\<lambda>new_config.
     then_io (apply_ok (apply_config T new_config))
     (then_io (on_test (test_sleep T 3))
     (then_io (verify_with (verify_old_config E T gateway config)) (ret new_config))))"

definition round_partial :: "'t env \<Rightarrow> 't test_env \<Rightarrow> ip_addr \<Rightarrow> nat \<Rightarrow> nat \<Rightarrow> (gateway_config \<Rightarrow> u16 list) \<Rightarrow>
    gateway_config \<Rightarrow> ('t test_state, gateway_config) io" where
  "round_partial E T gateway add remove existing config =
     bind_io (generate_partial_config (lib E) (prof E) T add remove (0, 3) (existing config)) (\<lambda>partial_config.
     let config' = config_apply_partial config partial_config in
     then_io (apply_ok (apply_partial_config T partial_config))
     (then_io (verify_with (verify_config E T gateway config')) (ret config')))"

definition run_tests :: "'t env \<Rightarrow> 't test_env \<Rightarrow> ip_addr \<Rightarrow> ('t test_state, unit) io" where
  "run_tests E T gateway =
     then_io (apply_ok (apply_config T bt_empty))
     (then_io (\<lambda>t. (Ok (), t\<lparr>peer_keys := bt_empty\<rparr>))
     (bind_io (rounds 3 (round_config E T gateway) bt_empty) (\<lambda>config.
     bind_io (rounds 3 (round_old_config E T gateway) config) (\<lambda>config.
     bind_io (rounds 3 (round_partial E T gateway 10 0 (\<lambda>_. [])) config) (\<lambda>config.
     bind_io (rounds 3 (round_partial E T gateway 0 10 (\<lambda>config. map fst (bt_iter config))) config) (\<lambda>_.
     apply_ok (apply_config T bt_empty)))))))"

text \<open>What \<^verbatim>\<open>main\<close> does once the gateway has connected: the outcome of the tests is the result; the
  shutdown request is sent in any case and its failure ignored.\<close>

definition test_session :: "'t env \<Rightarrow> 't test_env \<Rightarrow> ip_addr \<Rightarrow> ('t test_state, unit) io" where
  "test_session E T gateway t = (case run_tests E T gateway t of
      (Panic, t') \<Rightarrow> (Panic, t')
    | (result, t') \<Rightarrow> (case request_to_string T ReqShutdown of
        Ok m \<Rightarrow> (case on_test (test_send T m) t' of (Panic, t'') \<Rightarrow> (Panic, t'') | (_, t'') \<Rightarrow> (result, t''))
      | Err e \<Rightarrow> (Err e, t')
      | Panic \<Rightarrow> (Panic, t')))"

text \<open>\<^verbatim>\<open>main\<close>: the first address of the gateway's name is used, and one connection is served.\<close>

definition test_main :: "'t env \<Rightarrow> 't test_env \<Rightarrow> test_options \<Rightarrow> ('t test_state, unit) io" where
  "test_main E T options =
     bind_io (on_test (lookup_host T (opt_gateway options))) (\<lambda>addrs.
     bind_io (lift_res (index0 addrs)) (\<lambda>addr.
     then_io (on_test (tcp_bind T (opt_listen options)))
     (then_io (on_test (tcp_accept T))
     (then_io (on_test (accept_async T))
     (test_session E T (sock_ip addr))))))"

end
