(* ===== verification/Client_Props.thy ===== *)
theory Client_Props
  imports Client
begin

text \<open>
  Properties of the client crate: what merging a partial configuration does to every port, and
  the correctness of the traffic accounting against the log of samples it was fed.
\<close>

section \<open>Merging a partial configuration\<close>

definition overlay :: "('a \<Rightarrow> 'b option) \<Rightarrow> ('a \<Rightarrow> 'b option option) \<Rightarrow> 'a \<Rightarrow> 'b option" where
  "overlay c p k = (case p k of None \<Rightarrow> c k | Some v \<Rightarrow> v)"

lemma get_foldl_partial:
  assumes "distinct (map fst es)"
  shows "bt_get (foldl (\<lambda>c e. case snd e of None \<Rightarrow> bt_remove (fst e) c
                            | Some v \<Rightarrow> bt_insert (fst e) v c) c es) k
       = overlay (bt_get c) (map_of es) k"
  using assms
proof (induction es arbitrary: c)
  case (Cons e es)
  then have "map_of es (fst e) = None" by (simp add: map_of_eq_None_iff)
  with Cons show ?case by (auto simp: overlay_def split: option.splits)
qed (simp add: overlay_def)

lemma get_config_apply_partial [simp]:
  "bt_get (config_apply_partial c p) k = overlay (bt_get c) (bt_get p) k"
  unfolding config_apply_partial_def
  using get_foldl_partial [OF bt.iter_distinct [of p], of c k] by (simp add: bt.iter_get overlay_def)

lemma config_apply_partial_idem:
  "config_apply_partial (config_apply_partial c p) p = config_apply_partial c p"
  by (rule bt.get_ext) (simp add: overlay_def split: option.splits)

section \<open>Traffic sums\<close>

definition traffic_sum :: "traffic list \<Rightarrow> traffic" where
  "traffic_sum ts = \<lparr>rx = sum_list (map rx ts), tx = sum_list (map tx ts)\<rparr>"

lemma traffic_sum_Nil [simp]: "traffic_sum [] = traffic_default"
  by (simp add: traffic_sum_def traffic_default_def)

lemma traffic_add_assign_Ok:
  "traffic_add_assign p a b = Ok c \<Longrightarrow> c = \<lparr>rx = rx a + rx b, tx = tx a + tx b\<rparr>"
  by (cases a) (auto simp: traffic_add_assign_def bind_res_Ok_iff dest!: add_ck_Ok)

lemma traffic_add_assign_sum:
  "traffic_add_assign p (traffic_sum ts) t = Ok c \<Longrightarrow> c = traffic_sum (ts @ [t])"
  by (drule traffic_add_assign_Ok) (simp add: traffic_sum_def)

lemma traffic_add_assign_Release [simp]:
  "traffic_add_assign Release a b = Ok \<lparr>rx = rx a + rx b, tx = tx a + tx b\<rparr>"
  by (cases a) (simp add: traffic_add_assign_def)

lemma traffic_add_assign_no_overflow:
  "unat (rx a) + unat (rx b) < 2 ^ 64 \<Longrightarrow> unat (tx a) + unat (tx b) < 2 ^ 64 \<Longrightarrow>
   traffic_add_assign p a b = Ok \<lparr>rx = rx a + rx b, tx = tx a + tx b\<rparr>"
  by (cases a) (simp add: traffic_add_assign_def add_ck_no_overflow)

section \<open>The accounting refines the log of samples\<close>

text \<open>
  The log keeps every sample in order. \<open>proj k log\<close> are the samples under key \<open>k\<close>. A device
  record is right for its samples when its total is their sum and each timestamp has the last
  sample recorded for it; a network and the whole report are right when their totals are the
  sums of all their samples and they have exactly the children that were sampled, each right for
  its own samples.
\<close>

definition proj :: "'k \<Rightarrow> ('k \<times> 'a) list \<Rightarrow> 'a list" where
  "proj k log = map snd (filter (\<lambda>e. fst e = k) log)"

definition dev_ok :: "device_traffic \<Rightarrow> (usize \<times> traffic) list \<Rightarrow> bool" where
  "dev_ok dt log \<longleftrightarrow> dt_traffic dt = traffic_sum (map snd log)
     \<and> (\<forall>time. bt_get (dt_times dt) time = map_of (rev log) time)"

definition net_ok :: "network_traffic \<Rightarrow> (pubkey \<times> usize \<times> traffic) list \<Rightarrow> bool" where
  "net_ok nt log \<longleftrightarrow> nt_traffic nt = traffic_sum (map (snd \<circ> snd) log)
     \<and> (\<forall>d. case bt_get (nt_devices nt) d of
              None \<Rightarrow> proj d log = []
            | Some dt \<Rightarrow> proj d log \<noteq> [] \<and> dev_ok dt (proj d log))"

definition info_ok :: "traffic_info \<Rightarrow> (pubkey \<times> pubkey \<times> usize \<times> traffic) list \<Rightarrow> bool" where
  "info_ok ti log \<longleftrightarrow> ti_traffic ti = traffic_sum (map (snd \<circ> snd \<circ> snd) log)
     \<and> (\<forall>n. case bt_get (ti_networks ti) n of
              None \<Rightarrow> proj n log = []
            | Some nt \<Rightarrow> proj n log \<noteq> [] \<and> net_ok nt (proj n log))"

lemma proj_snoc [simp]: "proj k (log @ [(k', x)]) = (if k' = k then proj k log @ [x] else proj k log)"
  by (simp add: proj_def)

lemma proj_Nil [simp]: "proj k [] = []"
  by (simp add: proj_def)

lemma dev_ok_default: "dev_ok device_traffic_default []"
  by (simp add: dev_ok_def device_traffic_default_def)

lemma net_ok_default: "net_ok network_traffic_default []"
  by (simp add: net_ok_def network_traffic_default_def)

lemma info_ok_new: "info_ok (traffic_info_new start) []"
  by (simp add: info_ok_def traffic_info_new_def)

lemma dev_ok_add:
  assumes "dev_ok dt log" and "device_traffic_add p dt time t = Ok dt'"
  shows "dev_ok dt' (log @ [(time, t)])"
  using assms by (auto simp: dev_ok_def device_traffic_add_def bind_res_Ok_iff
      dest!: traffic_add_assign_sum)

lemma net_ok_add:
  assumes "net_ok nt log" and "network_traffic_add p nt d time t = Ok nt'"
  shows "net_ok nt' (log @ [(d, time, t)])"
proof -
  obtain total dt' where total: "traffic_add_assign p (nt_traffic nt) t = Ok total"
    and dt': "device_traffic_add p (bt_or (nt_devices nt) d device_traffic_default) time t = Ok dt'"
    and nt': "nt' = nt\<lparr>nt_traffic := total, nt_devices := bt_insert d dt' (nt_devices nt)\<rparr>"
    using assms(2) by (auto simp: network_traffic_add_def bind_res_Ok_iff)
  have "dev_ok (bt_or (nt_devices nt) d device_traffic_default) (proj d log)"
    using assms(1) dev_ok_default by (auto simp: net_ok_def bt_or_def split: option.splits dest: spec [of _ d])
  then have "dev_ok dt' (proj d log @ [(time, t)])" using dt' by (rule dev_ok_add)
  moreover have "total = traffic_sum (map (snd \<circ> snd) (log @ [(d, time, t)]))"
    using assms(1) total by (auto simp: net_ok_def dest!: traffic_add_assign_sum)
  ultimately show ?thesis using assms(1) by (simp add: net_ok_def nt' cong: option.case_cong)
qed

lemma info_ok_add:
  assumes "info_ok ti log" and "traffic_info_add p ti n d time t = Ok ti'"
  shows "info_ok ti' (log @ [(n, d, time, t)])"
proof -
  obtain total nt' where total: "traffic_add_assign p (ti_traffic ti) t = Ok total"
    and nt': "network_traffic_add p (bt_or (ti_networks ti) n network_traffic_default) d time t = Ok nt'"
    and ti': "ti' = ti\<lparr>ti_traffic := total, ti_stop_time := max (ti_stop_time ti) time,
        ti_networks := bt_insert n nt' (ti_networks ti)\<rparr>"
    using assms(2) by (auto simp: traffic_info_add_def bind_res_Ok_iff)
  have "net_ok (bt_or (ti_networks ti) n network_traffic_default) (proj n log)"
    using assms(1) net_ok_default by (auto simp: info_ok_def bt_or_def split: option.splits dest: spec [of _ n])
  then have "net_ok nt' (proj n log @ [(d, time, t)])" using nt' by (rule net_ok_add)
  moreover have "total = traffic_sum (map (snd \<circ> snd \<circ> snd) (log @ [(n, d, time, t)]))"
    using assms(1) total by (auto simp: info_ok_def dest!: traffic_add_assign_sum)
  ultimately show ?thesis using assms(1) by (simp add: info_ok_def ti' cong: option.case_cong)
qed

section \<open>A whole report\<close>

type_synonym sample = "pubkey \<times> pubkey \<times> usize \<times> traffic"

abbreviation sample_traffic :: "sample \<Rightarrow> traffic" where
  "sample_traffic \<equiv> snd \<circ> snd \<circ> snd"

fun add_samples :: "profile \<Rightarrow> traffic_info \<Rightarrow> sample list \<Rightarrow> traffic_info res" where
  "add_samples p ti [] = Ok ti"
| "add_samples p ti ((n, d, time, t) # log) =
     bind_res (traffic_info_add p ti n d time t) (\<lambda>ti'. add_samples p ti' log)"

lemma info_ok_add_samples:
  "info_ok ti log \<Longrightarrow> add_samples p ti log' = Ok ti' \<Longrightarrow> info_ok ti' (log @ log')"
proof (induction p ti log' arbitrary: log rule: add_samples.induct)
  case (2 p ti n d time t log')
  from "2.prems"(2) obtain ti1 where ti1: "traffic_info_add p ti n d time t = Ok ti1"
    and rest: "add_samples p ti1 log' = Ok ti'" by (auto simp: bind_res_Ok_iff)
  from "2.prems"(1) ti1 have "info_ok ti1 (log @ [(n, d, time, t)])" by (rule info_ok_add)
  from "2.IH" [OF ti1 this rest] show ?case by simp
qed simp

text \<open>Samples fit when both byte counters, added up without wrap-around, stay below \<open>2 ^ 64\<close>.\<close>

definition fits :: "traffic list \<Rightarrow> bool" where
  "fits ts \<longleftrightarrow> sum_list (map (unat \<circ> rx) ts) < 2 ^ 64 \<and> sum_list (map (unat \<circ> tx) ts) < 2 ^ 64"

lemma unat_sum_list:
  fixes ws :: "usize list"
  shows "sum_list (map unat ws) < 2 ^ 64 \<Longrightarrow> unat (sum_list ws) = sum_list (map unat ws)"
proof (induction ws)
  case (Cons w ws)
  then have "unat (sum_list ws) = sum_list (map unat ws)" by simp
  with Cons.prems show ?case by (simp add: unat_word_ariths)
qed simp

lemma unat_traffic_sum:
  assumes "fits ts"
  shows "unat (rx (traffic_sum ts)) = sum_list (map (unat \<circ> rx) ts)"
    and "unat (tx (traffic_sum ts)) = sum_list (map (unat \<circ> tx) ts)"
  using assms unat_sum_list [of "map rx ts"] unat_sum_list [of "map tx ts"]
  by (simp_all add: fits_def traffic_sum_def)

lemma fits_append: "fits (ts @ ts') \<Longrightarrow> fits ts"
  by (simp add: fits_def)

lemma sum_list_filter_le: "sum_list (map f (filter P xs)) \<le> sum_list (map (f :: 'a \<Rightarrow> nat) xs)"
  by (induction xs) auto

lemma fits_proj: "fits (map (g \<circ> snd) log) \<Longrightarrow> fits (map g (proj k log))"
  using sum_list_filter_le [of "\<lambda>e. unat (rx (g (snd e)))" "\<lambda>e. fst e = k" log]
    sum_list_filter_le [of "\<lambda>e. unat (tx (g (snd e)))" "\<lambda>e. fst e = k" log]
  by (simp add: fits_def proj_def comp_def)

lemma traffic_add_assign_fits:
  assumes "fits (ts @ [t])"
  shows "traffic_add_assign p (traffic_sum ts) t = Ok (traffic_sum (ts @ [t]))"
proof -
  note u = unat_traffic_sum [OF fits_append [OF assms]]
  have "traffic_add_assign p (traffic_sum ts) t =
      Ok \<lparr>rx = rx (traffic_sum ts) + rx t, tx = tx (traffic_sum ts) + tx t\<rparr>"
    using assms by (intro traffic_add_assign_no_overflow) (simp_all add: u, simp_all add: fits_def)
  then show ?thesis by (simp add: traffic_sum_def)
qed

lemma traffic_add_assign_Debug:
  assumes "fits ts" and "\<not> fits (ts @ [t])"
  shows "traffic_add_assign Debug (traffic_sum ts) t = Panic"
  using assms(2) unat_traffic_sum [OF assms(1)]
  by (auto simp: traffic_add_assign_def add_ck_def fits_def)

lemma traffic_info_add_fits:
  assumes ok: "info_ok ti log"
    and f: "fits (map sample_traffic (log @ [(n, d, time, t)]))"
  shows "\<exists>ti'. traffic_info_add p ti n d time t = Ok ti'"
proof -
  let ?nt = "bt_or (ti_networks ti) n network_traffic_default"
  let ?dt = "bt_or (nt_devices ?nt) d device_traffic_default"
  have net: "net_ok ?nt (proj n log)"
    using ok net_ok_default by (auto simp: info_ok_def bt_or_def split: option.splits dest: spec [of _ n])
  have dev: "dev_ok ?dt (proj d (proj n log))"
    using net dev_ok_default by (auto simp: net_ok_def bt_or_def split: option.splits dest: spec [of _ d])
  have fn: "fits (map (snd \<circ> snd) (proj n (log @ [(n, d, time, t)])))"
    using f by (rule_tac fits_proj) (simp add: comp_assoc)
  then have fd: "fits (map snd (proj d (proj n (log @ [(n, d, time, t)]))))"
    by (rule fits_proj)
  have "\<exists>total. traffic_add_assign p (ti_traffic ti) t = Ok total"
    using ok f traffic_add_assign_fits by (auto simp: info_ok_def)
  moreover have "\<exists>total. traffic_add_assign p (nt_traffic ?nt) t = Ok total"
    using net fn traffic_add_assign_fits by (auto simp: net_ok_def)
  moreover have "\<exists>total. traffic_add_assign p (dt_traffic ?dt) t = Ok total"
    using dev fd traffic_add_assign_fits by (auto simp: dev_ok_def)
  ultimately show ?thesis
    by (auto simp: traffic_info_add_def network_traffic_add_def device_traffic_add_def)
qed

lemma add_samples_Release: "\<exists>ti'. add_samples Release ti log = Ok ti'"
proof (induction Release ti log rule: add_samples.induct)
  case (2 ti n d time t log)
  obtain ti1 where "traffic_info_add Release ti n d time t = Ok ti1"
    by (simp add: traffic_info_add_def network_traffic_add_def device_traffic_add_def)
  with 2 show ?case by simp
qed simp

lemma add_samples_fits:
  "info_ok ti log \<Longrightarrow> fits (map sample_traffic (log @ log')) \<Longrightarrow> \<exists>ti'. add_samples p ti log' = Ok ti'"
proof (induction p ti log' arbitrary: log rule: add_samples.induct)
  case (2 p ti n d time t log')
  have "fits (map sample_traffic (log @ [(n, d, time, t)]))"
    using "2.prems"(2) by (rule_tac fits_append [of _ "map sample_traffic log'"]) (simp add: comp_def)
  then obtain ti1 where ti1: "traffic_info_add p ti n d time t = Ok ti1"
    using traffic_info_add_fits "2.prems"(1) by blast
  have "info_ok ti1 (log @ [(n, d, time, t)])" using "2.prems"(1) ti1 by (rule info_ok_add)
  from "2.IH" [OF ti1 this] "2.prems"(2) ti1 show ?case by (simp add: comp_def)
qed simp

lemma add_samples_Debug_Panic:
  "info_ok ti log \<Longrightarrow> fits (map sample_traffic log) \<Longrightarrow> \<not> fits (map sample_traffic (log @ log')) \<Longrightarrow>
   add_samples Debug ti log' = Panic"
proof (induction "Debug" ti log' arbitrary: log rule: add_samples.induct)
  case (2 ti n d time t log')
  show ?case
  proof (cases "fits (map sample_traffic (log @ [(n, d, time, t)]))")
    case True
    then obtain ti1 where ti1: "traffic_info_add Debug ti n d time t = Ok ti1"
      using traffic_info_add_fits "2.prems"(1) by blast
    have "info_ok ti1 (log @ [(n, d, time, t)])" using "2.prems"(1) ti1 by (rule info_ok_add)
    from "2.hyps" [OF ti1 this True] "2.prems"(3) ti1 show ?thesis by simp
  next
    case False
    then have "traffic_add_assign Debug (ti_traffic ti) t = Panic"
      using "2.prems"(1,2) by (simp add: info_ok_def traffic_add_assign_Debug)
    then show ?thesis by (simp add: traffic_info_add_def)
  qed
qed simp

section \<open>Consistency of the totals\<close>

definition net_consistent :: "network_traffic \<Rightarrow> bool" where
  "net_consistent nt \<longleftrightarrow>
     rx (nt_traffic nt) = bt_sum (rx \<circ> dt_traffic) (nt_devices nt) \<and>
     tx (nt_traffic nt) = bt_sum (tx \<circ> dt_traffic) (nt_devices nt)"

definition info_consistent :: "traffic_info \<Rightarrow> bool" where
  "info_consistent ti \<longleftrightarrow>
     rx (ti_traffic ti) = bt_sum (rx \<circ> nt_traffic) (ti_networks ti) \<and>
     tx (ti_traffic ti) = bt_sum (tx \<circ> nt_traffic) (ti_networks ti) \<and>
     (\<forall>n nt. bt_get (ti_networks ti) n = Some nt \<longrightarrow> net_consistent nt)"

lemma bt_sum_insert_or:
  fixes f :: "'v \<Rightarrow> 'n::len word"
  shows "f d = 0 \<Longrightarrow> bt_sum f (bt_insert k v m) = bt_sum f m + (f v - f (bt_or m k d))"
  using bt_sum_insert [of f k v m] by (simp add: bt_or_def algebra_simps split: option.splits)

lemma device_traffic_add_total:
  "device_traffic_add p dt time t = Ok dt' \<Longrightarrow>
   rx (dt_traffic dt') = rx (dt_traffic dt) + rx t \<and> tx (dt_traffic dt') = tx (dt_traffic dt) + tx t"
  by (auto simp: device_traffic_add_def bind_res_Ok_iff dest!: traffic_add_assign_Ok)

lemma network_traffic_add_consistent:
  assumes "net_consistent nt" and "network_traffic_add p nt d time t = Ok nt'"
  shows "net_consistent nt' \<and> rx (nt_traffic nt') = rx (nt_traffic nt) + rx t
    \<and> tx (nt_traffic nt') = tx (nt_traffic nt) + tx t"
  using assms
  by (auto simp: network_traffic_add_def bind_res_Ok_iff net_consistent_def
      bt_sum_insert_or [where d = device_traffic_default] device_traffic_default_def traffic_default_def
      dest!: traffic_add_assign_Ok device_traffic_add_total)

lemma net_consistent_default: "net_consistent network_traffic_default"
  by (simp add: net_consistent_def network_traffic_default_def traffic_default_def)

lemma traffic_info_add_consistent:
  assumes "info_consistent ti" and "traffic_info_add p ti n d time t = Ok ti'"
  shows "info_consistent ti'"
proof -
  obtain total nt' where total: "traffic_add_assign p (ti_traffic ti) t = Ok total"
    and nt': "network_traffic_add p (bt_or (ti_networks ti) n network_traffic_default) d time t = Ok nt'"
    and ti': "ti' = ti\<lparr>ti_traffic := total, ti_stop_time := max (ti_stop_time ti) time,
        ti_networks := bt_insert n nt' (ti_networks ti)\<rparr>"
    using assms(2) by (auto simp: traffic_info_add_def bind_res_Ok_iff)
  have "net_consistent (bt_or (ti_networks ti) n network_traffic_default)"
    using assms(1) net_consistent_default by (auto simp: info_consistent_def bt_or_def split: option.splits)
  note step = network_traffic_add_consistent [OF this nt']
  show ?thesis
    using assms(1) traffic_add_assign_Ok [OF total] step
    by (auto simp: info_consistent_def ti' bt_sum_insert_or [where d = network_traffic_default]
        network_traffic_default_def traffic_default_def)
qed

lemma info_consistent_new: "info_consistent (traffic_info_new start)"
  by (simp add: info_consistent_def traffic_info_new_def traffic_default_def)

lemma traffic_info_add_stop_time:
  "traffic_info_add p ti n d time t = Ok ti' \<Longrightarrow>
   ti_stop_time ti' = max (ti_stop_time ti) time \<and> ti_start_time ti' = ti_start_time ti"
  by (auto simp: traffic_info_add_def bind_res_Ok_iff)

end
