(* ===== verification/Types_Props.thy ===== *)
theory Types_Props
  imports Types Client_Props
begin

text \<open>
  Properties of \<^verbatim>\<open>src/types.rs\<close>: names and addresses of different networks never collide, port
  mappings are consecutive and their overflow is characterised exactly, and the forwarding tables
  hold for every host exactly the sockets that were added for it.
\<close>

section \<open>Names\<close>

lemma names_inject [simp, name_inject]:
  "netns_name n = netns_name m \<longleftrightarrow> ns_listen_port n = ns_listen_port m"
  "wgif_name n = wgif_name m \<longleftrightarrow> ns_listen_port n = ns_listen_port m"
  "veth_name n = veth_name m \<longleftrightarrow> ns_listen_port n = ns_listen_port m"
  by (simp_all add: netns_name_def wgif_name_def veth_name_def word_unat_eq_iff)

lemma names_distinct [simp]:
  "wgif_name n \<noteq> veth_name m" "veth_name n \<noteq> wgif_name m"
  by (simp_all add: wgif_name_def veth_name_def WIREGUARD_PREFIX_def VETH_PREFIX_def)

lemma netns_name_prefix [simp]: "starts_with NETNS_PREFIX (netns_name n)"
  by (simp add: netns_name_def)

section \<open>Addresses on the bridge\<close>

lemma unat_ucast_port: "unat (ucast (w :: u16) :: u32) = unat w"
  using unsigned_less [of w, where ?'a = nat] by (simp add: unsigned_ucast_eq take_bit_nat_eq_self)

lemma unat_port_less: "unat (w :: u16) < 65536"
  using unsigned_less [of w, where ?'a = nat] by simp

lemma ucast_port_inject: "(ucast (w :: u16) :: u32) = ucast v \<longleftrightarrow> w = v"
  by (simp add: word_unat_eq_iff unat_ucast_port)

lemma veth_subnet: "push_bit 16 (drop_bit 16 (0xAC630000 + ucast (w :: u16) :: u32)) = 0xAC630000"
proof -
  have "unat (0xAC630000 + ucast w :: u32) = 0xAC630000 + unat w"
    using unat_port_less [of w] by (simp add: unat_word_ariths unat_ucast_port)
  moreover have "(0xAC630000 + unat w) div 65536 = 0xAC63" using unat_port_less [of w] by simp
  ultimately have "unat (drop_bit 16 (0xAC630000 + ucast w :: u32)) = 0xAC63"
    unfolding unsigned_drop_bit_eq using unat_port_less [of w] by (simp add: drop_bit_eq_div take_bit_eq_mod)
  then have "drop_bit 16 (0xAC630000 + ucast w :: u32) = 0xAC63" by (simp add: word_unat_eq_iff)
  then show ?thesis by simp
qed

context ipnet_laws
begin

lemma bridge_net: "BRIDGE_NET L = Ok (Ipv4Net 0xAC630001 16)"
  by (simp add: BRIDGE_NET_def net_new ipv4_of_octets_def)

lemma bridge_network: "ipv4net_network L (Ipv4Net 0xAC630001 16) = 0xAC630000"
  by (simp add: net_network)

lemma veth_ipv4net_eq:
  "veth_ipv4net L n = Ok (Ipv4Net (0xAC630000 + ucast (ns_listen_port n)) 16)"
proof -
  have "unat (ucast (ns_listen_port n) :: u32) < 65536"
    by (simp add: unat_ucast_port unat_port_less)
  then show ?thesis
    by (simp add: veth_ipv4net_def bridge_net bridge_network net_saturating_add net_new)
qed

lemma veth_addr_inject:
  "veth_ipv4net L n = veth_ipv4net L m \<longleftrightarrow> ns_listen_port n = ns_listen_port m"
  by (simp add: veth_ipv4net_eq ucast_port_inject)

end

section \<open>Port mappings\<close>

definition mapping_port :: "nat \<Rightarrow> u16" where
  "mapping_port i = PORT_MAPPING_START + of_nat i"

definition mapped :: "network_state \<Rightarrow> (url \<times> u16 \<times> socket_addr) list" where
  "mapped n = map (\<lambda>(i, url, addr). (url, mapping_port i, addr)) (enumerate 0 (proxy_targets n))"

lemma enumerate_index: "e \<in> set (enumerate 0 xs) \<Longrightarrow> fst e < length xs"
  by (auto simp: in_set_enumerate_eq)

lemma port_mappings_Release: "port_mappings Release n = Ok (mapped n)"
  unfolding port_mappings_def mapped_def
  by (rule collect_res_Ok) (auto simp: mapping_port_def)

lemma port_mappings_Ok:
  assumes "length (proxy_targets n) \<le> 63536"
  shows "port_mappings p n = Ok (mapped n)"
  unfolding port_mappings_def mapped_def
proof (rule collect_res_Ok)
  fix e assume "e \<in> set (enumerate 0 (proxy_targets n))"
  then have "fst e < 63536" using enumerate_index [of e "proxy_targets n"] assms by simp
  then show "(case e of (i, url, addr) \<Rightarrow>
        bind_res (add_ck p PORT_MAPPING_START (of_nat i)) (\<lambda>port. Ok (url, port, addr))) =
      Ok (case e of (i, url, addr) \<Rightarrow> (url, mapping_port i, addr))"
    by (auto simp: add_ck_def PORT_MAPPING_START_def mapping_port_def unat_of_nat split: prod.splits)
qed

lemma collect_res_Panic:
  "(\<And>y. y \<in> set xs \<Longrightarrow> \<exists>z. f y = Ok z) \<Longrightarrow> f x = Panic \<Longrightarrow> collect_res f (xs @ x # ys) = Panic"
  by (induction xs) fastforce+

lemma port_mappings_Panic:
  assumes "63536 < length (proxy_targets n)"
  shows "port_mappings Debug n = Panic"
proof -
  let ?f = "\<lambda>(i, url, addr).
      bind_res (add_ck Debug PORT_MAPPING_START (of_nat i)) (\<lambda>port. Ok (url, port, addr))"
  let ?es = "enumerate 0 (proxy_targets n)"
  have "?es = take 63536 ?es @ ?es ! 63536 # drop (Suc 63536) ?es"
    using assms by (intro id_take_nth_drop) simp
  moreover have "?f (?es ! 63536) = Panic"
    using assms by (simp add: nth_enumerate_eq add_ck_def PORT_MAPPING_START_def split: prod.splits)
  moreover have "\<exists>z. ?f y = Ok z" if "y \<in> set (take 63536 ?es)" for y
  proof -
    from that have "fst y < 63536"
      by (auto simp: in_set_conv_nth nth_enumerate_eq)
    then show ?thesis
      by (auto simp: add_ck_def PORT_MAPPING_START_def unat_of_nat split: prod.splits)
  qed
  ultimately show ?thesis unfolding port_mappings_def by (metis (no_types, lifting) collect_res_Panic)
qed

lemma mapped_ports: "map (fst \<circ> snd) (mapped n) = map mapping_port [0..<length (proxy_targets n)]"
  by (rule nth_equalityI) (simp_all add: mapped_def nth_enumerate_eq split: prod.splits)

lemma mapped_targets: "map (\<lambda>(url, _, addr). (url, addr)) (mapped n) = proxy_targets n"
  by (simp add: mapped_def case_prod_unfold comp_def)

lemma mapping_port_inj: "inj_on mapping_port {..<65536}"
  by (auto simp: inj_on_def mapping_port_def word_of_nat_eq_iff take_bit_eq_mod)

lemma mapped_ports_distinct:
  "length (proxy_targets n) \<le> 65536 \<Longrightarrow> distinct (map (fst \<circ> snd) (mapped n))"
  unfolding mapped_ports by (auto simp: distinct_map intro!: inj_on_subset [OF mapping_port_inj])

section \<open>Forwarding tables\<close>

text \<open>
  A scheme's two tables: hosts to upstream names, upstream names to sockets. Each host's upstream
  name is an injective encoding of the host, so the tables together are one map from hosts to
  sockets, \<open>table_servers\<close>; adding a socket appends to exactly that host's list.
\<close>

definition table_servers ::
  "(string, string) btreemap \<Rightarrow> (string, socket_addr list) btreemap \<Rightarrow> string \<Rightarrow> socket_addr list" where
  "table_servers fm um host = (case bt_get fm host of None \<Rightarrow> [] | Some up \<Rightarrow> bt_or um up [])"

text \<open>
  The well-formedness NGINX needs: every forwarded host names an upstream that is defined and has a
  server, under the host's own name, and no upstream is left without a host.
\<close>

definition table_ok ::
  "(string \<Rightarrow> string) \<Rightarrow> (string, string) btreemap \<Rightarrow> (string, socket_addr list) btreemap \<Rightarrow> bool" where
  "table_ok enc fm um \<longleftrightarrow>
     (\<forall>h up. bt_get fm h = Some up \<longrightarrow> up = enc h \<and> (\<exists>s ss. bt_get um up = Some (s # ss))) \<and>
     (\<forall>up. bt_get um up \<noteq> None \<longrightarrow> (\<exists>h. bt_get fm h = Some up))"

locale upstream_names =
  fixes enc :: "string \<Rightarrow> string"
  assumes enc_inject: "enc h = enc h' \<Longrightarrow> h = h'"
begin

lemma table_ok_empty: "table_ok enc bt_empty bt_empty"
  by (simp add: table_ok_def)

lemma table_or: "table_ok enc fm um \<Longrightarrow> bt_or fm h (enc h) = enc h"
  by (auto simp: table_ok_def bt_or_def split: option.splits)

lemma enc_eq [simp]: "enc h = enc h' \<longleftrightarrow> h = h'"
  using enc_inject by blast

lemma table_okD:
  assumes "table_ok enc fm um" and "bt_get fm h = Some up"
  shows "up = enc h" and "\<exists>s ss. bt_get um (enc h) = Some (s # ss)"
  using assms by (auto simp: table_ok_def)

lemma table_ok_absent:
  assumes "table_ok enc fm um" and "bt_get fm h = None"
  shows "bt_get um (enc h) = None"
proof (rule ccontr)
  assume "bt_get um (enc h) \<noteq> None"
  then obtain h' where h': "bt_get fm h' = Some (enc h)" using assms(1) by (auto simp: table_ok_def)
  then have "h' = h" using table_okD(1) [OF assms(1) h'] by simp
  with h' assms(2) show False by simp
qed

lemma table_add_ok:
  assumes ok: "table_ok enc fm um"
  shows "table_ok enc (bt_insert h (enc h) fm) (bt_insert (enc h) (bt_or um (enc h) [] @ [s]) um)"
    (is "table_ok enc ?fm ?um")
  unfolding table_ok_def
proof (intro conjI allI impI)
  fix h' up
  assume get: "bt_get ?fm h' = Some up"
  show "up = enc h'" using get table_okD(1) [OF ok] by (auto split: if_splits)
  show "\<exists>s ss. bt_get ?um up = Some (s # ss)"
  proof (cases "h' = h")
    case True
    with get show ?thesis by (cases "bt_or um (enc h) []") auto
  next
    case False
    with get have get': "bt_get fm h' = Some up" by simp
    show ?thesis using table_okD [OF ok get'] False by simp
  qed
next
  fix up
  assume "bt_get ?um up \<noteq> None"
  then have "up = enc h \<or> bt_get um up \<noteq> None" by (auto split: if_splits)
  then show "\<exists>h'. bt_get ?fm h' = Some up"
  proof
    assume "bt_get um up \<noteq> None"
    then obtain h' where h': "bt_get fm h' = Some up" using ok by (auto simp: table_ok_def)
    show ?thesis using h' table_okD(1) [OF ok h'] by (intro exI [of _ h']) simp
  qed (simp add: exI [of _ h])
qed

lemma table_servers_ok:
  "table_ok enc fm um \<Longrightarrow> table_servers fm um h = bt_or um (enc h) []"
  by (auto simp: table_servers_def bt_or_def dest: table_okD table_ok_absent split: option.splits)

lemma table_add_servers:
  assumes "table_ok enc fm um"
  shows "table_servers (bt_insert h (enc h) fm) (bt_insert (enc h) (bt_or um (enc h) [] @ [s]) um) h' =
     table_servers fm um h' @ (if h' = h then [s] else [])"
  using assms table_add_ok [OF assms, of h s] by (simp add: table_servers_ok) (simp add: bt_or_def)

end

definition upstream_name :: "libs \<Rightarrow> string \<Rightarrow> string \<Rightarrow> string" where
  "upstream_name L scheme host = scheme @ ''_'' @ base32_encode L (as_bytes host)"

lemma of_char_u8_inject: "(of_char c :: u8) = of_char d \<Longrightarrow> c = d"
proof -
  assume eq: "(of_char c :: u8) = of_char d"
  have "unat (of_char e :: u8) = of_char e" for e
  proof -
    have "(of_char e :: u8) = of_nat (of_char e)" by (simp add: of_nat_of_char)
    then show ?thesis by (simp add: unat_of_nat)
  qed
  with eq show ?thesis by (metis of_char_eq_iff)
qed

lemma as_bytes_inject: "as_bytes s = as_bytes t \<longleftrightarrow> s = t"
  unfolding as_bytes_def by (rule inj_map_eq_map) (auto simp: inj_def dest: of_char_u8_inject)

sublocale base32_laws \<subseteq> https: upstream_names "upstream_name L ''https''"
  by unfold_locales (auto simp: upstream_name_def as_bytes_inject dest: base32_inject)

sublocale base32_laws \<subseteq> http: upstream_names "upstream_name L ''http''"
  by unfold_locales (auto simp: upstream_name_def as_bytes_inject dest: base32_inject)

section \<open>The forwarding tables refine the list of routes\<close>

definition https_servers :: "forwarding \<Rightarrow> string \<Rightarrow> socket_addr list" where
  "https_servers f = table_servers (https_forwarding f) (https_upstream f)"

definition http_servers :: "forwarding \<Rightarrow> string \<Rightarrow> socket_addr list" where
  "http_servers f = table_servers (http_forwarding f) (http_upstream f)"

definition fwd_ok :: "libs \<Rightarrow> forwarding \<Rightarrow> bool" where
  "fwd_ok L f \<longleftrightarrow>
     table_ok (upstream_name L ''https'') (https_forwarding f) (https_upstream f) \<and>
     table_ok (upstream_name L ''http'') (http_forwarding f) (http_upstream f)"

text \<open>The sockets a list of routes gives a host under a scheme, in the order they were added.\<close>

definition routed :: "libs \<Rightarrow> string \<Rightarrow> string \<Rightarrow> (url \<times> socket_addr) list \<Rightarrow> socket_addr list" where
  "routed L scheme h es =
     map snd (filter (\<lambda>(u, s). url_scheme L u = scheme \<and> url_host_str L u = Some h) es)"

definition fwd_step :: "libs \<Rightarrow> forwarding \<Rightarrow> (url \<times> socket_addr) list \<Rightarrow> forwarding \<Rightarrow> bool" where
  "fwd_step L f es f' \<longleftrightarrow> fwd_ok L f' \<and>
     (\<forall>h. https_servers f' h = https_servers f h @ routed L ''https'' h es \<and>
          http_servers f' h = http_servers f h @ routed L ''http'' h es)"

lemma routed_append: "routed L scheme h (es @ es') = routed L scheme h es @ routed L scheme h es'"
  by (simp add: routed_def)

lemma routed_Nil [simp]: "routed L scheme h [] = []"
  by (simp add: routed_def)

lemma fwd_step_refl: "fwd_ok L f \<Longrightarrow> fwd_step L f [] f"
  by (simp add: fwd_step_def)

lemma fwd_step_trans: "fwd_step L f es f' \<Longrightarrow> fwd_step L f' es' f'' \<Longrightarrow> fwd_step L f (es @ es') f''"
  by (simp add: fwd_step_def routed_append)

lemma add_https_eq:
  "url_host_str L u = Some h \<Longrightarrow> add_https L f u s =
     (let up = bt_or (https_forwarding f) h (upstream_name L ''https'' h) in
      Ok (f\<lparr>https_forwarding := bt_insert h up (https_forwarding f),
            https_upstream := bt_insert up (bt_or (https_upstream f) up [] @ [s]) (https_upstream f)\<rparr>))"
  by (simp add: add_https_def upstream_name_def Let_def)

lemma add_http_eq:
  "url_host_str L u = Some h \<Longrightarrow> add_http L f u s =
     (let up = bt_or (http_forwarding f) h (upstream_name L ''http'' h) in
      Ok (f\<lparr>http_forwarding := bt_insert h up (http_forwarding f),
            http_upstream := bt_insert up (bt_or (http_upstream f) up [] @ [s]) (http_upstream f)\<rparr>))"
  by (simp add: add_http_def upstream_name_def Let_def)

locale fwd_laws = base32_laws L + url_laws L for L :: libs
begin

lemma add_https_step:
  assumes "fwd_ok L f" and "url_scheme L u = ''https''"
  shows "\<exists>f'. add_https L f u s = Ok f' \<and> fwd_step L f [(u, s)] f'"
proof -
  obtain h where h: "url_host_str L u = Some h" using special_host [of u] assms(2) by auto
  have ok: "table_ok (upstream_name L ''https'') (https_forwarding f) (https_upstream f)"
    using assms(1) by (simp add: fwd_ok_def)
  show ?thesis
    using assms h https.table_add_ok [OF ok, of h s] https.table_add_servers [OF ok, of h s]
    by (simp add: add_https_eq [OF h] https.table_or [OF ok] Let_def fwd_step_def fwd_ok_def
        https_servers_def http_servers_def routed_def)
qed

lemma add_http_step:
  assumes "fwd_ok L f" and "url_scheme L u = ''http''"
  shows "\<exists>f'. add_http L f u s = Ok f' \<and> fwd_step L f [(u, s)] f'"
proof -
  obtain h where h: "url_host_str L u = Some h" using special_host [of u] assms(2) by auto
  have ok: "table_ok (upstream_name L ''http'') (http_forwarding f) (http_upstream f)"
    using assms(1) by (simp add: fwd_ok_def)
  show ?thesis
    using assms h http.table_add_ok [OF ok, of h s] http.table_add_servers [OF ok, of h s]
    by (simp add: add_http_eq [OF h] http.table_or [OF ok] Let_def fwd_step_def fwd_ok_def
        https_servers_def http_servers_def routed_def)
qed

lemma fwd_step_ignored:
  "fwd_ok L f \<Longrightarrow> url_scheme L u \<noteq> ''https'' \<Longrightarrow> url_scheme L u \<noteq> ''http'' \<Longrightarrow> fwd_step L f [(u, s)] f"
  by (simp add: fwd_step_def routed_def)

lemma add_mapping_step: "fwd_ok L f \<Longrightarrow> \<exists>f'. add_mapping L f u s = Ok f' \<and> fwd_step L f [(u, s)] f'"
  by (simp add: add_mapping_def add_https_step add_http_step add_ssh_def fwd_step_ignored)

lemma add_custom_step: "fwd_ok L f \<Longrightarrow> \<exists>f'. add_custom L f u s = Ok f' \<and> fwd_step L f [(u, s)] f'"
  by (simp add: add_custom_def add_https_step add_http_step fwd_step_ignored)

lemma fold_fwd_step:
  assumes "\<And>f x. x \<in> set xs \<Longrightarrow> fwd_ok L f \<Longrightarrow> \<exists>f'. g f x = Ok f' \<and> fwd_step L f (r x) f'"
    and "fwd_ok L f"
  shows "\<exists>f'. fold_res g f xs = Ok f' \<and> fwd_step L f (concat (map r xs)) f'"
  using assms
proof (induction xs arbitrary: f)
  case Nil
  then show ?case by (simp add: fwd_step_refl)
next
  case (Cons x xs)
  obtain f1 where f1: "g f x = Ok f1" "fwd_step L f (r x) f1" using Cons.prems by fastforce
  then have "fwd_ok L f1" by (simp add: fwd_step_def)
  then obtain f2 where "fold_res g f1 xs = Ok f2" "fwd_step L f1 (concat (map r xs)) f2"
    using Cons.IH Cons.prems(1) by fastforce
  with f1 show ?case by (auto intro: fwd_step_trans)
qed

end

lemma fwd_ok_new: "fwd_ok L forwarding_new"
  by (simp add: fwd_ok_def forwarding_new_def table_ok_def)

text \<open>The routes of a network: each mapping, reached over the network's address on the bridge.\<close>

definition network_routes :: "network_state \<Rightarrow> (url \<times> socket_addr) list" where
  "network_routes n =
     map (\<lambda>(u, port, _). (u, SockV4 (0xAC630000 + ucast (ns_listen_port n)) port)) (mapped n)"

lemma concat_map_single: "concat (map (\<lambda>x. [f x]) xs) = map f xs"
  by (induction xs) simp_all

locale fwd_net_laws = fwd_laws L + ipnet_laws L for L :: libs
begin

lemma forwarding_add_step:
  assumes "fwd_ok L f" and "port_mappings p n = Ok (mapped n)"
  shows "\<exists>f'. forwarding_add L p f n = Ok f' \<and> fwd_step L f (network_routes n) f'"
proof -
  have "\<exists>f'. fold_res (\<lambda>fwd (url, port, _).
         bind_res (veth_ipv4net L n) (\<lambda>net.
         add_mapping L fwd url (socket_addr_new (IpV4 (net4_addr net)) port))) f (mapped n) = Ok f' \<and>
       fwd_step L f (concat (map (\<lambda>x. [case x of (u, port, _) \<Rightarrow>
         (u, SockV4 (0xAC630000 + ucast (ns_listen_port n)) port)]) (mapped n))) f'"
    using assms(1)
    by (intro fold_fwd_step) (auto simp: veth_ipv4net_eq add_mapping_step split: prod.splits)
  then show ?thesis by (simp add: forwarding_add_def assms(2) network_routes_def concat_map_single)
qed

end

end
