(* ===== verification/Kernel.thy ===== *)
theory Kernel
  imports Gateway Types_Props
begin

text \<open>
  What the gateway relies on of the system it drives. \<open>kern\<close> is the observable configuration:
  namespaces, interfaces, files, packet-filter rules and the configuration NGINX runs on. The
  locale \<open>linux\<close> says, for each operation of the wrappers, when it succeeds and how it changes
  that configuration (the documented effect of the \<^verbatim>\<open>ip\<close>, \<^verbatim>\<open>wg\<close>, \<^verbatim>\<open>iptables\<close> and \<^verbatim>\<open>nginx\<close>
  commands); nothing is said of an operation outside its precondition.
\<close>

section \<open>The observable configuration\<close>

record iface =
  if_mtu :: usize
  if_up :: bool
  if_addrs :: "ip_net set"
  if_master :: "string option"
  if_peer :: "(string option \<times> string) option"
  if_conf :: "string option"

record kern =
  k_netns :: "string set"
  k_ifs :: "string option \<times> string \<Rightarrow> iface option"
  k_nsfiles :: "string \<times> string \<Rightarrow> string option"
  k_ipt :: "string \<Rightarrow> string"
  k_files :: "string \<Rightarrow> string option"
  k_nginx :: "string option \<times> string option"

definition fresh_if :: "usize \<Rightarrow> (string option \<times> string) option \<Rightarrow> iface" where
  "fresh_if mtu peer = \<lparr>if_mtu = mtu, if_up = False, if_addrs = {}, if_master = None,
     if_peer = peer, if_conf = None\<rparr>"

text \<open>
  Deleting a namespace destroys the interfaces in it, and with one end of a veth pair the other.
\<close>

definition drop_ns :: "string \<Rightarrow> (string option \<times> string \<Rightarrow> iface option) \<Rightarrow>
    string option \<times> string \<Rightarrow> iface option" where
  "drop_ns ns ifs k = (case ifs k of
      None \<Rightarrow> None
    | Some i \<Rightarrow> if fst k = Some ns \<or> (case if_peer i of None \<Rightarrow> False | Some pk \<Rightarrow> fst pk = Some ns)
                then None else Some i)"

definition upd_if :: "string option \<times> string \<Rightarrow> (iface \<Rightarrow> iface) \<Rightarrow> kern \<Rightarrow> kern" where
  "upd_if k f K = K\<lparr>k_ifs := (k_ifs K)(k := map_option f (k_ifs K k))\<rparr>"

definition valid_mtu :: "usize \<Rightarrow> bool" where
  "valid_mtu m \<longleftrightarrow> 1280 \<le> m \<and> m \<le> 65535"

section \<open>Operations seen through the configuration\<close>

text \<open>
  \<open>reads\<close>: the operation returns the value and changes nothing observable. \<open>moves\<close>: it returns
  and leaves the given configuration.
\<close>

definition reads :: "('s \<Rightarrow> kern) \<Rightarrow> ('s, 'a) io \<Rightarrow> 's \<Rightarrow> 'a \<Rightarrow> bool" where
  "reads view m s x \<longleftrightarrow> (\<exists>s'. m s = (Ok x, s') \<and> view s' = view s)"

definition moves :: "('s \<Rightarrow> kern) \<Rightarrow> ('s, unit) io \<Rightarrow> 's \<Rightarrow> kern \<Rightarrow> bool" where
  "moves view m s K \<longleftrightarrow> (\<exists>s'. m s = (Ok (), s') \<and> view s' = K)"

lemma moves_ret: "K = view s \<Longrightarrow> moves view (ret ()) s K"
  by (simp add: moves_def ret_def)

lemma moves_bind:
  "reads view m s x \<Longrightarrow> (\<And>s'. view s' = view s \<Longrightarrow> moves view (f x) s' K) \<Longrightarrow>
   moves view (bind_io m f) s K"
  by (auto simp: reads_def moves_def bind_io_def)

lemma moves_bind_lift: "r = Ok x \<Longrightarrow> moves view (f x) s K \<Longrightarrow> moves view (bind_io (lift_res r) f) s K"
  by (simp add: moves_def bind_io_def lift_res_def)

lemma moves_then:
  "moves view m s K \<Longrightarrow> (\<And>s'. view s' = K \<Longrightarrow> moves view k s' K') \<Longrightarrow> moves view (then_io m k) s K'"
  by (auto simp: moves_def then_io_def bind_io_def)

lemma moves_context: "moves view m s K \<Longrightarrow> moves view (context_io c m) s K"
  by (auto simp: moves_def context_io_def)

lemma moves_when:
  "(b \<Longrightarrow> moves view m s K) \<Longrightarrow> (\<not> b \<Longrightarrow> K = view s) \<Longrightarrow> moves view (when_io b m) s K"
  by (auto simp: moves_def when_io_def ret_def)

text \<open>A loop whose body acts as \<open>g x\<close> on the configuration acts as the fold of \<open>g\<close>.\<close>

lemma moves_for:
  assumes "\<And>x s. x \<in> set xs \<Longrightarrow> P (view s) \<Longrightarrow> moves view (body x) s (g x (view s)) \<and> P (g x (view s))"
    and "P (view s)"
  shows "moves view (for_io xs body) s (fold g xs (view s))"
  using assms
proof (induction xs arbitrary: s)
  case Nil
  then show ?case by (simp add: moves_ret)
next
  case (Cons x xs)
  have step: "moves view (body x) s (g x (view s))" and P: "P (g x (view s))"
    using Cons.prems(1) [of x s] Cons.prems(2) by auto
  show ?case
    unfolding for_io.simps
  proof (rule moves_then [OF step])
    fix s' assume v: "view s' = g x (view s)"
    have "P (view s')" using P v by simp
    then have "moves view (for_io xs body) s' (fold g xs (view s'))"
      using Cons.prems(1) by (intro Cons.IH) auto
    then show "moves view (for_io xs body) s' (fold g (x # xs) (view s))" by (simp add: v)
  qed
qed

section \<open>The laws\<close>

text \<open>
  \<open>mtu0\<close> is the MTU of a new interface, \<open>ipt0\<close> the rules of a new namespace, \<open>canon\<close> the form in
  which \<^verbatim>\<open>iptables-save\<close> prints back a restored rule text, \<open>accepts\<close> and \<open>nginx_ok\<close> the texts
  \<^verbatim>\<open>iptables-restore\<close> and NGINX accept.
\<close>

locale linux =
  fixes E :: "'s env"
    and view :: "'s \<Rightarrow> kern"
    and mtu0 :: usize
    and ipt0 :: string
    and canon :: "string \<Rightarrow> string"
    and accepts :: "string \<Rightarrow> bool"
    and nginx_ok :: "string option \<times> string option \<Rightarrow> bool"
  assumes law_netns_list:
      "\<exists>items. reads view (netns_list E) s items \<and> netns_item_name ` set items = k_netns (view s)"
    and law_netns_exists: "reads view (netns_exists E ns) s (ns \<in> k_netns (view s))"
    and law_netns_add: "ns \<notin> k_netns (view s) \<Longrightarrow> moves view (netns_add E ns) s
      ((view s)\<lparr>k_netns := insert ns (k_netns (view s)), k_ipt := (k_ipt (view s))(ns := ipt0)\<rparr>)"
    and law_netns_del: "ns \<in> k_netns (view s) \<Longrightarrow> moves view (netns_del E ns) s
      ((view s)\<lparr>k_netns := k_netns (view s) - {ns}, k_ifs := drop_ns ns (k_ifs (view s))\<rparr>)"
    and law_netns_write_file: "ns \<in> k_netns (view s) \<Longrightarrow> moves view (netns_write_file E ns path text) s
      ((view s)\<lparr>k_nsfiles := (k_nsfiles (view s))((ns, path) \<mapsto> text)\<rparr>)"
    and law_bridge_exists: "reads view (bridge_exists E None name) s (k_ifs (view s) (None, name) \<noteq> None)"
    and law_bridge_add: "k_ifs (view s) (None, name) = None \<Longrightarrow> moves view (bridge_add E None name) s
      ((view s)\<lparr>k_ifs := (k_ifs (view s))((None, name) \<mapsto> fresh_if mtu0 None)\<rparr>)"
    and law_wireguard_exists: "ns \<in> k_netns (view s) \<Longrightarrow>
      reads view (wireguard_exists E ns name) s (k_ifs (view s) (Some ns, name) \<noteq> None)"
    and law_wireguard_create: "ns \<in> k_netns (view s) \<Longrightarrow> k_ifs (view s) (Some ns, name) = None \<Longrightarrow>
      moves view (wireguard_create E (Some ns) name) s
        ((view s)\<lparr>k_ifs := (k_ifs (view s))((Some ns, name) \<mapsto> fresh_if mtu0 None)\<rparr>)"
    and law_wireguard_syncconf: "k_ifs (view s) (Some ns, name) \<noteq> None \<Longrightarrow>
      k_nsfiles (view s) (ns, ''wireguard/'' @ name @ ''.conf'') = Some text \<Longrightarrow>
      moves view (wireguard_syncconf E ns name) s
        (upd_if (Some ns, name) (\<lambda>i. i\<lparr>if_conf := Some text\<rparr>) (view s))"
    and law_interface_show: "k_ifs (view s) (nso, name) = Some i \<Longrightarrow>
      reads view (interface_show E nso name) s \<lparr>info_mtu = Some (if_mtu i), info_is_down = (\<not> if_up i)\<rparr>"
    and law_interface_mtu: "k_ifs (view s) (nso, name) \<noteq> None \<Longrightarrow> valid_mtu m \<Longrightarrow>
      moves view (interface_mtu E nso name m) s (upd_if (nso, name) (\<lambda>i. i\<lparr>if_mtu := m\<rparr>) (view s))"
    and law_interface_up: "k_ifs (view s) (nso, name) \<noteq> None \<Longrightarrow>
      moves view (interface_up E nso name) s (upd_if (nso, name) (\<lambda>i. i\<lparr>if_up := True\<rparr>) (view s))"
    and law_addr_list: "k_ifs (view s) (nso, name) = Some i \<Longrightarrow>
      \<exists>l. reads view (addr_list E nso name) s l \<and> set l = if_addrs i"
    and law_addr_add: "k_ifs (view s) (nso, name) = Some i \<Longrightarrow> a \<notin> if_addrs i \<Longrightarrow>
      moves view (addr_add E nso name a) s
        (upd_if (nso, name) (\<lambda>i. i\<lparr>if_addrs := insert a (if_addrs i)\<rparr>) (view s))"
    and law_veth_exists: "ns \<in> k_netns (view s) \<Longrightarrow>
      reads view (veth_exists E ns name) s (k_ifs (view s) (Some ns, name) \<noteq> None)"
    and law_veth_add: "ns \<in> k_netns (view s) \<Longrightarrow> k_ifs (view s) (None, outer_if) = None \<Longrightarrow>
      k_ifs (view s) (Some ns, inner_if) = None \<Longrightarrow> moves view (veth_add E ns outer_if inner_if) s
        ((view s)\<lparr>k_ifs := (k_ifs (view s))
           ((None, outer_if) \<mapsto> fresh_if mtu0 (Some (Some ns, inner_if)),
            (Some ns, inner_if) \<mapsto> fresh_if mtu0 (Some (None, outer_if)))\<rparr>)"
    and law_link_get_master: "k_ifs (view s) (nso, name) = Some i \<Longrightarrow>
      reads view (link_get_master E nso name) s (if_master i)"
    and law_link_set_master: "k_ifs (view s) (nso, name) \<noteq> None \<Longrightarrow> k_ifs (view s) (nso, master) \<noteq> None \<Longrightarrow>
      moves view (link_set_master E nso name master) s
        (upd_if (nso, name) (\<lambda>i. i\<lparr>if_master := Some master\<rparr>) (view s))"
    and law_iptables_save: "ns \<in> k_netns (view s) \<Longrightarrow>
      \<exists>t. reads view (iptables_save E (Some ns)) s t \<and> clean_iptables (lib E) t = k_ipt (view s) ns"
    and law_iptables_restore: "ns \<in> k_netns (view s) \<Longrightarrow> accepts t \<Longrightarrow>
      moves view (iptables_restore E (Some ns) t) s
        ((view s)\<lparr>k_ipt := (k_ipt (view s))(ns := canon t)\<rparr>)"
    and law_fs_write: "moves view (fs_write E path text) s
      ((view s)\<lparr>k_files := (k_files (view s))(path \<mapsto> text)\<rparr>)"
    and law_is_file: "reads view (is_file E path) s (k_files (view s) path \<noteq> None)"
    and law_nginx_reload:
      "nginx_ok (k_files (view s) NGINX_MODULE_PATH, k_files (view s) NGINX_SITE_PATH) \<Longrightarrow>
       moves view (nginx_reload E) s
         ((view s)\<lparr>k_nginx := (k_files (view s) NGINX_MODULE_PATH, k_files (view s) NGINX_SITE_PATH)\<rparr>)"

section \<open>What each step makes of the configuration\<close>

definition ensure_if :: "string option \<times> string \<Rightarrow> iface \<Rightarrow> kern \<Rightarrow> kern" where
  "ensure_if k i K = (case k_ifs K k of None \<Rightarrow> K\<lparr>k_ifs := (k_ifs K)(k \<mapsto> i)\<rparr> | Some _ \<Rightarrow> K)"

definition spec_addrs :: "string option \<times> string \<Rightarrow> ip_net list \<Rightarrow> kern \<Rightarrow> kern" where
  "spec_addrs k as = upd_if k (\<lambda>i. i\<lparr>if_addrs := if_addrs i \<union> set as\<rparr>)"

definition spec_up :: "string option \<times> string \<Rightarrow> kern \<Rightarrow> kern" where
  "spec_up k = upd_if k (\<lambda>i. i\<lparr>if_up := True\<rparr>)"

definition spec_master :: "string option \<times> string \<Rightarrow> string \<Rightarrow> kern \<Rightarrow> kern" where
  "spec_master k m = upd_if k (\<lambda>i. i\<lparr>if_master := Some m\<rparr>)"

definition spec_bridge :: "usize \<Rightarrow> ip_net list \<Rightarrow> kern \<Rightarrow> kern" where
  "spec_bridge mtu0 as K = spec_up (None, BRIDGE_INTERFACE) (spec_addrs (None, BRIDGE_INTERFACE) as
     (ensure_if (None, BRIDGE_INTERFACE) (fresh_if mtu0 None) K))"

definition spec_netns :: "string \<Rightarrow> string \<Rightarrow> kern \<Rightarrow> kern" where
  "spec_netns ipt0 ns K = (if ns \<in> k_netns K then K
     else K\<lparr>k_netns := insert ns (k_netns K), k_ipt := (k_ipt K)(ns := ipt0)\<rparr>)"

definition spec_del :: "string \<Rightarrow> kern \<Rightarrow> kern" where
  "spec_del ns K = K\<lparr>k_netns := k_netns K - {ns}, k_ifs := drop_ns ns (k_ifs K)\<rparr>"

definition wg_path :: "network_state \<Rightarrow> string" where
  "wg_path n = ''wireguard/'' @ wgif_name n @ ''.conf''"

definition wg_key :: "network_state \<Rightarrow> string option \<times> string" where
  "wg_key n = (Some (netns_name n), wgif_name n)"

definition inner_key :: "network_state \<Rightarrow> string option \<times> string" where
  "inner_key n = (Some (netns_name n), veth_name n)"

definition outer_key :: "network_state \<Rightarrow> string option \<times> string" where
  "outer_key n = (None, veth_name n)"

definition spec_wireguard :: "libs \<Rightarrow> usize \<Rightarrow> network_state \<Rightarrow> kern \<Rightarrow> kern" where
  "spec_wireguard L mtu0 n K =
     upd_if (wg_key n) (\<lambda>i. i\<lparr>if_conf := Some (network_to_config L n)\<rparr>)
     (spec_addrs (wg_key n) (ns_address n)
     ((\<lambda>K. K\<lparr>k_nsfiles := (k_nsfiles K)((netns_name n, wg_path n) \<mapsto> network_to_config L n)\<rparr>)
     (spec_up (wg_key n)
     (upd_if (wg_key n) (\<lambda>i. i\<lparr>if_mtu := ns_mtu n\<rparr>)
     (ensure_if (wg_key n) (fresh_if mtu0 None) K)))))"

definition ensure_veth :: "usize \<Rightarrow> network_state \<Rightarrow> kern \<Rightarrow> kern" where
  "ensure_veth mtu0 n K = (case k_ifs K (inner_key n) of
      None \<Rightarrow> K\<lparr>k_ifs := (k_ifs K)
        (outer_key n \<mapsto> fresh_if mtu0 (Some (inner_key n)),
         inner_key n \<mapsto> fresh_if mtu0 (Some (outer_key n)))\<rparr>
    | Some _ \<Rightarrow> K)"

definition spec_veth :: "usize \<Rightarrow> ip_net \<Rightarrow> network_state \<Rightarrow> kern \<Rightarrow> kern" where
  "spec_veth mtu0 addr n K =
     spec_up (outer_key n) (spec_up (inner_key n)
     (spec_master (outer_key n) BRIDGE_INTERFACE
     (spec_addrs (inner_key n) [addr] (ensure_veth mtu0 n K))))"

definition spec_forwarding :: "(string \<Rightarrow> string) \<Rightarrow> string \<Rightarrow> network_state \<Rightarrow> kern \<Rightarrow> kern" where
  "spec_forwarding canon savefile n K =
     K\<lparr>k_ipt := (k_ipt K)(netns_name n := if k_ipt K (netns_name n) = savefile then savefile else canon savefile)\<rparr>"

end
