(* ===== verification/Gateway_Refine.thy ===== *)
theory Gateway_Refine
  imports Kernel
begin

text \<open>
  Each function of \<^verbatim>\<open>src/gateway.rs\<close> refines a change of the observable configuration: on a system
  that obeys the laws it returns \<open>Ok\<close> and leaves exactly the configuration its specification
  computes from the one before.
\<close>

section \<open>Interface updates\<close>

lemma k_ifs_upd_if [simp]:
  "k_ifs (upd_if k f K) k' = (if k' = k then map_option f (k_ifs K k) else k_ifs K k')"
  by (simp add: upd_if_def)

lemma upd_if_frame [simp]:
  "k_netns (upd_if k f K) = k_netns K" "k_nsfiles (upd_if k f K) = k_nsfiles K"
  "k_ipt (upd_if k f K) = k_ipt K" "k_files (upd_if k f K) = k_files K"
  "k_nginx (upd_if k f K) = k_nginx K"
  by (simp_all add: upd_if_def)

lemma upd_if_upd_if: "upd_if k f (upd_if k g K) = upd_if k (\<lambda>i. f (g i)) K"
  by (simp add: upd_if_def option.map_comp comp_def)

lemma upd_if_id: "k_ifs K k = Some i \<Longrightarrow> f i = i \<Longrightarrow> upd_if k f K = K"
  by (simp add: upd_if_def fun_upd_idem)

lemma upd_if_cong: "k_ifs K k = Some i \<Longrightarrow> f i = g i \<Longrightarrow> upd_if k f K = upd_if k g K"
  by (simp add: upd_if_def)

lemma k_ifs_ensure_if [simp]:
  "k_ifs (ensure_if k i K) k' = (if k' = k \<and> k_ifs K k = None then Some i else k_ifs K k')"
  by (auto simp: ensure_if_def split: option.splits)

lemma ensure_if_frame [simp]:
  "k_netns (ensure_if k i K) = k_netns K" "k_nsfiles (ensure_if k i K) = k_nsfiles K"
  "k_ipt (ensure_if k i K) = k_ipt K" "k_files (ensure_if k i K) = k_files K"
  "k_nginx (ensure_if k i K) = k_nginx K"
  by (simp_all add: ensure_if_def split: option.splits)

lemma key_neq [simp]: "inner_key n \<noteq> outer_key m" "outer_key n \<noteq> inner_key m"
  "wg_key n \<noteq> inner_key m" "inner_key m \<noteq> wg_key n" "wg_key n \<noteq> outer_key m" "outer_key m \<noteq> wg_key n"
  by (simp_all add: inner_key_def outer_key_def wg_key_def)

lemma ensure_veth_ifs:
  assumes "k_ifs K (inner_key n) = None \<longleftrightarrow> k_ifs K (outer_key n) = None"
  shows "k_ifs (ensure_veth mtu0 n K) (inner_key n) \<noteq> None" "k_ifs (ensure_veth mtu0 n K) (outer_key n) \<noteq> None"
  using assms by (auto simp: ensure_veth_def split: option.splits)

lemmas spec_if_defs = spec_addrs_def spec_up_def spec_master_def

context linux
begin

lemma apply_interface_up_moves:
  assumes "k_ifs (view s) (nso, name) \<noteq> None"
  shows "moves view (apply_interface_up E nso name) s (spec_up (nso, name) (view s))"
proof -
  obtain i where i: "k_ifs (view s) (nso, name) = Some i" using assms by blast
  show ?thesis
    unfolding apply_interface_up_def
  proof (rule moves_bind [OF law_interface_show [OF i]], rule moves_when)
    fix s' assume v: "view s' = view s"
    show "moves view (interface_up E nso name) s' (spec_up (nso, name) (view s))"
      using law_interface_up [of s' nso name] assms by (simp add: v spec_up_def)
    assume "\<not> info_is_down \<lparr>info_mtu = Some (if_mtu i), info_is_down = (\<not> if_up i)\<rparr>"
    then show "spec_up (nso, name) (view s) = view s'"
      using i by (simp add: v spec_up_def upd_if_id)
  qed
qed

lemma addr_loop_moves:
  assumes "distinct target" and "k_ifs (view s) (nso, name) = Some j"
    and "\<And>a. a \<in> set target \<Longrightarrow> a \<in> if_addrs j \<longleftrightarrow> a \<in> set cur"
  shows "moves view (for_io target (\<lambda>a. when_io (a \<notin> set cur) (addr_add E nso name a))) s
           (spec_addrs (nso, name) target (view s))"
  using assms
proof (induction target arbitrary: s j)
  case Nil
  then show ?case by (simp add: moves_ret spec_addrs_def upd_if_id)
next
  case (Cons a rest)
  let ?k = "(nso, name)" and ?ins = "\<lambda>i. i\<lparr>if_addrs := insert a (if_addrs i)\<rparr>"
  have one: "moves view (when_io (a \<notin> set cur) (addr_add E nso name a)) s (upd_if ?k ?ins (view s))"
  proof (rule moves_when)
    assume "a \<notin> set cur"
    then show "moves view (addr_add E nso name a) s (upd_if ?k ?ins (view s))"
      using Cons.prems by (intro law_addr_add) auto
  next
    assume "\<not> a \<notin> set cur"
    then show "upd_if ?k ?ins (view s) = view s"
      using Cons.prems by (intro upd_if_id) (auto simp: insert_absorb)
  qed
  show ?case
    unfolding for_io.simps
  proof (rule moves_then [OF one])
    fix s' assume v: "view s' = upd_if ?k ?ins (view s)"
    have "moves view (for_io rest (\<lambda>a. when_io (a \<notin> set cur) (addr_add E nso name a))) s'
        (spec_addrs ?k rest (view s'))"
      using Cons.prems by (intro Cons.IH [of s' "?ins j"]) (auto simp: v)
    then show "moves view (for_io rest (\<lambda>a. when_io (a \<notin> set cur) (addr_add E nso name a))) s'
        (spec_addrs ?k (a # rest) (view s))"
      by (simp add: v spec_addrs_def upd_if_upd_if)
  qed
qed

lemma apply_addr_moves:
  assumes "k_ifs (view s) (nso, name) \<noteq> None" and "distinct target"
  shows "moves view (apply_addr E nso name target) s (spec_addrs (nso, name) target (view s))"
proof -
  obtain i where i: "k_ifs (view s) (nso, name) = Some i" using assms by blast
  obtain l where l: "reads view (addr_list E nso name) s l" "set l = if_addrs i"
    using law_addr_list [OF i] by blast
  show ?thesis
    unfolding apply_addr_def
  proof (rule moves_bind [OF l(1)])
    fix s' assume v: "view s' = view s"
    show "moves view (for_io target (\<lambda>a. when_io (a \<notin> set l) (addr_add E nso name a))) s'
        (spec_addrs (nso, name) target (view s))"
      using addr_loop_moves [OF assms(2), of s' nso name i l] i l(2) by (simp add: v)
  qed
qed

lemma apply_link_master_moves:
  assumes "k_ifs (view s) (nso, name) \<noteq> None" and "k_ifs (view s) (nso, master) \<noteq> None"
  shows "moves view (apply_link_master E nso name master) s (spec_master (nso, name) master (view s))"
proof -
  obtain i where i: "k_ifs (view s) (nso, name) = Some i" using assms by blast
  show ?thesis
    unfolding apply_link_master_def
  proof (rule moves_bind [OF law_link_get_master [OF i]], rule moves_when)
    fix s' assume v: "view s' = view s"
    show "moves view (context_io ''Setting master of interface'' (link_set_master E nso name master)) s'
        (spec_master (nso, name) master (view s))"
      using law_link_set_master [of s' nso name master] assms
      by (intro moves_context) (simp add: v spec_master_def)
    assume "\<not> (if_master i = None \<or> if_master i \<noteq> Some master)"
    then show "spec_master (nso, name) master (view s) = view s'"
      using i by (simp add: v spec_master_def upd_if_id)
  qed
qed

lemma apply_bridge_moves:
  assumes "distinct addrs"
  shows "moves view (apply_bridge E nm addrs) s (spec_bridge mtu0 addrs (view s))"
  unfolding apply_bridge_def spec_bridge_def
proof (rule moves_then)
  let ?b = "(None :: string option, BRIDGE_INTERFACE)"
  show "moves view (bind_io (bridge_exists E None BRIDGE_INTERFACE) (\<lambda>exists.
      when_io (\<not> exists) (bridge_add E None BRIDGE_INTERFACE))) s
      (ensure_if ?b (fresh_if mtu0 None) (view s))"
  proof (rule moves_bind [OF law_bridge_exists], rule moves_when)
    fix s' assume v: "view s' = view s"
    show "\<not> k_ifs (view s) ?b \<noteq> None \<Longrightarrow>
        moves view (bridge_add E None BRIDGE_INTERFACE) s' (ensure_if ?b (fresh_if mtu0 None) (view s))"
      using law_bridge_add [of s' BRIDGE_INTERFACE] by (simp add: v ensure_if_def)
    show "\<not> \<not> k_ifs (view s) ?b \<noteq> None \<Longrightarrow> ensure_if ?b (fresh_if mtu0 None) (view s) = view s'"
      by (auto simp: v ensure_if_def)
  qed
  fix s1 assume v1: "view s1 = ensure_if ?b (fresh_if mtu0 None) (view s)"
  show "moves view (then_io
        (context_io ''Setting up bridge interface'' (apply_addr E None BRIDGE_INTERFACE addrs))
        (context_io ''Bringing bridge interface up'' (apply_interface_up E None BRIDGE_INTERFACE))) s1
      (spec_up ?b (spec_addrs ?b addrs (ensure_if ?b (fresh_if mtu0 None) (view s))))"
  proof (rule moves_then)
    show "moves view (context_io ''Setting up bridge interface'' (apply_addr E None BRIDGE_INTERFACE addrs))
        s1 (spec_addrs ?b addrs (view s1))"
      using assms by (intro moves_context apply_addr_moves) (simp_all add: v1)
    fix s2 assume v2: "view s2 = spec_addrs ?b addrs (view s1)"
    show "moves view (context_io ''Bringing bridge interface up''
        (apply_interface_up E None BRIDGE_INTERFACE)) s2
        (spec_up ?b (spec_addrs ?b addrs (ensure_if ?b (fresh_if mtu0 None) (view s))))"
      using apply_interface_up_moves [of s2 None BRIDGE_INTERFACE]
      by (intro moves_context) (simp add: v2 v1 spec_addrs_def)
  qed
qed

lemma apply_netns_moves: "moves view (apply_netns E n) s (spec_netns ipt0 (netns_name n) (view s))"
  unfolding apply_netns_def Let_def
proof (rule moves_bind [OF law_netns_exists], rule moves_when)
  fix s' assume v: "view s' = view s"
  show "netns_name n \<notin> k_netns (view s) \<Longrightarrow>
      moves view (netns_add E (netns_name n)) s' (spec_netns ipt0 (netns_name n) (view s))"
    using law_netns_add [of "netns_name n" s'] by (simp add: v spec_netns_def)
  show "\<not> netns_name n \<notin> k_netns (view s) \<Longrightarrow> spec_netns ipt0 (netns_name n) (view s) = view s'"
    by (simp add: v spec_netns_def)
qed

section \<open>One network\<close>

lemma wireguard_ensure_moves:
  assumes "netns_name n \<in> k_netns (view s)"
  shows "moves view (bind_io (wireguard_exists E (netns_name n) (wgif_name n)) (\<lambda>exists.
      when_io (\<not> exists) (wireguard_create E (Some (netns_name n)) (wgif_name n)))) s
      (ensure_if (wg_key n) (fresh_if mtu0 None) (view s))"
proof (rule moves_bind [OF law_wireguard_exists [OF assms]], rule moves_when)
  fix s' assume v: "view s' = view s"
  show "\<not> k_ifs (view s) (Some (netns_name n), wgif_name n) \<noteq> None \<Longrightarrow>
      moves view (wireguard_create E (Some (netns_name n)) (wgif_name n)) s'
        (ensure_if (wg_key n) (fresh_if mtu0 None) (view s))"
    using law_wireguard_create [of "netns_name n" s' "wgif_name n"] assms
    by (simp add: v ensure_if_def wg_key_def)
  show "\<not> \<not> k_ifs (view s) (Some (netns_name n), wgif_name n) \<noteq> None \<Longrightarrow>
      ensure_if (wg_key n) (fresh_if mtu0 None) (view s) = view s'"
    by (auto simp: v ensure_if_def wg_key_def)
qed

lemma wireguard_mtu_moves:
  assumes i: "k_ifs (view s) (wg_key n) = Some i" and "valid_mtu (ns_mtu n)"
  shows "moves view (when_io (if_mtu i \<noteq> ns_mtu n)
      (interface_mtu E (Some (netns_name n)) (wgif_name n) (ns_mtu n))) s
      (upd_if (wg_key n) (\<lambda>i. i\<lparr>if_mtu := ns_mtu n\<rparr>) (view s))"
proof (rule moves_when)
  show "moves view (interface_mtu E (Some (netns_name n)) (wgif_name n) (ns_mtu n)) s
      (upd_if (wg_key n) (\<lambda>i. i\<lparr>if_mtu := ns_mtu n\<rparr>) (view s))"
    using law_interface_mtu [of s "Some (netns_name n)" "wgif_name n" "ns_mtu n"] assms
    by (simp add: wg_key_def)
  assume "\<not> if_mtu i \<noteq> ns_mtu n"
  then show "upd_if (wg_key n) (\<lambda>i. i\<lparr>if_mtu := ns_mtu n\<rparr>) (view s) = view s"
    by (intro upd_if_id [OF i]) simp
qed

lemma apply_wireguard_moves:
  assumes ns: "netns_name n \<in> k_netns (view s)" and mtu: "valid_mtu (ns_mtu n)"
    and dist: "distinct (ns_address n)"
  shows "moves view (apply_wireguard E n) s (spec_wireguard (lib E) mtu0 n (view s))"
proof -
  let ?k = "wg_key n" and ?cfg = "network_to_config (lib E) n"
  define K1 where "K1 = ensure_if ?k (fresh_if mtu0 None) (view s)"
  define K2 where "K2 = upd_if ?k (\<lambda>i. i\<lparr>if_mtu := ns_mtu n\<rparr>) K1"
  define K3 where "K3 = spec_up ?k K2"
  define K4 where "K4 = K3\<lparr>k_nsfiles := (k_nsfiles K3)((netns_name n, wg_path n) \<mapsto> ?cfg)\<rparr>"
  define K5 where "K5 = spec_addrs ?k (ns_address n) K4"
  note defs = K1_def K2_def K3_def K4_def K5_def spec_if_defs
  obtain i where i: "k_ifs K1 ?k = Some i" by (cases "k_ifs (view s) ?k") (auto simp: K1_def)
  have ks: "k_ifs K2 ?k \<noteq> None" "k_ifs K4 ?k \<noteq> None" "k_ifs K5 ?k \<noteq> None"
    using i by (simp_all add: K2_def K3_def K4_def K5_def spec_if_defs)
  have ns3: "netns_name n \<in> k_netns K3" using ns by (simp add: defs)
  have m1: "moves view (bind_io (wireguard_exists E (netns_name n) (wgif_name n)) (\<lambda>exists.
      when_io (\<not> exists) (wireguard_create E (Some (netns_name n)) (wgif_name n)))) s K1"
    unfolding K1_def by (rule wireguard_ensure_moves [OF ns])
  have m2: "moves view (when_io (if_mtu i \<noteq> ns_mtu n)
      (interface_mtu E (Some (netns_name n)) (wgif_name n) (ns_mtu n))) t K2" if "view t = K1" for t
    using wireguard_mtu_moves [of t n i] i mtu that by (simp add: K2_def)
  have m3: "moves view (context_io ''Setting wireguard interface UP''
      (apply_interface_up E (Some (netns_name n)) (wgif_name n))) t K3" if "view t = K2" for t
    using apply_interface_up_moves [of t "Some (netns_name n)" "wgif_name n"] ks(1) that
    by (intro moves_context) (simp add: K3_def wg_key_def)
  have m4: "moves view (netns_write_file E (netns_name n) (''wireguard/'' @ wgif_name n @ ''.conf'') ?cfg) t K4"
    if "view t = K3" for t
    using law_netns_write_file [of "netns_name n" t "wg_path n" ?cfg] ns3 that
    by (simp add: K4_def wg_path_def)
  have m5: "moves view (context_io ''Applying wireguard interface addresses''
      (apply_addr E (Some (netns_name n)) (wgif_name n) (ns_address n))) t K5" if "view t = K4" for t
    using apply_addr_moves [of t "Some (netns_name n)" "wgif_name n" "ns_address n"] ks(2) dist that
    by (intro moves_context) (simp add: K5_def wg_key_def)
  have "k_nsfiles K5 (netns_name n, wg_path n) = Some ?cfg" by (simp add: K5_def K4_def spec_addrs_def)
  then have m6: "moves view (wireguard_syncconf E (netns_name n) (wgif_name n)) t
      (upd_if ?k (\<lambda>i. i\<lparr>if_conf := Some ?cfg\<rparr>) K5)" if "view t = K5" for t
    using law_wireguard_syncconf [of t "netns_name n" "wgif_name n" ?cfg] ks(3) that
    by (simp add: wg_key_def wg_path_def)
  have show1: "reads view (interface_show E (Some (netns_name n)) (wgif_name n)) t
      \<lparr>info_mtu = Some (if_mtu i), info_is_down = (\<not> if_up i)\<rparr>" if "view t = K1" for t
    using law_interface_show [of t "Some (netns_name n)" "wgif_name n" i] i that by (simp add: wg_key_def)
  have "spec_wireguard (lib E) mtu0 n (view s) = upd_if ?k (\<lambda>i. i\<lparr>if_conf := Some ?cfg\<rparr>) K5"
    by (simp add: spec_wireguard_def K1_def K2_def K3_def K4_def K5_def)
  then show ?thesis
    unfolding apply_wireguard_def Let_def
    by (simp only:) (rule moves_then [OF m1], rule moves_bind [OF show1], assumption,
      rule moves_bind_lift, simp, rule moves_then [OF m2], simp, rule moves_then [OF m3], assumption,
      rule moves_then [OF m4], assumption, rule moves_then [OF m5], assumption, rule m6, assumption)
qed

lemma ensure_veth_moves:
  assumes "netns_name n \<in> k_netns (view s)"
    and "k_ifs (view s) (inner_key n) = None \<Longrightarrow> k_ifs (view s) (outer_key n) = None"
  shows "moves view (bind_io (veth_exists E (netns_name n) (veth_name n)) (\<lambda>exists.
      when_io (\<not> exists) (veth_add E (netns_name n) (veth_name n) (veth_name n)))) s
      (ensure_veth mtu0 n (view s))"
proof (rule moves_bind [OF law_veth_exists [OF assms(1)]], rule moves_when)
  fix s' assume v: "view s' = view s"
  show "\<not> k_ifs (view s) (Some (netns_name n), veth_name n) \<noteq> None \<Longrightarrow>
      moves view (veth_add E (netns_name n) (veth_name n) (veth_name n)) s' (ensure_veth mtu0 n (view s))"
    using law_veth_add [of "netns_name n" s' "veth_name n" "veth_name n"] assms
    by (simp add: v ensure_veth_def inner_key_def outer_key_def)
  show "\<not> \<not> k_ifs (view s) (Some (netns_name n), veth_name n) \<noteq> None \<Longrightarrow>
      ensure_veth mtu0 n (view s) = view s'"
    by (auto simp: v ensure_veth_def inner_key_def)
qed

lemma apply_veth_moves:
  assumes ns: "netns_name n \<in> k_netns (view s)"
    and pair: "k_ifs (view s) (inner_key n) = None \<longleftrightarrow> k_ifs (view s) (outer_key n) = None"
    and bridge: "k_ifs (view s) (None, BRIDGE_INTERFACE) \<noteq> None"
    and addr: "veth_ipv4net (lib E) n = Ok addr"
  shows "moves view (apply_veth E n) s (spec_veth mtu0 (IpNetV4 addr) n (view s))"
proof -
  define K1 where "K1 = ensure_veth mtu0 n (view s)"
  define K2 where "K2 = spec_addrs (inner_key n) [IpNetV4 addr] K1"
  define K3 where "K3 = spec_master (outer_key n) BRIDGE_INTERFACE K2"
  define K4 where "K4 = spec_up (inner_key n) K3"
  note ifs = ensure_veth_ifs [OF pair, of mtu0, folded K1_def]
  have br: "k_ifs K2 (None, BRIDGE_INTERFACE) \<noteq> None"
    using bridge ifs by (auto simp: K2_def K1_def ensure_veth_def spec_addrs_def split: option.splits)
  have m1: "moves view (bind_io (veth_exists E (netns_name n) (veth_name n)) (\<lambda>exists.
      when_io (\<not> exists) (veth_add E (netns_name n) (veth_name n) (veth_name n)))) s K1"
    unfolding K1_def using ns pair by (intro ensure_veth_moves) auto
  have m2: "moves view (context_io ''Applying veth addr''
      (apply_addr E (Some (netns_name n)) (veth_name n) [IpNetV4 addr])) t K2" if "view t = K1" for t
    using apply_addr_moves [of t "Some (netns_name n)" "veth_name n" "[IpNetV4 addr]"] ifs that
    by (intro moves_context) (simp add: K2_def inner_key_def)
  have m3: "moves view (context_io ''Setting veth master''
      (apply_link_master E None (veth_name n) BRIDGE_INTERFACE)) t K3" if "view t = K2" for t
    using apply_link_master_moves [of t None "veth_name n" BRIDGE_INTERFACE] ifs br that
    by (intro moves_context) (simp add: K3_def outer_key_def K2_def spec_addrs_def)
  have m4: "moves view (context_io ''Making inner veth interface UP''
      (apply_interface_up E (Some (netns_name n)) (veth_name n))) t K4" if "view t = K3" for t
    using apply_interface_up_moves [of t "Some (netns_name n)" "veth_name n"] ifs that
    by (intro moves_context) (simp add: K4_def K3_def K2_def spec_if_defs inner_key_def)
  have m5: "moves view (context_io ''Marking outer veth interface UP''
      (apply_interface_up E None (veth_name n))) t (spec_up (outer_key n) K4)" if "view t = K4" for t
    using apply_interface_up_moves [of t None "veth_name n"] ifs that
    by (intro moves_context) (simp add: K4_def K3_def K2_def spec_if_defs outer_key_def)
  have "spec_veth mtu0 (IpNetV4 addr) n (view s) = spec_up (outer_key n) K4"
    by (simp add: spec_veth_def K1_def K2_def K3_def K4_def)
  then show ?thesis
    unfolding apply_veth_def Let_def
    by (simp only:) (rule moves_then [OF m1], rule moves_bind_lift [OF addr],
      rule moves_then [OF m2], assumption, rule moves_then [OF m3], assumption,
      rule moves_then [OF m4], assumption, rule m5, assumption)
qed

lemma apply_forwarding_moves:
  assumes ns: "netns_name n \<in> k_netns (view s)"
    and cfg: "port_config (prof E) n = Ok c" and sf: "render_iptables E c = Ok t"
    and acc: "accepts (clean_iptables (lib E) t)"
  shows "moves view (apply_forwarding E n) s
     (spec_forwarding canon (clean_iptables (lib E) t) n (view s))"
proof -
  let ?sf = "clean_iptables (lib E) t"
  obtain cur where cur: "reads view (iptables_save E (Some (netns_name n))) s cur"
      "clean_iptables (lib E) cur = k_ipt (view s) (netns_name n)"
    using law_iptables_save [OF ns] by blast
  show ?thesis
    unfolding apply_forwarding_def Let_def
  proof (rule moves_bind_lift [OF cfg], rule moves_bind_lift [OF sf], rule moves_bind [OF cur(1)],
      rule moves_when)
    fix s' assume v: "view s' = view s"
    show "?sf \<noteq> clean_iptables (lib E) cur \<Longrightarrow>
        moves view (iptables_restore E (Some (netns_name n)) ?sf) s' (spec_forwarding canon ?sf n (view s))"
      using law_iptables_restore [of "netns_name n" s' ?sf] ns acc cur(2)
      by (simp add: v spec_forwarding_def)
    show "\<not> ?sf \<noteq> clean_iptables (lib E) cur \<Longrightarrow> spec_forwarding canon ?sf n (view s) = view s'"
      using cur(2) by (simp add: v spec_forwarding_def)
  qed
qed

end

end
