(* ===== verification/Gateway_Converge.thy ===== *)
theory Gateway_Converge
  imports Gateway_Refine
begin

text \<open>
  From the single steps to a whole configuration: \<open>spec_system\<close> is what applying a list of networks
  makes of the observable configuration. It removes exactly the surplus namespaces, leaves every
  network fully set up without disturbing another, keeps the pairing of the veth interfaces that
  the next application relies on, and applying it again changes nothing.
\<close>

section \<open>Specification of a whole application\<close>

definition net_savefile :: "'s env \<Rightarrow> network_state \<Rightarrow> string res" where
  "net_savefile E n = bind_res (port_config (prof E) n) (\<lambda>c.
     bind_res (render_iptables E c) (\<lambda>t. Ok (clean_iptables (lib E) t)))"

definition savefile :: "'s env \<Rightarrow> network_state \<Rightarrow> string" where
  "savefile E n = (case net_savefile E n of Ok sf \<Rightarrow> sf | _ \<Rightarrow> [])"

definition veth_addr :: "network_state \<Rightarrow> ip_net" where
  "veth_addr n = IpNetV4 (Ipv4Net (0xAC630000 + ucast (ns_listen_port n)) 16)"

definition bridge_addr :: ip_net where
  "bridge_addr = IpNetV4 (Ipv4Net 0xAC630001 16)"

text \<open>A network the system can carry out: the conditions the operations themselves check.\<close>

definition net_valid :: "'s env \<Rightarrow> (string \<Rightarrow> bool) \<Rightarrow> network_state \<Rightarrow> bool" where
  "net_valid E accepts n \<longleftrightarrow> distinct (ns_address n) \<and> valid_mtu (ns_mtu n) \<and>
     (\<exists>sf. net_savefile E n = Ok sf \<and> accepts sf)"

definition spec_network ::
  "'s env \<Rightarrow> usize \<Rightarrow> string \<Rightarrow> (string \<Rightarrow> string) \<Rightarrow> network_state \<Rightarrow> kern \<Rightarrow> kern" where
  "spec_network E mtu0 ipt0 canon n K =
     spec_forwarding canon (savefile E n) n (spec_veth mtu0 (veth_addr n) n
       (spec_wireguard (lib E) mtu0 n (spec_netns ipt0 (netns_name n) K)))"

definition drop_set :: "string set \<Rightarrow> (string option \<times> string \<Rightarrow> iface option) \<Rightarrow>
    string option \<times> string \<Rightarrow> iface option" where
  "drop_set D ifs k = (case ifs k of
      None \<Rightarrow> None
    | Some i \<Rightarrow> if (\<exists>ns \<in> D. fst k = Some ns \<or> (\<exists>nm. if_peer i = Some (Some ns, nm)))
                then None else Some i)"

definition spec_del_set :: "string set \<Rightarrow> kern \<Rightarrow> kern" where
  "spec_del_set D K = K\<lparr>k_netns := k_netns K - D, k_ifs := drop_set D (k_ifs K)\<rparr>"

definition spec_nginx :: "string \<Rightarrow> string \<Rightarrow> kern \<Rightarrow> kern" where
  "spec_nginx m st K = K\<lparr>k_files := (k_files K)(NGINX_MODULE_PATH \<mapsto> m, NGINX_SITE_PATH \<mapsto> st),
     k_nginx := (Some m, Some st)\<rparr>"

definition surplus :: "network_state list \<Rightarrow> kern \<Rightarrow> string set" where
  "surplus networks K =
     {ns \<in> k_netns K. starts_with NETNS_PREFIX ns \<and> ns \<notin> netns_name ` set networks}"

definition spec_networks ::
  "'s env \<Rightarrow> usize \<Rightarrow> string \<Rightarrow> (string \<Rightarrow> string) \<Rightarrow> network_state list \<Rightarrow> kern \<Rightarrow> kern" where
  "spec_networks E mtu0 ipt0 canon networks K =
     fold (spec_network E mtu0 ipt0 canon) networks
       (spec_del_set (surplus networks K) (spec_bridge mtu0 [bridge_addr] K))"

section \<open>Pairing of the veth interfaces\<close>

definition peers :: "kern \<Rightarrow> string option \<times> string \<Rightarrow> (string option \<times> string) option option" where
  "peers K k = map_option if_peer (k_ifs K k)"

text \<open>
  For every port the outer veth interface exists exactly when the inner one does, and each is the
  other's peer; the bridge, if it exists, is nobody's peer.
\<close>

definition pair_at :: "kern \<Rightarrow> network_state \<Rightarrow> bool" where
  "pair_at K n \<longleftrightarrow>
     (peers K (outer_key n) = None \<and> peers K (inner_key n) = None) \<or>
     (peers K (outer_key n) = Some (Some (inner_key n)) \<and>
      peers K (inner_key n) = Some (Some (outer_key n)))"

definition veth_paired :: "kern \<Rightarrow> bool" where
  "veth_paired K \<longleftrightarrow> (\<forall>n. pair_at K n) \<and>
     (peers K (None, BRIDGE_INTERFACE) = None \<or> peers K (None, BRIDGE_INTERFACE) = Some None)"

definition bridge_ready :: "kern \<Rightarrow> bool" where
  "bridge_ready K \<longleftrightarrow> k_ifs K (None, BRIDGE_INTERFACE) \<noteq> None"

lemma bridge_key_neq [simp]:
  "outer_key n \<noteq> (None, BRIDGE_INTERFACE)" "inner_key n \<noteq> (None, BRIDGE_INTERFACE)"
  "wg_key n \<noteq> (None, BRIDGE_INTERFACE)" "(None, BRIDGE_INTERFACE) \<noteq> outer_key n"
  "(None, BRIDGE_INTERFACE) \<noteq> inner_key n" "(None, BRIDGE_INTERFACE) \<noteq> wg_key n"
  by (simp_all add: outer_key_def inner_key_def wg_key_def veth_name_def VETH_PREFIX_def
      BRIDGE_INTERFACE_def)

lemma key_inject [simp]:
  "outer_key n = outer_key m \<longleftrightarrow> ns_listen_port n = ns_listen_port m"
  "inner_key n = inner_key m \<longleftrightarrow> ns_listen_port n = ns_listen_port m"
  "wg_key n = wg_key m \<longleftrightarrow> ns_listen_port n = ns_listen_port m"
  by (auto simp: outer_key_def inner_key_def wg_key_def)

lemma peers_upd_if [simp]: "(\<And>i. if_peer (f i) = if_peer i) \<Longrightarrow> peers (upd_if k f K) = peers K"
  by (auto simp: peers_def fun_eq_iff option.map_comp comp_def)

lemma peers_cong: "k_ifs K = k_ifs K' \<Longrightarrow> peers K = peers K'"
  by (simp add: peers_def fun_eq_iff)

lemma peers_ensure_if:
  "peers (ensure_if k i K) = (if k_ifs K k = None then (peers K)(k := Some (if_peer i)) else peers K)"
  by (auto simp: peers_def fun_eq_iff)

lemma peers_spec_netns [simp]: "peers (spec_netns ipt0 ns K) = peers K"
  by (simp add: spec_netns_def peers_def fun_eq_iff)

lemma peers_spec_forwarding [simp]: "peers (spec_forwarding canon sf n K) = peers K"
  by (simp add: spec_forwarding_def peers_def fun_eq_iff)

lemma peers_spec_if [simp]:
  "peers (spec_addrs k as K) = peers K" "peers (spec_up k K) = peers K" "peers (spec_master k m K) = peers K"
  by (simp_all add: spec_if_defs)

lemma peers_spec_wireguard [simp]:
  "k \<noteq> wg_key n \<Longrightarrow> peers (spec_wireguard L mtu0 n K) k = peers K k"
  by (simp add: spec_wireguard_def peers_cong [of "K\<lparr>k_nsfiles := _\<rparr>" K] peers_def spec_if_defs)

lemma peers_spec_veth:
  "peers (spec_veth mtu0 a n K) k =
     (if k_ifs K (inner_key n) = None \<and> k = inner_key n then Some (Some (outer_key n))
      else if k_ifs K (inner_key n) = None \<and> k = outer_key n then Some (Some (inner_key n))
      else peers K k)"
  by (auto simp: spec_veth_def ensure_veth_def peers_def fresh_if_def spec_if_defs split: option.splits)

lemma veth_paired_bridge: "veth_paired K \<Longrightarrow> veth_paired (spec_bridge mtu0 as K) \<and> bridge_ready (spec_bridge mtu0 as K)"
  by (auto simp: veth_paired_def pair_at_def bridge_ready_def spec_bridge_def peers_ensure_if
      fresh_if_def spec_if_defs)

lemma veth_paired_network:
  assumes "veth_paired K"
  shows "veth_paired (spec_network E mtu0 ipt0 canon n K)"
proof -
  have none: "k_ifs K (inner_key m) = None \<longleftrightarrow> peers K (inner_key m) = None" for m
    by (simp add: peers_def)
  have ifs: "k_ifs (spec_wireguard (lib E) mtu0 n (spec_netns ipt0 (netns_name n) K)) (inner_key n) = None
      \<longleftrightarrow> peers K (inner_key n) = None"
    by (simp add: peers_def spec_wireguard_def spec_if_defs spec_netns_def)
  have pn: "peers (spec_network E mtu0 ipt0 canon n K) (inner_key m) =
      (if peers K (inner_key n) = None \<and> ns_listen_port m = ns_listen_port n
       then Some (Some (outer_key n)) else peers K (inner_key m))" for m
    by (simp add: spec_network_def peers_spec_veth ifs)
  have po: "peers (spec_network E mtu0 ipt0 canon n K) (outer_key m) =
      (if peers K (inner_key n) = None \<and> ns_listen_port m = ns_listen_port n
       then Some (Some (inner_key n)) else peers K (outer_key m))" for m
    by (simp add: spec_network_def peers_spec_veth ifs)
  have pb: "peers (spec_network E mtu0 ipt0 canon n K) (None, BRIDGE_INTERFACE) =
      peers K (None, BRIDGE_INTERFACE)"
    by (simp add: spec_network_def peers_spec_veth)
  have "pair_at (spec_network E mtu0 ipt0 canon n K) m" for m
  proof (cases "peers K (inner_key n) = None \<and> ns_listen_port m = ns_listen_port n")
    case True
    then have keys: "inner_key m = inner_key n" "outer_key m = outer_key n" by simp_all
    have "pair_at (spec_network E mtu0 ipt0 canon n K) n"
      using True pn [of n] po [of n] by (simp add: pair_at_def)
    then show ?thesis by (simp only: pair_at_def keys)
  next
    case False
    with assms show ?thesis by (auto simp: veth_paired_def pair_at_def pn po)
  qed
  with assms show ?thesis by (simp add: veth_paired_def pb)
qed

lemma bridge_ready_network: "bridge_ready K \<Longrightarrow> bridge_ready (spec_network E mtu0 ipt0 canon n K)"
proof -
  assume "bridge_ready K"
  moreover have "peers (spec_network E mtu0 ipt0 canon n K) (None, BRIDGE_INTERFACE) =
      peers K (None, BRIDGE_INTERFACE)"
    by (simp add: spec_network_def peers_spec_veth)
  ultimately show ?thesis by (auto simp: bridge_ready_def peers_def)
qed

lemma peers_spec_del_set:
  "peers (spec_del_set D K) k = (case peers K k of
      None \<Rightarrow> None
    | Some pr \<Rightarrow> if (\<exists>ns \<in> D. fst k = Some ns \<or> (\<exists>nm. pr = Some (Some ns, nm))) then None else Some pr)"
  by (simp add: peers_def spec_del_set_def drop_set_def split: option.splits)

lemma veth_paired_del_set:
  assumes "veth_paired K"
  shows "veth_paired (spec_del_set D K)"
proof -
  have "pair_at (spec_del_set D K) n" for n
  proof -
    have "pair_at K n" using assms by (simp add: veth_paired_def)
    then show ?thesis
      unfolding pair_at_def
      by (auto simp: peers_spec_del_set inner_key_def outer_key_def split: if_splits)
  qed
  moreover have "peers (spec_del_set D K) (None, BRIDGE_INTERFACE) = peers K (None, BRIDGE_INTERFACE)"
    using assms by (auto simp: veth_paired_def peers_spec_del_set)
  ultimately show ?thesis using assms by (simp add: veth_paired_def)
qed

lemma bridge_ready_del_set:
  assumes "veth_paired K" and "bridge_ready K"
  shows "bridge_ready (spec_del_set D K)"
proof -
  have "peers K (None, BRIDGE_INTERFACE) = Some None"
    using assms by (auto simp: veth_paired_def bridge_ready_def peers_def)
  then have "peers (spec_del_set D K) (None, BRIDGE_INTERFACE) = Some None"
    by (simp add: peers_spec_del_set)
  then show ?thesis by (auto simp: bridge_ready_def peers_def)
qed

section \<open>Deleting namespaces\<close>

lemma spec_del_eq: "spec_del ns K = spec_del_set {ns} K"
proof -
  have "drop_ns ns (k_ifs K) = drop_set {ns} (k_ifs K)"
    by (auto simp: fun_eq_iff drop_ns_def drop_set_def split: option.splits)
  then show ?thesis by (simp add: spec_del_def spec_del_set_def)
qed

lemma drop_set_union: "drop_set A (drop_set B ifs) = drop_set (B \<union> A) ifs"
  by (auto simp: fun_eq_iff drop_set_def split: option.splits)

lemma drop_set_empty: "drop_set {} ifs = ifs"
  by (auto simp: fun_eq_iff drop_set_def split: option.splits)

lemma spec_del_set_union: "spec_del_set A (spec_del_set B K) = spec_del_set (B \<union> A) K"
  by (simp add: spec_del_set_def drop_set_union Diff_eq Int_assoc)

lemma spec_del_set_empty [simp]: "spec_del_set {} K = K"
  by (simp add: spec_del_set_def drop_set_empty)

context linux
begin

lemma del_loop_moves:
  assumes "distinct xs" and "set xs \<subseteq> k_netns (view s)"
  shows "moves view (for_io xs (\<lambda>ns. when_io (starts_with NETNS_PREFIX ns)
      (context_io c (netns_del E ns)))) s
      (spec_del_set {ns \<in> set xs. starts_with NETNS_PREFIX ns} (view s))"
  using assms
proof (induction xs arbitrary: s)
  case Nil
  then show ?case by (simp add: moves_ret)
next
  case (Cons x xs)
  let ?D = "{ns. ns = x \<and> starts_with NETNS_PREFIX ns}"
  have one: "moves view (when_io (starts_with NETNS_PREFIX x) (context_io c (netns_del E x))) s
      (spec_del_set ?D (view s))"
  proof (rule moves_when)
    assume p: "starts_with NETNS_PREFIX x"
    then have "?D = {x}" by auto
    then show "moves view (context_io c (netns_del E x)) s (spec_del_set ?D (view s))"
      using law_netns_del [of x s] Cons.prems
      by (intro moves_context) (simp add: spec_del_eq [symmetric] spec_del_def)
  next
    assume "\<not> starts_with NETNS_PREFIX x"
    then have D: "?D = {}" by auto
    show "spec_del_set ?D (view s) = view s" unfolding D by (rule spec_del_set_empty)
  qed
  show ?case
    unfolding for_io.simps
  proof (rule moves_then [OF one])
    fix s' assume v: "view s' = spec_del_set ?D (view s)"
    have "set xs \<subseteq> k_netns (view s')" using Cons.prems by (auto simp: v spec_del_set_def)
    then have "moves view (for_io xs (\<lambda>ns. when_io (starts_with NETNS_PREFIX ns)
        (context_io c (netns_del E ns)))) s'
        (spec_del_set {ns \<in> set xs. starts_with NETNS_PREFIX ns} (view s'))"
      using Cons by simp
    moreover have "?D \<union> {ns \<in> set xs. starts_with NETNS_PREFIX ns} =
        {ns \<in> set (x # xs). starts_with NETNS_PREFIX ns}" by auto
    ultimately show "moves view (for_io xs (\<lambda>ns. when_io (starts_with NETNS_PREFIX ns)
        (context_io c (netns_del E ns)))) s'
        (spec_del_set {ns \<in> set (x # xs). starts_with NETNS_PREFIX ns} (view s))"
      by (simp add: v spec_del_set_union)
  qed
qed

end

section \<open>A network is set up\<close>

text \<open>
  \<open>network_applied\<close> is the target of \<open>apply_network\<close>, read off the observable configuration; the rule
  text in force is the rendered one or the form in which the kernel prints it back.
\<close>

definition network_applied :: "'s env \<Rightarrow> (string \<Rightarrow> string) \<Rightarrow> network_state \<Rightarrow> kern \<Rightarrow> bool" where
  "network_applied E canon n K \<longleftrightarrow>
     netns_name n \<in> k_netns K \<and>
     (\<exists>i. k_ifs K (wg_key n) = Some i \<and> if_mtu i = ns_mtu n \<and> if_up i \<and>
        set (ns_address n) \<subseteq> if_addrs i \<and> if_conf i = Some (network_to_config (lib E) n)) \<and>
     k_nsfiles K (netns_name n, wg_path n) = Some (network_to_config (lib E) n) \<and>
     (\<exists>i. k_ifs K (inner_key n) = Some i \<and> if_up i \<and> veth_addr n \<in> if_addrs i) \<and>
     (\<exists>i. k_ifs K (outer_key n) = Some i \<and> if_up i \<and> if_master i = Some BRIDGE_INTERFACE) \<and>
     k_ipt K (netns_name n) \<in> {savefile E n, canon (savefile E n)}"

lemma spec_network_frame:
  "k_netns (spec_network E mtu0 ipt0 canon n K) = insert (netns_name n) (k_netns K)"
  "k_files (spec_network E mtu0 ipt0 canon n K) = k_files K"
  "k_nginx (spec_network E mtu0 ipt0 canon n K) = k_nginx K"
  "ns \<noteq> netns_name n \<Longrightarrow> k_ipt (spec_network E mtu0 ipt0 canon n K) ns = k_ipt K ns"
  "fst f \<noteq> netns_name n \<Longrightarrow> k_nsfiles (spec_network E mtu0 ipt0 canon n K) f = k_nsfiles K f"
  "k \<notin> {wg_key n, inner_key n, outer_key n} \<Longrightarrow>
     k_ifs (spec_network E mtu0 ipt0 canon n K) k = k_ifs K k"
  by (auto simp: spec_network_def spec_forwarding_def spec_veth_def spec_wireguard_def spec_netns_def
      ensure_veth_def spec_if_defs split: option.splits)

lemma network_applied_other:
  assumes "network_applied E canon m K" and "ns_listen_port m \<noteq> ns_listen_port n"
  shows "network_applied E canon m (spec_network E mtu0 ipt0 canon n K)"
proof -
  have "k_ifs (spec_network E mtu0 ipt0 canon n K) k = k_ifs K k"
    if "k \<in> {wg_key m, inner_key m, outer_key m}" for k
    using that assms(2) by (intro spec_network_frame(6)) auto
  with assms show ?thesis by (simp add: network_applied_def spec_network_frame)
qed

lemma network_applied_self:
  assumes "veth_paired K"
  shows "network_applied E canon n (spec_network E mtu0 ipt0 canon n K)"
proof -
  let ?K1 = "spec_wireguard (lib E) mtu0 n (spec_netns ipt0 (netns_name n) K)"
  have "k_ifs ?K1 (inner_key n) = k_ifs K (inner_key n)" "k_ifs ?K1 (outer_key n) = k_ifs K (outer_key n)"
    by (auto simp: spec_wireguard_def spec_netns_def spec_if_defs)
  moreover have "k_ifs K (inner_key n) = None \<longleftrightarrow> k_ifs K (outer_key n) = None"
    using assms by (auto simp: veth_paired_def pair_at_def peers_def dest: spec [of _ n])
  ultimately obtain i j where ij: "k_ifs (ensure_veth mtu0 n ?K1) (inner_key n) = Some i"
      "k_ifs (ensure_veth mtu0 n ?K1) (outer_key n) = Some j"
    using ensure_veth_ifs [of ?K1 n mtu0] by auto
  have wg: "k_ifs (ensure_veth mtu0 n ?K1) (wg_key n) = k_ifs ?K1 (wg_key n)"
    by (simp add: ensure_veth_def split: option.splits)
  obtain w where w: "k_ifs (ensure_if (wg_key n) (fresh_if mtu0 None)
      (spec_netns ipt0 (netns_name n) K)) (wg_key n) = Some w"
    by (cases "k_ifs (spec_netns ipt0 (netns_name n) K) (wg_key n)") auto
  have fr: "k_netns (ensure_veth mtu0 n ?K1) = k_netns ?K1" "k_nsfiles (ensure_veth mtu0 n ?K1) = k_nsfiles ?K1"
    by (simp_all add: ensure_veth_def split: option.splits)
  have nk: "netns_name n \<in> k_netns ?K1" by (simp add: spec_wireguard_def spec_netns_def spec_if_defs)
  show ?thesis
    unfolding network_applied_def spec_network_def spec_forwarding_def spec_veth_def spec_if_defs
    using ij w nk by (simp add: wg fr) (simp add: spec_wireguard_def spec_if_defs)
qed

text \<open>Applying a network that is set up changes nothing.\<close>

lemma spec_network_fix:
  assumes "network_applied E canon n K"
  shows "spec_network E mtu0 ipt0 canon n K = K"
proof -
  from assms obtain w i j where ns: "netns_name n \<in> k_netns K"
    and w: "k_ifs K (wg_key n) = Some w" "if_mtu w = ns_mtu n" "if_up w"
      "set (ns_address n) \<subseteq> if_addrs w" "if_conf w = Some (network_to_config (lib E) n)"
    and fl: "k_nsfiles K (netns_name n, wg_path n) = Some (network_to_config (lib E) n)"
    and i: "k_ifs K (inner_key n) = Some i" "if_up i" "veth_addr n \<in> if_addrs i"
    and j: "k_ifs K (outer_key n) = Some j" "if_up j" "if_master j = Some BRIDGE_INTERFACE"
    and ipt: "k_ipt K (netns_name n) \<in> {savefile E n, canon (savefile E n)}"
    by (auto simp: network_applied_def)
  have "spec_wireguard (lib E) mtu0 n K = K"
    using w fl by (simp add: spec_wireguard_def spec_if_defs ensure_if_def upd_if_id Un_absorb2 fun_upd_idem)
  moreover have "spec_veth mtu0 (veth_addr n) n K = K"
    using i j by (simp add: spec_veth_def spec_if_defs ensure_veth_def upd_if_id insert_absorb)
  moreover have "spec_forwarding canon (savefile E n) n K = K"
    using ipt by (auto simp: spec_forwarding_def fun_upd_idem_iff)
  ultimately show ?thesis using ns by (simp add: spec_network_def spec_netns_def)
qed

section \<open>The whole application\<close>

definition nginx_config :: "'s env \<Rightarrow> network_state list \<Rightarrow> (string \<times> string) res" where
  "nginx_config E networks =
     bind_res (build_forwarding (lib E) (prof E) networks (opt_custom_forwarding (opts E))) (\<lambda>f.
     bind_res (render_nginx E f) (\<lambda>m. bind_res (render_sites E f) (\<lambda>st. Ok (m, st))))"

text \<open>All networks of a list set up, no other namespace of the gateway left, NGINX on its files.\<close>

definition all_applied ::
  "'s env \<Rightarrow> (string \<Rightarrow> string) \<Rightarrow> string \<Rightarrow> string \<Rightarrow> network_state list \<Rightarrow> kern \<Rightarrow> bool" where
  "all_applied E canon m st networks K \<longleftrightarrow>
     (\<forall>n \<in> set networks. network_applied E canon n K) \<and>
     {ns \<in> k_netns K. starts_with NETNS_PREFIX ns} = netns_name ` set networks \<and>
     (\<exists>i. k_ifs K (None, BRIDGE_INTERFACE) = Some i \<and> if_up i \<and> bridge_addr \<in> if_addrs i) \<and>
     k_files K NGINX_MODULE_PATH = Some m \<and> k_files K NGINX_SITE_PATH = Some st \<and>
     k_nginx K = (Some m, Some st)"

lemma paths_distinct [simp]: "NGINX_MODULE_PATH \<noteq> NGINX_SITE_PATH" "NGINX_SITE_PATH \<noteq> NGINX_MODULE_PATH"
  by (simp_all add: NGINX_MODULE_PATH_def NGINX_SITE_PATH_def)

lemma fold_network_frame:
  "k_netns (fold (spec_network E mtu0 ipt0 canon) ns K) = k_netns K \<union> netns_name ` set ns"
  "k_files (fold (spec_network E mtu0 ipt0 canon) ns K) = k_files K"
  "k_nginx (fold (spec_network E mtu0 ipt0 canon) ns K) = k_nginx K"
  "k_ifs (fold (spec_network E mtu0 ipt0 canon) ns K) (None, BRIDGE_INTERFACE) =
     k_ifs K (None, BRIDGE_INTERFACE)"
  "veth_paired K \<Longrightarrow> veth_paired (fold (spec_network E mtu0 ipt0 canon) ns K)"
  by (induction ns arbitrary: K) (auto simp: spec_network_frame veth_paired_network)

lemma fold_network_keeps:
  "network_applied E canon m K \<Longrightarrow> ns_listen_port m \<notin> ns_listen_port ` set ns \<Longrightarrow>
   network_applied E canon m (fold (spec_network E mtu0 ipt0 canon) ns K)"
  by (induction ns arbitrary: K) (auto simp: network_applied_other)

lemma fold_network_applied:
  assumes "veth_paired K" and "distinct (map ns_listen_port ns)"
  shows "\<forall>n \<in> set ns. network_applied E canon n (fold (spec_network E mtu0 ipt0 canon) ns K)"
  using assms
proof (induction ns arbitrary: K)
  case (Cons n ns)
  have "network_applied E canon n (spec_network E mtu0 ipt0 canon n K)"
    using Cons.prems by (intro network_applied_self) simp
  then have "network_applied E canon n (fold (spec_network E mtu0 ipt0 canon) ns
      (spec_network E mtu0 ipt0 canon n K))"
    using Cons.prems by (intro fold_network_keeps) auto
  moreover have "\<forall>m \<in> set ns. network_applied E canon m
      (fold (spec_network E mtu0 ipt0 canon) ns (spec_network E mtu0 ipt0 canon n K))"
    using Cons.prems by (intro Cons.IH veth_paired_network) simp_all
  ultimately show ?case by simp
qed simp

lemma fold_network_fix:
  "\<forall>n \<in> set ns. network_applied E canon n K \<Longrightarrow> fold (spec_network E mtu0 ipt0 canon) ns K = K"
  by (induction ns) (auto simp: spec_network_fix)

lemma network_applied_nginx [simp]:
  "network_applied E canon n (spec_nginx m st K) \<longleftrightarrow> network_applied E canon n K"
  by (simp add: network_applied_def spec_nginx_def)

lemma veth_paired_nginx [simp]: "veth_paired (spec_nginx m st K) \<longleftrightarrow> veth_paired K"
  by (simp add: veth_paired_def pair_at_def peers_def spec_nginx_def)

lemma spec_bridge_ifs:
  "\<exists>i. k_ifs (spec_bridge mtu0 as K) (None, BRIDGE_INTERFACE) = Some i \<and> if_up i \<and> set as \<subseteq> if_addrs i"
  by (cases "k_ifs K (None, BRIDGE_INTERFACE)") (auto simp: spec_bridge_def spec_if_defs)

lemma spec_bridge_frame: "k_netns (spec_bridge mtu0 as K) = k_netns K"
  by (simp add: spec_bridge_def spec_if_defs)

lemma spec_bridge_fix:
  "k_ifs K (None, BRIDGE_INTERFACE) = Some i \<Longrightarrow> if_up i \<Longrightarrow> set as \<subseteq> if_addrs i \<Longrightarrow> spec_bridge mtu0 as K = K"
  by (simp add: spec_bridge_def spec_if_defs ensure_if_def upd_if_id Un_absorb2)

lemma bridge_del_set:
  assumes "veth_paired K"
  shows "k_ifs (spec_del_set D K) (None, BRIDGE_INTERFACE) = k_ifs K (None, BRIDGE_INTERFACE)"
  using assms
  by (auto simp: veth_paired_def peers_def spec_del_set_def drop_set_def split: option.splits)

lemma all_applied_spec:
  assumes paired: "veth_paired K" and ports: "distinct (map ns_listen_port networks)"
  shows "all_applied E canon m st networks
     (spec_nginx m st (spec_networks E mtu0 ipt0 canon networks K))"
proof -
  let ?B = "spec_bridge mtu0 [bridge_addr] K"
  let ?D = "spec_del_set (surplus networks K) ?B"
  have pB: "veth_paired ?B" and pD: "veth_paired ?D"
    using veth_paired_bridge [OF paired] veth_paired_del_set by auto
  have "\<forall>n \<in> set networks. network_applied E canon n (spec_networks E mtu0 ipt0 canon networks K)"
    unfolding spec_networks_def using pD ports by (rule fold_network_applied)
  moreover have "{ns \<in> k_netns (spec_networks E mtu0 ipt0 canon networks K). starts_with NETNS_PREFIX ns} =
      netns_name ` set networks"
    by (auto simp: spec_networks_def fold_network_frame spec_del_set_def spec_bridge_frame surplus_def)
  moreover have "k_ifs (spec_networks E mtu0 ipt0 canon networks K) (None, BRIDGE_INTERFACE) =
      k_ifs ?B (None, BRIDGE_INTERFACE)"
    unfolding spec_networks_def by (simp add: fold_network_frame bridge_del_set [OF pB])
  moreover obtain i where "k_ifs ?B (None, BRIDGE_INTERFACE) = Some i" "if_up i" "bridge_addr \<in> if_addrs i"
    using spec_bridge_ifs [of mtu0 "[bridge_addr]" K] by auto
  ultimately show ?thesis by (auto simp: all_applied_def) (auto simp: spec_nginx_def)
qed

lemma spec_fix:
  assumes "all_applied E canon m st networks K"
  shows "spec_nginx m st (spec_networks E mtu0 ipt0 canon networks K) = K"
proof -
  from assms have "surplus networks K = {}" by (auto simp: all_applied_def surplus_def)
  moreover have "spec_bridge mtu0 [bridge_addr] K = K"
    using assms by (auto simp: all_applied_def intro: spec_bridge_fix)
  moreover have "fold (spec_network E mtu0 ipt0 canon) networks K = K"
    using assms by (intro fold_network_fix) (simp add: all_applied_def)
  ultimately have "spec_networks E mtu0 ipt0 canon networks K = K" by (simp add: spec_networks_def)
  with assms show ?thesis by (simp add: spec_nginx_def all_applied_def fun_upd_idem)
qed

lemma networks_of_ports: "map ns_listen_port (networks_of config) = bt_keys config"
  by (simp add: networks_of_def bt_keys_def case_prod_unfold comp_def)

lemma networks_of_distinct: "distinct (map ns_listen_port (networks_of config))"
  by (simp add: networks_of_ports bt_keys_distinct)

end
