(* ===== verification/Gateway_Apply.thy ===== *)
theory Gateway_Apply
  imports Gateway_Converge
begin

text \<open>
  The handlers \<open>apply\<close> and \<open>apply_partial\<close> against the specification of the previous theory, and
  what they do to the stored configuration on every path.
\<close>

section \<open>Applying networks on a lawful system\<close>

locale gateway_system =
  linux E view mtu0 ipt0 canon accepts nginx_ok + fwd_net_laws "lib E" + hash_laws "lib E"
  for E :: "'s env" and view :: "'s \<Rightarrow> kern" and mtu0 :: usize and ipt0 :: string
    and canon :: "string \<Rightarrow> string" and accepts :: "string \<Rightarrow> bool"
    and nginx_ok :: "string option \<times> string option \<Rightarrow> bool"
begin

lemma apply_network_moves:
  assumes valid: "net_valid E accepts n" and paired: "veth_paired (view s)"
    and bridge: "bridge_ready (view s)"
  shows "moves view (apply_network E n) s (spec_network E mtu0 ipt0 canon n (view s))"
proof -
  define K1 where "K1 = spec_netns ipt0 (netns_name n) (view s)"
  define K2 where "K2 = spec_wireguard (lib E) mtu0 n K1"
  define K3 where "K3 = spec_veth mtu0 (veth_addr n) n K2"
  obtain c t where c: "port_config (prof E) n = Ok c" and t: "render_iptables E c = Ok t"
    and sf: "savefile E n = clean_iptables (lib E) t" and acc: "accepts (clean_iptables (lib E) t)"
    using valid by (auto simp: net_valid_def net_savefile_def savefile_def bind_res_Ok_iff)
  have ns1: "netns_name n \<in> k_netns K1" by (simp add: K1_def spec_netns_def)
  have ns2: "netns_name n \<in> k_netns K2" using ns1 by (simp add: K2_def spec_wireguard_def spec_if_defs)
  have ns3: "netns_name n \<in> k_netns K3"
    using ns2 by (simp add: K3_def spec_veth_def spec_if_defs ensure_veth_def split: option.splits)
  have same: "k_ifs K2 k = k_ifs (view s) k" if "k \<noteq> wg_key n" for k
    using that by (simp add: K2_def K1_def spec_wireguard_def spec_netns_def spec_if_defs)
  have pair: "k_ifs K2 (inner_key n) = None \<longleftrightarrow> k_ifs K2 (outer_key n) = None"
    using paired by (auto simp: same veth_paired_def pair_at_def peers_def dest: spec [of _ n])
  have br: "k_ifs K2 (None, BRIDGE_INTERFACE) \<noteq> None" using bridge by (simp add: same bridge_ready_def)
  have m1: "moves view (apply_netns E n) s K1" unfolding K1_def by (rule apply_netns_moves)
  have m2: "moves view (apply_wireguard E n) u K2" if "view u = K1" for u
    using apply_wireguard_moves [of n u] ns1 valid that by (simp add: K2_def net_valid_def)
  have m3: "moves view (apply_veth E n) u K3" if "view u = K2" for u
    using apply_veth_moves [of n u "Ipv4Net (0xAC630000 + ucast (ns_listen_port n)) 16"] ns2 pair br that
    by (simp add: K3_def veth_ipv4net_eq veth_addr_def)
  have m4: "moves view (apply_forwarding E n) u (spec_forwarding canon (savefile E n) n K3)"
    if "view u = K3" for u
    using apply_forwarding_moves [of n u c t] ns3 c t acc that by (simp add: sf)
  have "spec_network E mtu0 ipt0 canon n (view s) = spec_forwarding canon (savefile E n) n K3"
    by (simp add: spec_network_def K1_def K2_def K3_def)
  then show ?thesis
    unfolding apply_network_def
    by (simp only:) (rule moves_then [OF m1], rule moves_then [OF m2], assumption,
      rule moves_then [OF m3], assumption, rule m4, assumption)
qed

text \<open>
  A network without an address is set up as far as its veth interfaces and then panics: the packet
  filter's context takes the first address with \<open>unwrap\<close>.
\<close>

lemma apply_network_panics:
  assumes none: "ns_address n = []" and mtu: "valid_mtu (ns_mtu n)" and paired: "veth_paired (view s)"
    and bridge: "bridge_ready (view s)"
  shows "fst (apply_network E n s) = Panic"
proof -
  define K1 where "K1 = spec_netns ipt0 (netns_name n) (view s)"
  define K2 where "K2 = spec_wireguard (lib E) mtu0 n K1"
  have ns: "netns_name n \<in> k_netns K1" "netns_name n \<in> k_netns K2"
    by (simp_all add: K2_def K1_def spec_wireguard_def spec_if_defs spec_netns_def)
  have same: "k_ifs K2 k = k_ifs (view s) k" if "k \<noteq> wg_key n" for k
    using that by (simp add: K2_def K1_def spec_wireguard_def spec_netns_def spec_if_defs)
  have pair: "k_ifs K2 (inner_key n) = None \<longleftrightarrow> k_ifs K2 (outer_key n) = None"
    using paired by (auto simp: same veth_paired_def pair_at_def peers_def dest: spec [of _ n])
  have br: "k_ifs K2 (None, BRIDGE_INTERFACE) \<noteq> None" using bridge by (simp add: same bridge_ready_def)
  obtain s1 where s1: "apply_netns E n s = (Ok (), s1)" "view s1 = K1"
    using apply_netns_moves [of n s] by (auto simp: moves_def K1_def)
  obtain s2 where s2: "apply_wireguard E n s1 = (Ok (), s2)" "view s2 = K2"
    using apply_wireguard_moves [of n s1] ns mtu none s1 by (auto simp: moves_def K2_def)
  obtain s3 where s3: "apply_veth E n s2 = (Ok (), s3)"
    using apply_veth_moves [of n s2 "Ipv4Net (0xAC630000 + ucast (ns_listen_port n)) 16"] ns pair br s2
    by (auto simp: moves_def veth_ipv4net_eq)
  show ?thesis
    using s1 s2 s3 none
    by (simp add: apply_network_def apply_forwarding_def port_config_def then_io_def bind_io_def run_simps Let_def)
qed

lemma apply_networks_moves:
  assumes "\<forall>n \<in> set networks. net_valid E accepts n" and "veth_paired (view s)" and "bridge_ready (view s)"
  shows "moves view (for_io networks (apply_network E)) s
     (fold (spec_network E mtu0 ipt0 canon) networks (view s))"
proof (rule moves_for [where P = "\<lambda>K. veth_paired K \<and> bridge_ready K"])
  fix n u assume "n \<in> set networks" and "veth_paired (view u) \<and> bridge_ready (view u)"
  then show "moves view (apply_network E n) u (spec_network E mtu0 ipt0 canon n (view u)) \<and>
      veth_paired (spec_network E mtu0 ipt0 canon n (view u)) \<and>
      bridge_ready (spec_network E mtu0 ipt0 canon n (view u))"
    using assms(1) by (simp add: apply_network_moves veth_paired_network bridge_ready_network)
qed (use assms in simp)

lemma apply_nginx_moves:
  assumes cfg: "nginx_config E networks = Ok (m, st)" and ok: "nginx_ok (Some m, Some st)"
  shows "moves view (apply_nginx E networks) s (spec_nginx m st (view s))"
proof -
  obtain f where f: "build_forwarding (lib E) (prof E) networks (opt_custom_forwarding (opts E)) = Ok f"
    and m: "render_nginx E f = Ok m" and st: "render_sites E f = Ok st"
    using cfg by (auto simp: nginx_config_def bind_res_Ok_iff)
  show ?thesis
    unfolding apply_nginx_def
  proof (rule moves_bind_lift [OF f], rule moves_bind_lift [OF m], rule moves_then [OF law_fs_write],
      rule moves_bind_lift [OF st], rule moves_then [OF law_fs_write])
    fix u1 u2
    assume "view u1 = (view s)\<lparr>k_files := (k_files (view s))(NGINX_MODULE_PATH \<mapsto> m)\<rparr>"
      and "view u2 = (view u1)\<lparr>k_files := (k_files (view u1))(NGINX_SITE_PATH \<mapsto> st)\<rparr>"
    then show "moves view (nginx_reload E) u2 (spec_nginx m st (view s))"
      using law_nginx_reload [of u2] ok by (simp add: spec_nginx_def)
  qed
qed

lemma surplus_eq:
  assumes "netns_item_name ` set items = k_netns K"
  shows "{ns \<in> set (surplus_netns (lib E) (map netns_item_name items) (map netns_name networks)).
      starts_with NETNS_PREFIX ns} = surplus networks K"
  using assms by (auto simp: surplus_netns_def surplus_def hash_set)

lemma apply_system_moves:
  assumes valid: "\<forall>n \<in> set networks. net_valid E accepts n"
    and cfg: "nginx_config E networks = Ok (m, st)" and ok: "nginx_ok (Some m, Some st)"
    and paired: "veth_paired (view s)"
  shows "moves view (apply_system E networks) s
     (spec_nginx m st (spec_networks E mtu0 ipt0 canon networks (view s)))"
proof -
  define KB where "KB = spec_bridge mtu0 [bridge_addr] (view s)"
  define KD where "KD = spec_del_set (surplus networks (view s)) KB"
  define KN where "KN = fold (spec_network E mtu0 ipt0 canon) networks KD"
  note pB = veth_paired_bridge [OF paired, of mtu0 "[bridge_addr]", folded KB_def]
  have pD: "veth_paired KD" "bridge_ready KD"
    using pB by (auto simp: KD_def veth_paired_del_set bridge_ready_del_set)
  have m1: "moves view (context_io ''Creating bridge interface''
      (apply_bridge E BRIDGE_INTERFACE [IpNetV4 (Ipv4Net 0xAC630001 16)])) s KB"
    using apply_bridge_moves [of "[bridge_addr]" BRIDGE_INTERFACE s]
    by (intro moves_context) (simp add: KB_def bridge_addr_def)
  have m2: "moves view (for_io (surplus_netns (lib E) (map netns_item_name items) (map netns_name networks))
      (\<lambda>netns. when_io (starts_with NETNS_PREFIX netns)
        (context_io ''Removing surplus network namespace'' (netns_del E netns)))) u KD"
    if "view u = KB" "netns_item_name ` set items = k_netns KB" for u items
  proof -
    have "distinct (surplus_netns (lib E) (map netns_item_name items) (map netns_name networks))"
      by (simp add: surplus_netns_def hash_distinct)
    moreover have "set (surplus_netns (lib E) (map netns_item_name items) (map netns_name networks))
        \<subseteq> k_netns (view u)"
      using that by (auto simp: surplus_netns_def hash_set)
    moreover have "surplus networks KB = surplus networks (view s)"
      by (simp add: surplus_def KB_def spec_bridge_frame)
    ultimately show ?thesis
      using del_loop_moves [of "surplus_netns (lib E) (map netns_item_name items) (map netns_name networks)" u
          "''Removing surplus network namespace''"] surplus_eq [OF that(2), of networks] that(1)
      by (simp add: KD_def)
  qed
  have m3: "moves view (for_io networks (apply_network E)) u KN" if "view u = KD" for u
    using apply_networks_moves [of networks u] valid pD that by (simp add: KN_def)
  have m4: "moves view (context_io ''Applying nginx configuration'' (apply_nginx E networks)) u
      (spec_nginx m st KN)" if "view u = KN" for u
    using apply_nginx_moves [OF cfg ok, of u] that by (intro moves_context) simp
  have goal: "spec_nginx m st (spec_networks E mtu0 ipt0 canon networks (view s)) = spec_nginx m st KN"
    by (simp add: spec_networks_def KN_def KD_def KB_def)
  show ?thesis
    unfolding apply_system_def Let_def goal
  proof (rule moves_bind_lift [OF bridge_net], rule moves_then [OF m1])
    fix u assume u: "view u = KB"
    obtain items where items: "reads view (netns_list E) u items" "netns_item_name ` set items = k_netns KB"
      using law_netns_list [of u] u by auto
    show "moves view (bind_io (netns_list E) (\<lambda>items.
        then_io (for_io (surplus_netns (lib E) (map netns_item_name items) (map netns_name networks))
          (\<lambda>netns. when_io (starts_with NETNS_PREFIX netns)
            (context_io ''Removing surplus network namespace'' (netns_del E netns))))
        (then_io (for_io networks (apply_network E))
        (context_io ''Applying nginx configuration'' (apply_nginx E networks))))) u (spec_nginx m st KN)"
      by (rule moves_bind [OF items(1)], rule moves_then [OF m2 [OF _ items(2)]], simp add: u,
        rule moves_then [OF m3], assumption, rule m4, assumption)
  qed
qed

end

section \<open>The stored configuration\<close>

lemma run_on_sys: "on_sys m g = (case m (gw_sys g) of (r, s) \<Rightarrow> (r, g\<lparr>gw_sys := s\<rparr>))"
  by (simp add: on_sys_def zoom_def)

lemma run_gateway_apply:
  "gateway_apply E config g = (case apply_system E (networks_of config) (gw_sys g) of
     (r, s) \<Rightarrow> (r, g\<lparr>gw_config := config, gw_sys := s\<rparr>))"
  by (simp add: gateway_apply_def then_io_def bind_io_def update_config_def run_on_sys split: prod.splits)

lemma on_sys_config [simp]: "gw_config (snd (on_sys m g)) = gw_config g"
  by (simp add: run_on_sys split: prod.splits)

context gateway_system
begin

lemma gateway_apply_moves:
  assumes "\<forall>n \<in> set (networks_of config). net_valid E accepts n"
    and "nginx_config E (networks_of config) = Ok (m, st)" and "nginx_ok (Some m, Some st)"
    and "veth_paired (view (gw_sys g))"
  shows "\<exists>s'. gateway_apply E config g = (Ok (), g\<lparr>gw_config := config, gw_sys := s'\<rparr>) \<and>
     view s' = spec_nginx m st (spec_networks E mtu0 ipt0 canon (networks_of config) (view (gw_sys g)))"
  using apply_system_moves [OF assms] by (auto simp: moves_def run_gateway_apply)

end

lemma veth_paired_networks:
  assumes "veth_paired K"
  shows "veth_paired (spec_networks E mtu0 ipt0 canon networks K)"
  unfolding spec_networks_def
  using veth_paired_bridge [OF assms] by (intro fold_network_frame(5) veth_paired_del_set) blast

text \<open>What an application leaves alone: every namespace without the prefix, its rules and files.\<close>

lemma spec_networks_netns:
  "k_netns (spec_nginx m st (spec_networks E mtu0 ipt0 canon networks K)) =
     {ns \<in> k_netns K. \<not> starts_with NETNS_PREFIX ns} \<union> netns_name ` set networks"
  by (auto simp: spec_nginx_def spec_networks_def fold_network_frame spec_del_set_def spec_bridge_frame
      surplus_def)

lemma fold_network_foreign:
  assumes "\<not> starts_with NETNS_PREFIX ns"
  shows "k_ipt (fold (spec_network E mtu0 ipt0 canon) networks K) ns = k_ipt K ns"
    and "k_nsfiles (fold (spec_network E mtu0 ipt0 canon) networks K) (ns, f) = k_nsfiles K (ns, f)"
    and "k_ifs (fold (spec_network E mtu0 ipt0 canon) networks K) (Some ns, i) = k_ifs K (Some ns, i)"
proof -
  have ne: "ns \<noteq> netns_name n" "netns_name n \<noteq> ns" for n using assms by auto
  show "k_ipt (fold (spec_network E mtu0 ipt0 canon) networks K) ns = k_ipt K ns"
    and "k_nsfiles (fold (spec_network E mtu0 ipt0 canon) networks K) (ns, f) = k_nsfiles K (ns, f)"
    and "k_ifs (fold (spec_network E mtu0 ipt0 canon) networks K) (Some ns, i) = k_ifs K (Some ns, i)"
    by (induction networks arbitrary: K)
      (simp_all add: ne spec_network_frame wg_key_def inner_key_def outer_key_def)
qed

lemma spec_networks_foreign:
  assumes "\<not> starts_with NETNS_PREFIX ns"
  shows "k_ipt (spec_nginx m st (spec_networks E mtu0 ipt0 canon networks K)) ns = k_ipt K ns"
    and "k_nsfiles (spec_nginx m st (spec_networks E mtu0 ipt0 canon networks K)) (ns, f) = k_nsfiles K (ns, f)"
    and "(\<forall>j pn pi. k_ifs K (Some ns, i) = Some j \<longrightarrow> if_peer j = Some (Some pn, pi) \<longrightarrow>
           \<not> starts_with NETNS_PREFIX pn) \<Longrightarrow>
         k_ifs (spec_nginx m st (spec_networks E mtu0 ipt0 canon networks K)) (Some ns, i) = k_ifs K (Some ns, i)"
  using assms
  by (auto simp: spec_nginx_def spec_networks_def fold_network_foreign spec_del_set_def drop_set_def
      surplus_def spec_bridge_def spec_if_defs split: option.splits)

end
