(* ===== verification/Gateway_Partial.thy ===== *)
theory Gateway_Partial
  imports Gateway_Apply
begin

text \<open>
  \<open>apply_partial\<close> on a lawful system: when every network carries the port it is filed under, applying
  a partial configuration to a system that is set up for the stored configuration sets it up for the
  merged one, which is also what is stored. Without that agreement the handler works on the port in
  the network and files the result under the other.
\<close>

section \<open>Configurations filed under their own ports\<close>

definition well_keyed :: "gateway_config \<Rightarrow> bool" where
  "well_keyed c \<longleftrightarrow> (\<forall>p n. bt_get c p = Some n \<longrightarrow> ns_listen_port n = p)"

definition well_keyed_partial :: "gateway_config_partial \<Rightarrow> bool" where
  "well_keyed_partial c \<longleftrightarrow> (\<forall>p n. bt_get c p = Some (Some n) \<longrightarrow> ns_listen_port n = p)"

definition port_netns :: "u16 \<Rightarrow> string" where
  "port_netns port = NETNS_PREFIX @ word_to_dec port"

lemma port_netns_name: "netns_name n = port_netns (ns_listen_port n)"
  by (simp add: netns_name_def port_netns_def)

lemma port_netns_inject [simp]: "port_netns p = port_netns q \<longleftrightarrow> p = q"
  by (simp add: port_netns_def word_unat_eq_iff)

lemma port_netns_prefix [simp]: "starts_with NETNS_PREFIX (port_netns p)"
  by (simp add: port_netns_def)

lemma bt_iter_get: "e \<in> set (bt_iter m) \<Longrightarrow> bt_get m (fst e) = Some (snd e)"
  using bt.iter_mem [of "fst e" "snd e" m] by simp

lemma networks_of_values: "well_keyed c \<Longrightarrow> networks_of c = bt_values c"
  unfolding networks_of_def bt_values_def
  by (rule map_cong [OF refl]) (auto simp: well_keyed_def dest: bt_iter_get)

lemma bt_values_set: "set (bt_values c) = {n. \<exists>p. bt_get c p = Some n}"
proof -
  have "n \<in> set (bt_values c) \<longleftrightarrow> (\<exists>p. (p, n) \<in> set (bt_iter c))" for n
    by (force simp: bt_values_def)
  then show ?thesis by (auto simp: bt.iter_mem)
qed

lemma well_keyed_ports:
  "well_keyed c \<Longrightarrow> netns_name ` set (bt_values c) = {port_netns p | p. bt_get c p \<noteq> None}"
  by (force simp: bt_values_set port_netns_name well_keyed_def)

lemma well_keyed_apply_partial:
  "well_keyed c \<Longrightarrow> well_keyed_partial d \<Longrightarrow> well_keyed (config_apply_partial c d)"
  by (auto simp: well_keyed_def well_keyed_partial_def overlay_def split: option.splits)

section \<open>Specification of one entry\<close>

definition upd_entry :: "u16 \<times> network_state option \<Rightarrow> gateway_config \<Rightarrow> gateway_config" where
  "upd_entry e c = (case snd e of None \<Rightarrow> bt_remove (fst e) c | Some n \<Rightarrow> bt_insert (fst e) n c)"

definition spec_entry :: "'s env \<Rightarrow> usize \<Rightarrow> string \<Rightarrow> (string \<Rightarrow> string) \<Rightarrow>
    u16 \<times> network_state option \<Rightarrow> kern \<Rightarrow> kern" where
  "spec_entry E mtu0 ipt0 canon e K = (case snd e of
      None \<Rightarrow> spec_del_set ({port_netns (fst e)} \<inter> k_netns K) K
    | Some n \<Rightarrow> spec_network E mtu0 ipt0 canon n K)"

lemma config_apply_partial_fold: "config_apply_partial c d = fold upd_entry (bt_iter d) c"
  unfolding config_apply_partial_def foldl_conv_fold upd_entry_def by (rule refl)

text \<open>No WireGuard interface of the gateway has a veth peer.\<close>

definition wg_unpaired :: "kern \<Rightarrow> bool" where
  "wg_unpaired K \<longleftrightarrow> (\<forall>n. peers K (wg_key n) = None \<or> peers K (wg_key n) = Some None)"

definition links_ok :: "kern \<Rightarrow> bool" where
  "links_ok K \<longleftrightarrow> veth_paired K \<and> wg_unpaired K"

lemma wg_unpaired_bridge: "wg_unpaired K \<Longrightarrow> wg_unpaired (spec_bridge mtu0 as K)"
  by (simp add: wg_unpaired_def spec_bridge_def peers_ensure_if)

lemma wg_unpaired_del_set: "wg_unpaired K \<Longrightarrow> wg_unpaired (spec_del_set D K)"
  unfolding wg_unpaired_def
proof
  fix n
  assume "\<forall>n. peers K (wg_key n) = None \<or> peers K (wg_key n) = Some None"
  then have "peers K (wg_key n) = None \<or> peers K (wg_key n) = Some None" ..
  then show "peers (spec_del_set D K) (wg_key n) = None \<or> peers (spec_del_set D K) (wg_key n) = Some None"
    by (auto simp: peers_spec_del_set split: if_splits)
qed

lemma peers_wireguard_self:
  "peers (spec_wireguard L mtu0 n K) (wg_key n) =
     (if peers K (wg_key n) = None then Some None else peers K (wg_key n))"
  by (simp add: spec_wireguard_def spec_if_defs peers_def ensure_if_def fresh_if_def split: option.splits)

lemma wg_unpaired_network:
  assumes "wg_unpaired K"
  shows "wg_unpaired (spec_network E mtu0 ipt0 canon n K)"
proof -
  have "peers (spec_network E mtu0 ipt0 canon n K) (wg_key m) =
      (if ns_listen_port m = ns_listen_port n \<and> peers K (wg_key n) = None then Some None
       else peers K (wg_key m))" for m
  proof (cases "ns_listen_port m = ns_listen_port n")
    case True
    then have key: "wg_key m = wg_key n" by simp
    show ?thesis
      by (simp add: spec_network_def key True peers_spec_veth peers_wireguard_self)
  next
    case False
    then show ?thesis by (simp add: spec_network_def peers_spec_veth)
  qed
  with assms show ?thesis by (simp add: wg_unpaired_def)
qed

lemma wg_unpaired_nginx [simp]: "wg_unpaired (spec_nginx m st K) \<longleftrightarrow> wg_unpaired K"
  by (simp add: wg_unpaired_def peers_def spec_nginx_def)

lemma links_ok_networks:
  assumes "links_ok K"
  shows "links_ok (spec_networks E mtu0 ipt0 canon networks K)"
proof -
  have "wg_unpaired (fold (spec_network E mtu0 ipt0 canon) ns K')" if "wg_unpaired K'" for ns K'
    using that by (induction ns arbitrary: K') (simp_all add: wg_unpaired_network)
  with assms show ?thesis
    using veth_paired_networks [of K E mtu0 ipt0 canon networks]
    by (simp add: links_ok_def spec_networks_def wg_unpaired_del_set wg_unpaired_bridge)
qed

lemma links_ok_nginx [simp]: "links_ok (spec_nginx m st K) \<longleftrightarrow> links_ok K"
  by (simp add: links_ok_def)

lemma network_applied_del:
  assumes "network_applied E canon n K" and "links_ok K" and "netns_name n \<notin> D"
  shows "network_applied E canon n (spec_del_set D K)"
proof -
  have "k_ifs (spec_del_set D K) k = k_ifs K k" if k: "k \<in> {wg_key n, inner_key n, outer_key n}" for k
  proof (cases "k_ifs K k")
    case None
    then show ?thesis by (simp add: spec_del_set_def drop_set_def)
  next
    case (Some i)
    have "if_peer i = None \<or> if_peer i = Some (outer_key n) \<or> if_peer i = Some (inner_key n)"
      using assms(2) k Some
      by (auto simp: links_ok_def veth_paired_def wg_unpaired_def pair_at_def peers_def dest!: spec [of _ n])
    moreover have "fst k = None \<or> fst k = Some (netns_name n)"
      using k by (auto simp: wg_key_def inner_key_def outer_key_def)
    ultimately show ?thesis
      using assms(3) Some by (auto simp: spec_del_set_def drop_set_def inner_key_def outer_key_def)
  qed
  with assms(1,3) show ?thesis by (simp add: network_applied_def) (simp add: spec_del_set_def)
qed

section \<open>The loop over the entries\<close>

text \<open>The system is set up for the stored configuration, NGINX apart.\<close>

definition in_step :: "'s env \<Rightarrow> (string \<Rightarrow> string) \<Rightarrow> gateway_config \<Rightarrow> kern \<Rightarrow> bool" where
  "in_step E canon c K \<longleftrightarrow> links_ok K \<and> well_keyed c \<and>
     (\<exists>i. k_ifs K (None, BRIDGE_INTERFACE) = Some i \<and> if_up i \<and> bridge_addr \<in> if_addrs i) \<and>
     (\<forall>p n. bt_get c p = Some n \<longrightarrow> network_applied E canon n K) \<and>
     (\<forall>ns. starts_with NETNS_PREFIX ns \<longrightarrow>
        (ns \<in> k_netns K \<longleftrightarrow> (\<exists>p. ns = port_netns p \<and> bt_get c p \<noteq> None)))"

lemma in_step_entry:
  assumes s: "in_step E canon c K" and e: "\<And>n. snd e = Some n \<Longrightarrow> ns_listen_port n = fst e"
  shows "in_step E canon (upd_entry e c) (spec_entry E mtu0 ipt0 canon e K)"
proof (cases "snd e")
  case None
  let ?D = "{port_netns (fst e)} \<inter> k_netns K"
  have p: "links_ok K" and w: "well_keyed c" using s by (simp_all add: in_step_def)
  have "links_ok (spec_del_set ?D K)"
    using p by (simp add: links_ok_def veth_paired_del_set wg_unpaired_del_set)
  moreover have "network_applied E canon n (spec_del_set ?D K)" if "q \<noteq> fst e" "bt_get c q = Some n" for q n
    using that s p w by (intro network_applied_del) (auto simp: in_step_def well_keyed_def port_netns_name)
  moreover have "k_ifs (spec_del_set ?D K) (None, BRIDGE_INTERFACE) = k_ifs K (None, BRIDGE_INTERFACE)"
    using p by (simp add: links_ok_def bridge_del_set)
  moreover have "k_netns (spec_del_set ?D K) = k_netns K - {port_netns (fst e)}"
    by (auto simp: spec_del_set_def)
  moreover have "well_keyed (bt_remove (fst e) c)" using w by (auto simp: well_keyed_def)
  ultimately show ?thesis using s None by (auto simp: in_step_def upd_entry_def spec_entry_def)
next
  case (Some n)
  let ?K = "spec_network E mtu0 ipt0 canon n K"
  have port: "ns_listen_port n = fst e" using e Some by simp
  have p: "links_ok K" and w: "well_keyed c" using s by (simp_all add: in_step_def)
  have "links_ok ?K" using p by (simp add: links_ok_def veth_paired_network wg_unpaired_network)
  moreover have "network_applied E canon n ?K"
    using p by (intro network_applied_self) (simp add: links_ok_def)
  moreover have "network_applied E canon n' ?K" if "q \<noteq> fst e" "bt_get c q = Some n'" for q n'
    using that s w port by (intro network_applied_other) (auto simp: in_step_def well_keyed_def)
  moreover have "k_ifs ?K (None, BRIDGE_INTERFACE) = k_ifs K (None, BRIDGE_INTERFACE)"
    by (intro spec_network_frame(6)) simp
  moreover have "k_netns ?K = insert (port_netns (fst e)) (k_netns K)"
    using port by (simp add: spec_network_frame port_netns_name)
  moreover have "well_keyed (bt_insert (fst e) n c)" using w port by (auto simp: well_keyed_def)
  ultimately show ?thesis using s Some by (auto simp: in_step_def upd_entry_def spec_entry_def)
qed

lemma in_step_entries:
  assumes "in_step E canon c K" and "\<forall>e \<in> set es. \<forall>n. snd e = Some n \<longrightarrow> ns_listen_port n = fst e"
  shows "in_step E canon (fold upd_entry es c) (fold (spec_entry E mtu0 ipt0 canon) es K)"
  using assms by (induction es arbitrary: c K) (simp_all add: in_step_entry)

context gateway_system
begin

lemma apply_partial_entry_moves:
  assumes paired: "veth_paired (view (gw_sys g))" and bridge: "bridge_ready (view (gw_sys g))"
    and valid: "\<And>n. snd e = Some n \<Longrightarrow> net_valid E accepts n"
    and ex: "port_netns (fst e) \<in> set existing \<longleftrightarrow> port_netns (fst e) \<in> k_netns (view (gw_sys g))"
  shows "\<exists>s'. apply_partial_entry E existing e g =
       (Ok (), g\<lparr>gw_config := upd_entry e (gw_config g), gw_sys := s'\<rparr>) \<and>
     view s' = spec_entry E mtu0 ipt0 canon e (view (gw_sys g))"
proof (cases "snd e")
  case None
  then have e: "e = (fst e, None)" by (cases e) simp
  let ?ns = "port_netns (fst e)"
  show ?thesis
  proof (cases "?ns \<in> set existing")
    case True
    then obtain s' where s': "netns_del E ?ns (gw_sys g) = (Ok (), s')"
        "view s' = spec_del_set {?ns} (view (gw_sys g))"
      using law_netns_del [of ?ns "gw_sys g"] ex
      by (auto simp: moves_def spec_del_def simp flip: spec_del_eq)
    then show ?thesis
      using True ex None
      by (subst e) (auto simp: apply_partial_entry_def port_netns_def upd_entry_def spec_entry_def
          then_io_def bind_io_def update_config_def run_simps run_on_sys)
  next
    case False
    then show ?thesis
      using ex None
      by (intro exI [of _ "gw_sys g"], subst e) (auto simp: apply_partial_entry_def port_netns_def
          upd_entry_def spec_entry_def then_io_def bind_io_def update_config_def run_simps)
  qed
next
  case (Some n)
  then have e: "e = (fst e, Some n)" by (cases e) simp
  obtain s' where s': "apply_network E n (gw_sys g) = (Ok (), s')"
      "view s' = spec_network E mtu0 ipt0 canon n (view (gw_sys g))"
    using apply_network_moves [OF valid [OF Some] paired bridge] by (auto simp: moves_def)
  then show ?thesis
    using Some by (intro exI [of _ s'], subst e) (simp add: apply_partial_entry_def upd_entry_def
        spec_entry_def then_io_def bind_io_def update_config_def run_on_sys)
qed

lemma spec_entry_keeps:
  assumes "veth_paired K" and "bridge_ready K" and "\<And>n. snd e = Some n \<Longrightarrow> ns_listen_port n = fst e"
  shows "veth_paired (spec_entry E mtu0 ipt0 canon e K)" "bridge_ready (spec_entry E mtu0 ipt0 canon e K)"
    and "q \<noteq> fst e \<Longrightarrow> port_netns q \<in> k_netns (spec_entry E mtu0 ipt0 canon e K) \<longleftrightarrow> port_netns q \<in> k_netns K"
proof -
  have "k_netns (spec_del_set ({port_netns (fst e)} \<inter> k_netns K) K) = k_netns K - {port_netns (fst e)}"
    by (auto simp: spec_del_set_def)
  with assms show "veth_paired (spec_entry E mtu0 ipt0 canon e K)"
      "bridge_ready (spec_entry E mtu0 ipt0 canon e K)"
      "q \<noteq> fst e \<Longrightarrow> port_netns q \<in> k_netns (spec_entry E mtu0 ipt0 canon e K) \<longleftrightarrow> port_netns q \<in> k_netns K"
    by (auto simp: spec_entry_def veth_paired_del_set bridge_ready_del_set veth_paired_network
        bridge_ready_network spec_network_frame port_netns_name split: option.splits)
qed

lemma apply_partial_loop_moves:
  assumes "veth_paired (view (gw_sys g))" and "bridge_ready (view (gw_sys g))"
    and "\<forall>e \<in> set es. \<forall>n. snd e = Some n \<longrightarrow> net_valid E accepts n \<and> ns_listen_port n = fst e"
    and "\<forall>e \<in> set es. port_netns (fst e) \<in> set existing \<longleftrightarrow> port_netns (fst e) \<in> k_netns (view (gw_sys g))"
    and "distinct (map fst es)"
  shows "\<exists>s'. for_io es (apply_partial_entry E existing) g =
       (Ok (), g\<lparr>gw_config := fold upd_entry es (gw_config g), gw_sys := s'\<rparr>) \<and>
     view s' = fold (spec_entry E mtu0 ipt0 canon) es (view (gw_sys g))"
  using assms
proof (induction es arbitrary: g)
  case Nil
  then show ?case by (intro exI [of _ "gw_sys g"]) (simp add: run_simps)
next
  case (Cons e es)
  obtain s1 where s1: "apply_partial_entry E existing e g =
        (Ok (), g\<lparr>gw_config := upd_entry e (gw_config g), gw_sys := s1\<rparr>)"
      "view s1 = spec_entry E mtu0 ipt0 canon e (view (gw_sys g))"
    using apply_partial_entry_moves [of g e existing] Cons.prems by auto
  let ?g = "g\<lparr>gw_config := upd_entry e (gw_config g), gw_sys := s1\<rparr>"
  have port: "\<And>n. snd e = Some n \<Longrightarrow> ns_listen_port n = fst e" using Cons.prems(3) by simp
  note keeps = spec_entry_keeps [OF Cons.prems(1,2) port]
  have "\<exists>s'. for_io es (apply_partial_entry E existing) ?g =
       (Ok (), ?g\<lparr>gw_config := fold upd_entry es (gw_config ?g), gw_sys := s'\<rparr>) \<and>
     view s' = fold (spec_entry E mtu0 ipt0 canon) es (view (gw_sys ?g))"
  proof (rule Cons.IH)
    show "\<forall>d \<in> set es. port_netns (fst d) \<in> set existing \<longleftrightarrow> port_netns (fst d) \<in> k_netns (view (gw_sys ?g))"
    proof
      fix d assume d: "d \<in> set es"
      then have "fst d \<noteq> fst e" using Cons.prems(5) by (auto simp: image_iff)
      from keeps(3) [OF _ this] Cons.prems(4) d s1(2) port
      show "port_netns (fst d) \<in> set existing \<longleftrightarrow> port_netns (fst d) \<in> k_netns (view (gw_sys ?g))" by simp
    qed
  qed (use Cons.prems keeps s1(2) in auto)
  then show ?case using s1 by (auto simp: then_io_def bind_io_def)
qed

lemma apply_partial_moves:
  assumes step: "in_step E canon (gw_config g) (view (gw_sys g))"
    and keyed: "well_keyed_partial d"
    and valid: "\<forall>p n. bt_get d p = Some (Some n) \<longrightarrow> net_valid E accepts n"
    and cfg: "nginx_config E (networks_of (config_apply_partial (gw_config g) d)) = Ok (m, st)"
    and ok: "nginx_ok (Some m, Some st)"
  shows "\<exists>s'. apply_partial E d g =
       (Ok (), g\<lparr>gw_config := config_apply_partial (gw_config g) d, gw_sys := s'\<rparr>) \<and>
     view s' = spec_nginx m st (fold (spec_entry E mtu0 ipt0 canon) (bt_iter d) (view (gw_sys g)))"
proof -
  let ?c = "config_apply_partial (gw_config g) d"
  let ?K = "view (gw_sys g)"
  have br: "spec_bridge mtu0 [bridge_addr] ?K = ?K" "bridge_ready ?K"
    using step by (auto simp: in_step_def bridge_ready_def intro: spec_bridge_fix)
  have paired: "veth_paired ?K" using step by (simp add: in_step_def links_ok_def)
  obtain s1 where s1: "context_io ''Creating bridge interface''
      (apply_bridge E BRIDGE_INTERFACE [IpNetV4 (Ipv4Net 0xAC630001 16)]) (gw_sys g) = (Ok (), s1)" "view s1 = ?K"
    using moves_context [OF apply_bridge_moves [of "[bridge_addr]" BRIDGE_INTERFACE "gw_sys g"],
        of "''Creating bridge interface''"] br
    by (auto simp: moves_def bridge_addr_def)
  obtain items s2 where s2: "netns_list E s1 = (Ok items, s2)" "view s2 = ?K"
      "netns_item_name ` set items = k_netns ?K"
    using law_netns_list [of s1] s1 by (auto simp: reads_def)
  let ?g = "g\<lparr>gw_sys := s2\<rparr>" and ?ex = "map netns_item_name items"
  have "\<exists>s'. for_io (bt_iter d) (apply_partial_entry E ?ex) ?g =
       (Ok (), ?g\<lparr>gw_config := fold upd_entry (bt_iter d) (gw_config ?g), gw_sys := s'\<rparr>) \<and>
     view s' = fold (spec_entry E mtu0 ipt0 canon) (bt_iter d) (view (gw_sys ?g))"
  proof (rule apply_partial_loop_moves)
    show "\<forall>e \<in> set (bt_iter d). \<forall>n. snd e = Some n \<longrightarrow> net_valid E accepts n \<and> ns_listen_port n = fst e"
      using valid keyed by (auto simp: well_keyed_partial_def bt.iter_mem)
  qed (use paired br s2 bt.iter_distinct in simp_all)
  then obtain s3 where s3: "for_io (bt_iter d) (apply_partial_entry E ?ex) ?g =
       (Ok (), g\<lparr>gw_config := ?c, gw_sys := s3\<rparr>)"
     "view s3 = fold (spec_entry E mtu0 ipt0 canon) (bt_iter d) ?K"
    using s2(2) by (auto simp: config_apply_partial_fold)
  have "networks_of ?c = bt_values ?c"
    using step keyed by (intro networks_of_values well_keyed_apply_partial) (simp_all add: in_step_def)
  then obtain s4 where s4: "context_io ''Applying nginx configuration'' (apply_nginx E (bt_values ?c)) s3 = (Ok (), s4)"
      "view s4 = spec_nginx m st (view s3)"
    using moves_context [OF apply_nginx_moves [OF cfg ok, of s3], of "''Applying nginx configuration''"]
    by (auto simp: moves_def)
  show ?thesis
    using s1 s2 s3 s4
    by (intro exI [of _ s4])
      (simp add: apply_partial_def bridge_net bind_io_def then_io_def run_simps run_on_sys)
qed

end

section \<open>Set up for a whole configuration\<close>

lemma in_step_all_applied:
  assumes "in_step E canon c K"
  shows "all_applied E canon m st (networks_of c) (spec_nginx m st K)"
proof -
  have w: "well_keyed c" and nets: "networks_of c = bt_values c"
    using assms networks_of_values by (auto simp: in_step_def)
  have "{ns \<in> k_netns K. starts_with NETNS_PREFIX ns} = netns_name ` set (bt_values c)"
    unfolding well_keyed_ports [OF w] using assms by (auto simp: in_step_def)
  moreover have "\<forall>n \<in> set (bt_values c). network_applied E canon n K"
    using assms by (auto simp: in_step_def bt_values_set)
  moreover have "\<exists>i. k_ifs K (None, BRIDGE_INTERFACE) = Some i \<and> if_up i \<and> bridge_addr \<in> if_addrs i"
    using assms by (simp add: in_step_def)
  ultimately show ?thesis
    unfolding nets all_applied_def by simp (simp add: spec_nginx_def)
qed

lemma all_applied_in_step:
  assumes "all_applied E canon m st (networks_of c) K" and "links_ok K" and w: "well_keyed c"
  shows "in_step E canon c K"
proof -
  have "{ns \<in> k_netns K. starts_with NETNS_PREFIX ns} = {port_netns p | p. bt_get c p \<noteq> None}"
    using assms(1) well_keyed_ports [OF w] by (simp add: all_applied_def networks_of_values [OF w])
  then have "\<forall>ns. starts_with NETNS_PREFIX ns \<longrightarrow>
      (ns \<in> k_netns K \<longleftrightarrow> (\<exists>p. ns = port_netns p \<and> bt_get c p \<noteq> None))"
    by blast
  then show ?thesis
    using assms by (auto simp: all_applied_def in_step_def networks_of_values [OF w] bt_values_set)
qed

context gateway_system
begin

lemma apply_partial_all_applied:
  assumes "well_keyed (gw_config g)" and "well_keyed_partial d"
    and "all_applied E canon m0 st0 (networks_of (gw_config g)) (view (gw_sys g))" and "links_ok (view (gw_sys g))"
    and "\<forall>p n. bt_get d p = Some (Some n) \<longrightarrow> net_valid E accepts n"
    and "nginx_config E (networks_of (config_apply_partial (gw_config g) d)) = Ok (m, st)"
    and "nginx_ok (Some m, Some st)"
  shows "\<exists>s'. apply_partial E d g =
       (Ok (), g\<lparr>gw_config := config_apply_partial (gw_config g) d, gw_sys := s'\<rparr>) \<and>
     all_applied E canon m st (networks_of (config_apply_partial (gw_config g) d)) (view s') \<and> links_ok (view s')"
proof -
  let ?c = "config_apply_partial (gw_config g) d"
  let ?K = "fold (spec_entry E mtu0 ipt0 canon) (bt_iter d) (view (gw_sys g))"
  have step: "in_step E canon (gw_config g) (view (gw_sys g))" using assms by (intro all_applied_in_step)
  obtain s' where s': "apply_partial E d g = (Ok (), g\<lparr>gw_config := ?c, gw_sys := s'\<rparr>)"
      "view s' = spec_nginx m st ?K"
    using apply_partial_moves [OF step assms(2,5-7)] by blast
  have "in_step E canon ?c ?K"
    unfolding config_apply_partial_fold using step assms(2)
    by (intro in_step_entries) (auto simp: well_keyed_partial_def bt.iter_mem)
  with s' show ?thesis using in_step_all_applied [of E canon ?c ?K m st]
    by (auto simp: in_step_def links_ok_def)
qed

end

section \<open>What is stored when something fails\<close>

text \<open>
  An entry that fails has either not been stored or, when it removes a network, already been removed; no
  laws of the system are needed.
\<close>

lemma apply_partial_entry_stores:
  "gw_config (snd (apply_partial_entry E existing e g)) \<in> {gw_config g, upd_entry e (gw_config g)}"
  "fst (apply_partial_entry E existing e g) = Ok () \<Longrightarrow>
     gw_config (snd (apply_partial_entry E existing e g)) = upd_entry e (gw_config g)"
proof -
  obtain port entry where e: "e = (port, entry)" by (cases e)
  have "gw_config (snd (apply_partial_entry E existing e g)) \<in> {gw_config g, upd_entry e (gw_config g)} \<and>
    (fst (apply_partial_entry E existing e g) = Ok () \<longrightarrow>
     gw_config (snd (apply_partial_entry E existing e g)) = upd_entry e (gw_config g))"
    by (cases entry) (auto simp: e apply_partial_entry_def upd_entry_def then_io_def bind_io_def update_config_def
        run_on_sys run_simps Let_def split: prod.splits res.splits)
  then show "gw_config (snd (apply_partial_entry E existing e g)) \<in> {gw_config g, upd_entry e (gw_config g)}"
    and "fst (apply_partial_entry E existing e g) = Ok () \<Longrightarrow>
     gw_config (snd (apply_partial_entry E existing e g)) = upd_entry e (gw_config g)"
    by blast+
qed

lemma apply_partial_entries_store:
  "\<exists>k \<le> length es. gw_config (snd (for_io es (apply_partial_entry E existing) g)) = fold upd_entry (take k es) (gw_config g) \<and>
     (fst (for_io es (apply_partial_entry E existing) g) = Ok () \<longrightarrow> k = length es)"
proof (induction es arbitrary: g)
  case Nil
  then show ?case by (simp add: run_simps)
next
  case (Cons e es)
  obtain r g1 where r: "apply_partial_entry E existing e g = (r, g1)" by (cases "apply_partial_entry E existing e g")
  note one = apply_partial_entry_stores [where e = e and E = E and existing = existing and g = g, unfolded r, simplified]
  show ?case
  proof (cases "r = Ok ()")
    case True
    obtain k where k: "k \<le> length es" "gw_config (snd (for_io es (apply_partial_entry E existing) g1)) =
        fold upd_entry (take k es) (gw_config g1)"
       "fst (for_io es (apply_partial_entry E existing) g1) = Ok () \<longrightarrow> k = length es"
      using Cons.IH by blast
    with True r one show ?thesis by (intro exI [of _ "Suc k"]) (simp add: then_io_def bind_io_def)
  next
    case False
    then have run: "for_io (e # es) (apply_partial_entry E existing) g = (r, g1)"
      using r by (cases r) (simp_all add: then_io_def bind_io_def)
    from one(1) show ?thesis
    proof (elim disjE)
      assume "gw_config g1 = gw_config g"
      with False show ?thesis unfolding run by (intro exI [of _ 0]) simp
    next
      assume "gw_config g1 = upd_entry e (gw_config g)"
      with False show ?thesis unfolding run by (intro exI [of _ 1]) simp
    qed
  qed
qed

lemma apply_partial_stores_prefix:
  "\<exists>k \<le> length (bt_iter d). gw_config (snd (apply_partial E d g)) = fold upd_entry (take k (bt_iter d)) (gw_config g) \<and>
     (fst (apply_partial E d g) = Ok () \<longrightarrow> k = length (bt_iter d))"
proof -
  let ?stored = "\<lambda>r. \<exists>k \<le> length (bt_iter d). gw_config (snd r) = fold upd_entry (take k (bt_iter d)) (gw_config g) \<and>
     (fst r = Ok () \<longrightarrow> k = length (bt_iter d))"
  have stop: "?stored (r, g')" if "r \<noteq> Ok ()" "gw_config g' = gw_config g" for r :: "unit res" and g'
    using that by (intro exI [of _ 0]) simp
  have sys: "?stored (bind_io (on_sys m) f g1)"
    if "gw_config g1 = gw_config g" and "\<And>x g'. gw_config g' = gw_config g \<Longrightarrow> ?stored (f x g')"
    for m :: "('s, 'b) io" and f and g1 :: "'s gateway"
    using that stop by (cases "m (gw_sys g1)"; cases "fst (m (gw_sys g1))") (auto simp: bind_io_def run_on_sys)
  have "?stored (then_io (for_io (bt_iter d) (apply_partial_entry E existing)) (bind_io get_st (\<lambda>g. on_sys (m g))) g1)"
    if same: "gw_config g1 = gw_config g" for existing m g1
  proof -
    let ?run = "for_io (bt_iter d) (apply_partial_entry E existing) g1"
    obtain k where k: "k \<le> length (bt_iter d)" "gw_config (snd ?run) = fold upd_entry (take k (bt_iter d)) (gw_config g)"
        "fst ?run = Ok () \<longrightarrow> k = length (bt_iter d)"
      using apply_partial_entries_store [of "bt_iter d" E existing g1] same by auto
    then show ?thesis
      by (cases ?run; cases "fst ?run")
        (auto simp: then_io_def bind_io_def run_simps run_on_sys split: prod.splits intro!: exI [of _ k])
  qed
  then show ?thesis
    unfolding apply_partial_def
    by (cases "BRIDGE_NET (lib E)") (auto simp: bind_io_def [of "lift_res _"] run_simps then_io_def intro!: sys stop)
qed

end
