(* ===== verification/Integration_Props.thy ===== *)
theory Integration_Props
  imports Integration Gateway_Partial
begin

text \<open>
  Properties of the integration test: the configurations it generates are ones the gateway can apply
  (filed under their own ports, in the port range, with a valid MTU and address), it holds a private
  key for every peer it generated, and waiting for an answer finds the first apply response.
\<close>

section \<open>What the generators produce\<close>

definition own_net :: ip_net where
  "own_net = IpNetV4 (Ipv4Net 0x0A000001 8)"

definition test_network_ok :: "(pubkey, privkey) btreemap \<Rightarrow> network_state \<Rightarrow> bool" where
  "test_network_ok keys n \<longleftrightarrow> 50000 \<le> ns_listen_port n \<and> ns_listen_port n < 60000 \<and>
     ns_mtu n = NETWORK_MTU \<and> ns_address n = [own_net] \<and> ns_proxy n = bt_empty \<and>
     (\<forall>k ps. bt_get (ns_peers n) k = Some ps \<longrightarrow>
        bt_get keys k \<noteq> None \<and> (\<exists>a. ps_allowed_ips ps = [IpNetV4 (Ipv4Net a 32)]))"

definition test_config_ok :: "(pubkey, privkey) btreemap \<Rightarrow> gateway_config \<Rightarrow> bool" where
  "test_config_ok keys c \<longleftrightarrow>
     (\<forall>port n. bt_get c port = Some n \<longrightarrow> ns_listen_port n = port \<and> test_network_ok keys n)"

definition keys_grow :: "(pubkey, privkey) btreemap \<Rightarrow> (pubkey, privkey) btreemap \<Rightarrow> bool" where
  "keys_grow k k' \<longleftrightarrow> (\<forall>p. bt_get k p \<noteq> None \<longrightarrow> bt_get k' p \<noteq> None)"

lemma keys_grow_refl: "keys_grow k k"
  by (simp add: keys_grow_def)

lemma keys_grow_trans: "keys_grow k k' \<Longrightarrow> keys_grow k' k'' \<Longrightarrow> keys_grow k k''"
  by (simp add: keys_grow_def)

lemma keys_grow_insert: "keys_grow k (bt_insert p v k)"
  by (simp add: keys_grow_def)

lemma test_network_ok_grow: "test_network_ok k n \<Longrightarrow> keys_grow k k' \<Longrightarrow> test_network_ok k' n"
  unfolding test_network_ok_def keys_grow_def by blast

lemma test_config_ok_grow: "test_config_ok k c \<Longrightarrow> keys_grow k k' \<Longrightarrow> test_config_ok k' c"
  unfolding test_config_ok_def using test_network_ok_grow by blast

text \<open>What the test relies on of the random generator and the address library.\<close>

locale test_laws =
  fixes L :: libs and T :: "'t test_env"
  assumes law_port: "a < b \<Longrightarrow> \<exists>x s'. gen_range_u16 T (a, b) s = (Ok x, s') \<and> a \<le> x \<and> x < b"
    and law_usize: "i < j \<Longrightarrow> \<exists>x s'. gen_range_usize T (i, j) s = (Ok x, s') \<and> i \<le> x \<and> x < j"
    and law_key: "\<exists>x s'. generate_key T s = (Ok x, s')"
    and law_choose: "\<exists>ps s'. choose_multiple T existing k s = (Ok ps, s') \<and> set ps \<subseteq> set existing"
    and law_own: "ipnet_from_str L ''10.0.0.1/8'' = Ok own_net"
    and law_net: "ipnet_new T (IpV4 u) 32 = Some (IpNetV4 (Ipv4Net u 32))"
begin

lemma run_on_test: "m (test_sys t) = (Ok x, s') \<Longrightarrow> on_test m t = (Ok x, t\<lparr>test_sys := s'\<rparr>)"
  by (simp add: on_test_def zoom_def)

lemma peer_address_Ok:
  assumes "n < 2 ^ 31"
  shows "\<exists>a. peer_address L p T own_net n = Ok (IpNetV4 (Ipv4Net a 32))"
proof -
  have "unat (of_nat n :: u32) = n" using assms by (simp add: unsigned_of_nat take_bit_nat_eq_self)
  then have "add_ck p 1 (of_nat n :: u32) = Ok (1 + of_nat n)"
    using assms by (intro add_ck_no_overflow) simp
  then show ?thesis by (simp add: peer_address_def own_net_def law_net)
qed

lemma generate_peer_ok:
  assumes "test_network_ok (peer_keys t) network" and "n < 2 ^ 31"
  shows "\<exists>network' t'. generate_peer L p T own_net n network t = (Ok network', t') \<and>
     test_network_ok (peer_keys t') network' \<and> keys_grow (peer_keys t) (peer_keys t') \<and>
     ns_listen_port network' = ns_listen_port network"
proof -
  obtain a where a: "peer_address L p T own_net n = Ok (IpNetV4 (Ipv4Net a 32))"
    using peer_address_Ok [OF assms(2)] by blast
  obtain k s' where k: "generate_key T (test_sys t) = (Ok k, s')" using law_key by blast
  let ?t = "t\<lparr>test_sys := s', peer_keys := bt_insert (privkey_pubkey T k) k (peer_keys t)\<rparr>"
  let ?n = "network\<lparr>ns_peers := bt_insert (privkey_pubkey T k)
       \<lparr>ps_preshared_key = None, ps_allowed_ips = [IpNetV4 (Ipv4Net a 32)], ps_endpoint = None\<rparr> (ns_peers network)\<rparr>"
  have "generate_peer L p T own_net n network t = (Ok ?n, ?t)"
    by (simp add: generate_peer_def a bind_io_def then_io_def run_simps run_on_test [where m = "generate_key T", OF k] Let_def)
  moreover have "test_network_ok (peer_keys ?t) ?n"
    using assms(1) by (auto simp: test_network_ok_def)
  ultimately show ?thesis using keys_grow_insert by (intro exI [of _ ?n] exI [of _ ?t]) simp
qed

lemma generate_peers_ok:
  "test_network_ok (peer_keys t) network \<Longrightarrow> \<forall>n \<in> set ns. n < 2 ^ 31 \<Longrightarrow>
   \<exists>network' t'. generate_peers L p T own_net ns network t = (Ok network', t') \<and>
     test_network_ok (peer_keys t') network' \<and> keys_grow (peer_keys t) (peer_keys t') \<and>
     ns_listen_port network' = ns_listen_port network"
proof (induction ns arbitrary: network t)
  case Nil
  then show ?case by (simp add: run_simps keys_grow_refl)
next
  case (Cons n ns)
  obtain network1 t1 where 1: "generate_peer L p T own_net n network t = (Ok network1, t1)"
     "test_network_ok (peer_keys t1) network1" "keys_grow (peer_keys t) (peer_keys t1)"
     "ns_listen_port network1 = ns_listen_port network"
    using generate_peer_ok [of t network n p] Cons.prems by auto
  obtain network2 t2 where "generate_peers L p T own_net ns network1 t1 = (Ok network2, t2)"
     "test_network_ok (peer_keys t2) network2" "keys_grow (peer_keys t1) (peer_keys t2)"
     "ns_listen_port network2 = ns_listen_port network1"
    using Cons.IH [OF 1(2)] Cons.prems by auto
  with 1 show ?case using keys_grow_trans
    by (intro exI [of _ network2] exI [of _ t2]) (auto simp: bind_io_def)
qed

lemma generate_network_ok:
  assumes c: "test_config_ok (peer_keys t) c" and r: "i < j" "j \<le> 2 ^ 31"
  shows "\<exists>c' t'. generate_network L p T (i, j) c t = (Ok c', t') \<and> test_config_ok (peer_keys t') c' \<and>
     keys_grow (peer_keys t) (peer_keys t')"
proof -
  obtain port s1 where s1: "gen_range_u16 T PORT_RANGE (test_sys t) = (Ok port, s1)" "50000 \<le> port" "port < 60000"
    using law_port [of 50000 60000 "test_sys t"] unfolding PORT_RANGE_def by auto
  obtain k s2 where s2: "gen_range_usize T (i, j) s1 = (Ok k, s2)" "k < j" using law_usize [OF r(1)] by blast
  obtain key s3 where s3: "generate_key T s2 = (Ok key, s3)" using law_key by blast
  let ?n = "\<lparr>ns_private_key = key, ns_listen_port = port, ns_mtu = NETWORK_MTU, ns_address = [own_net],
        ns_peers = bt_empty, ns_proxy = bt_empty\<rparr>"
  let ?t = "t\<lparr>test_sys := s3\<rparr>"
  have "test_network_ok (peer_keys ?t) ?n" using s1 by (simp add: test_network_ok_def)
  moreover have "\<forall>n \<in> set [0..<k]. n < 2 ^ 31" using s2(2) r(2) by auto
  ultimately obtain network t' where n: "generate_peers L p T own_net [0..<k] ?n ?t = (Ok network, t')"
     "test_network_ok (peer_keys t') network" "keys_grow (peer_keys ?t) (peer_keys t')" "ns_listen_port network = port"
    using generate_peers_ok [of ?t ?n "[0..<k]" p] by auto
  have "generate_network L p T (i, j) c t = (Ok (bt_insert port network c), t')"
    using n(1) s1(1) s2(1) s3
    by (simp add: generate_network_def bind_io_def run_simps on_test_def zoom_def law_own unwrap_res_def)
  moreover have "test_config_ok (peer_keys t') (bt_insert port network c)"
    using n test_config_ok_grow [OF c, of "peer_keys t'"] by (auto simp: test_config_ok_def)
  ultimately show ?thesis using n(3) by auto
qed

lemma generate_networks_ok:
  assumes "i < j" "j \<le> 2 ^ 31"
  shows "test_config_ok (peer_keys t) c \<Longrightarrow> \<exists>c' t'. generate_networks L p T (i, j) k c t = (Ok c', t') \<and>
     test_config_ok (peer_keys t') c' \<and> keys_grow (peer_keys t) (peer_keys t')"
proof (induction k arbitrary: c t)
  case 0
  then show ?case by (simp add: run_simps keys_grow_refl)
next
  case (Suc k)
  obtain c1 t1 where 1: "generate_network L p T (i, j) c t = (Ok c1, t1)" "test_config_ok (peer_keys t1) c1"
     "keys_grow (peer_keys t) (peer_keys t1)"
    using generate_network_ok [OF Suc.prems assms] by blast
  with Suc.IH [OF 1(2)] show ?case using keys_grow_trans by (fastforce simp: bind_io_def)
qed

lemma generate_config_ok:
  assumes "i < j" "j \<le> 2 ^ 31"
  shows "\<exists>c' t'. generate_config L p T amount (i, j) t = (Ok c', t') \<and> test_config_ok (peer_keys t') c' \<and>
     keys_grow (peer_keys t) (peer_keys t')"
  unfolding generate_config_def by (rule generate_networks_ok [OF assms]) (simp add: test_config_ok_def)

lemma get_foldl_Some:
  "distinct (map fst es) \<Longrightarrow> bt_get (foldl (\<lambda>c e. bt_insert (fst e) (Some (snd e)) c) c es) q =
     (case map_of es q of Some v \<Rightarrow> Some (Some v) | None \<Rightarrow> bt_get c q)"
proof (induction es arbitrary: c)
  case (Cons e es)
  then have "map_of es (fst e) = None" by (simp add: map_of_eq_None_iff)
  with Cons show ?case by (auto split: option.splits)
qed simp

lemma get_foldl_None:
  "bt_get (foldl (\<lambda>c port. bt_insert port None c) c ports) q = (if q \<in> set ports then Some None else bt_get c q)"
  by (induction ports arbitrary: c) auto

lemma generate_partial_config_ok:
  assumes "i < j" "j \<le> 2 ^ 31"
  shows "\<exists>d t'. generate_partial_config L p T add remove (i, j) existing t = (Ok d, t') \<and>
     keys_grow (peer_keys t) (peer_keys t') \<and>
     (\<forall>port n. bt_get d port = Some (Some n) \<longrightarrow> ns_listen_port n = port \<and> test_network_ok (peer_keys t') n) \<and>
     (\<forall>port. bt_get d port = Some None \<longrightarrow> port \<in> set existing)"
proof -
  obtain c t1 where c: "generate_config L p T add (i, j) t = (Ok c, t1)" "test_config_ok (peer_keys t1) c"
     "keys_grow (peer_keys t) (peer_keys t1)"
    using generate_config_ok [OF assms] by blast
  obtain ports s2 where ports: "choose_multiple T existing remove (test_sys t1) = (Ok ports, s2)"
      "set ports \<subseteq> set existing"
    using law_choose by blast
  let ?d = "foldl (\<lambda>c port. bt_insert port None c)
      (foldl (\<lambda>c e. bt_insert (fst e) (Some (snd e)) c) bt_empty (bt_iter c)) ports"
  have "generate_partial_config L p T add remove (i, j) existing t = (Ok ?d, t1\<lparr>test_sys := s2\<rparr>)"
    using c(1) ports(1) by (simp add: generate_partial_config_def bind_io_def run_simps on_test_def zoom_def)
  moreover have "bt_get ?d q = (if q \<in> set ports then Some None else map_option Some (bt_get c q))" for q
    by (simp add: get_foldl_None get_foldl_Some bt.iter_distinct bt.iter_get split: option.splits)
  ultimately show ?thesis
    using c(2,3) ports(2)
    by (intro exI [of _ ?d] exI [of _ "t1\<lparr>test_sys := s2\<rparr>"]) (auto simp: test_config_ok_def split: if_splits)
qed

end

section \<open>Waiting for the answer\<close>

definition no_apply :: "'t test_env \<Rightarrow> test_msg \<Rightarrow> bool" where
  "no_apply T m = (case m of MsgOther \<Rightarrow> True
     | MsgText v \<Rightarrow> (case response_from_str T v of Ok (RespApply _) \<Rightarrow> False | Ok _ \<Rightarrow> True | _ \<Rightarrow> False))"

lemma await_apply_skip: "no_apply T m \<Longrightarrow> await_apply T (m # ms) = await_apply T ms"
  by (cases m) (auto simp: no_apply_def split: res.splits gateway_response.splits)

lemma await_apply_first:
  "\<forall>m \<in> set pre. no_apply T m \<Longrightarrow> await_apply T (pre @ ms) = await_apply T ms"
  by (induction pre) (auto simp: await_apply_skip)

lemma await_apply_answer:
  assumes "\<forall>m \<in> set pre. no_apply T m" and "response_from_str T v = Ok (RespApply status)"
  shows "await_apply T (pre @ MsgText v # post) = (Ok status, post)"
  using assms(2) by (simp add: await_apply_first [OF assms(1)])

lemma test_network_valid:
  assumes "test_network_ok keys n" and "\<And>c. \<exists>sf. render_iptables E c = Ok sf \<and> accepts (clean_iptables (lib E) sf)"
  shows "net_valid E accepts n"
proof -
  have "proxy_targets n = []" using assms(1) by (simp add: test_network_ok_def proxy_targets_def)
  then have "port_mappings (prof E) n = Ok []" by (simp add: port_mappings_def)
  then obtain c where "port_config (prof E) n = Ok c"
    using assms(1) by (simp add: port_config_def test_network_ok_def)
  moreover obtain sf where "render_iptables E c = Ok sf" "accepts (clean_iptables (lib E) sf)" using assms(2) by blast
  ultimately have "net_savefile E n = Ok (clean_iptables (lib E) sf)" by (simp add: net_savefile_def)
  then show ?thesis
    using assms(1) \<open>accepts _\<close> by (simp add: net_valid_def test_network_ok_def valid_mtu_def NETWORK_MTU_def)
qed

end
