(* ===== verification/Integration_Verify.thy ===== *)
theory Integration_Verify
  imports Integration_Props
begin

text \<open>
  The connectivity checks of the integration test, on a test host that obeys the laws of \<open>linux\<close>: each
  check decides whether the peers of a configuration reach their networks, and one that passes leaves
  the host's namespaces and interfaces as it found them.
\<close>

section \<open>Loops that decide\<close>

text \<open>A loop whose body succeeds exactly on the good elements succeeds exactly if all are good.\<close>

lemma for_io_decides:
  assumes "\<And>x s. x \<in> set xs \<Longrightarrow> P s \<Longrightarrow>
      \<exists>r s'. body x s = (r, s') \<and> (if good x then r = Ok () \<and> P s' else (\<exists>e. r = Err e))"
    and "P s"
  shows "\<exists>r s'. for_io xs body s = (r, s') \<and>
      (if \<forall>x \<in> set xs. good x then r = Ok () \<and> P s' else (\<exists>e. r = Err e))"
  using assms
proof (induction xs arbitrary: s)
  case Nil
  then show ?case by (simp add: run_simps)
next
  case (Cons x xs)
  obtain r s1 where 1: "body x s = (r, s1)" "if good x then r = Ok () \<and> P s1 else (\<exists>e. r = Err e)"
    using Cons.prems by fastforce
  show ?case
  proof (cases "good x")
    case True
    then obtain r2 s2 where "for_io xs body s1 = (r2, s2)"
        "if \<forall>x \<in> set xs. good x then r2 = Ok () \<and> P s2 else (\<exists>e. r2 = Err e)"
      using Cons.IH [of s1] Cons.prems(1) 1(2) by auto
    with True 1 show ?thesis by (simp add: then_io_def bind_io_def)
  next
    case False
    with 1 show ?thesis by (auto simp: then_io_def bind_io_def)
  qed
qed

lemma decided:
  "\<exists>r s'. run = (r, s') \<and> (if Q then r = Ok () \<and> P s' else (\<exists>e. r = Err e)) \<Longrightarrow>
   \<exists>r s'. run = (r, s') \<and> r \<noteq> Panic \<and> (r = Ok () \<longleftrightarrow> Q) \<and> (r = Ok () \<longrightarrow> P s')"
  by (auto split: if_splits)

text \<open>The peers of all networks, by iteration and by lookup.\<close>

lemma all_peers_iter:
  "(\<forall>(port, n) \<in> set (bt_iter c). \<forall>(k, ps) \<in> set (bt_iter (ns_peers n)). P port k) \<longleftrightarrow>
   (\<forall>port n k ps. bt_get c port = Some n \<longrightarrow> bt_get (ns_peers n) k = Some ps \<longrightarrow> P port k)"
  by (simp only: Ball_def split_paired_All prod.case bt.iter_mem) blast

section \<open>The test host\<close>

definition unused_ns :: "string \<Rightarrow> kern \<Rightarrow> bool" where
  "unused_ns ns K \<longleftrightarrow> ns \<notin> k_netns K \<and> (\<forall>k i. k_ifs K k = Some i \<longrightarrow>
     fst k \<noteq> Some ns \<and> (\<forall>pk. if_peer i = Some pk \<longrightarrow> fst pk \<noteq> Some ns))"

definition restored :: "kern \<Rightarrow> kern \<Rightarrow> bool" where
  "restored K K' \<longleftrightarrow> k_netns K' = k_netns K \<and> k_ifs K' = k_ifs K \<and> k_files K' = k_files K \<and> k_nginx K' = k_nginx K"

lemma restored_refl: "restored K K"
  by (simp add: restored_def)

lemma restored_trans: "restored K K' \<Longrightarrow> restored K' K'' \<Longrightarrow> restored K K''"
  by (simp add: restored_def)

lemma unused_restored: "unused_ns ns K \<Longrightarrow> restored K K' \<Longrightarrow> unused_ns ns K'"
  by (simp add: unused_ns_def restored_def)

text \<open>A namespace with one WireGuard interface, configured for a peer.\<close>

definition peer_if :: "usize \<Rightarrow> ip_net \<Rightarrow> string \<Rightarrow> iface" where
  "peer_if mtu0 a conf = (fresh_if mtu0 None)\<lparr>if_up := True, if_addrs := {a}, if_conf := Some conf\<rparr>"

definition spec_peer_ns :: "usize \<Rightarrow> string \<Rightarrow> string \<Rightarrow> ip_net \<Rightarrow> string \<Rightarrow> kern \<Rightarrow> kern" where
  "spec_peer_ns mtu0 ipt0 ns a conf K =
     K\<lparr>k_netns := insert ns (k_netns K), k_ipt := (k_ipt K)(ns := ipt0),
       k_nsfiles := (k_nsfiles K)((ns, ''wireguard/wg0.conf'') \<mapsto> conf),
       k_ifs := (k_ifs K)((Some ns, ''wg0'') \<mapsto> peer_if mtu0 a conf)\<rparr>"

lemma restored_del: "unused_ns ns K \<Longrightarrow> restored K (spec_del ns (spec_peer_ns mtu0 ipt0 ns a conf K))"
  unfolding restored_def spec_del_def spec_peer_ns_def unused_ns_def
  by (fastforce simp: drop_ns_def fun_eq_iff split: option.splits)

text \<open>\<open>reach\<close> says from which namespaces an address answers; running \<^verbatim>\<open>ping\<close> changes nothing observable.\<close>

locale test_host = linux E view mtu0 ipt0 canon accepts nginx_ok + ipnet_laws "lib E"
  for E :: "'t env" and view and mtu0 and ipt0 and canon and accepts and nginx_ok +
  fixes T :: "'t test_env" and reach :: "string \<Rightarrow> ip_addr \<Rightarrow> bool"
  assumes law_ping_command: "\<exists>o' s'. run_command T IP_PATH (ping_args (lib E) ns a) s = (Ok o', s') \<and>
      view s' = view s \<and> (out_success o' \<longleftrightarrow> reach ns a)"
begin

lemma run_ping: "\<exists>r s'. ping_host (lib E) T ns a s = (r, s') \<and> view s' = view s \<and>
    (if reach ns a then r = Ok () else (\<exists>e. r = Err e))"
  using law_ping_command [of ns a s] by (auto simp: ping_host_def bind_io_def run_simps)

lemma setup_peer_moves:
  assumes ok: "test_network_ok keys n" and peer: "bt_get (ns_peers n) k = Some ps"
    and unused: "unused_ns (test_netns T port k) (view s)"
  shows "\<exists>a conf. moves view (setup_peer E T gateway keys port n k ps) s
     (spec_peer_ns mtu0 ipt0 (test_netns T port k) a conf (view s))"
proof -
  let ?ns = "test_netns T port k"
  obtain key a where key: "bt_get keys k = Some key" and ips: "ps_allowed_ips ps = [IpNetV4 (Ipv4Net a 32)]"
    using ok peer unfolding test_network_ok_def by blast
  have addr: "ns_address n = [own_net]" using ok by (simp add: test_network_ok_def)
  let ?a = "IpNetV4 (Ipv4Net a 8)" and ?conf = "test_conf (lib E) T gateway port n key own_net"
  let ?k = "(Some ?ns, ''wg0'')"
  let ?K1 = "(view s)\<lparr>k_netns := insert ?ns (k_netns (view s)), k_ipt := (k_ipt (view s))(?ns := ipt0)\<rparr>"
  let ?K2 = "?K1\<lparr>k_ifs := (k_ifs (view s))(?k \<mapsto> fresh_if mtu0 None)\<rparr>"
  let ?K3 = "upd_if ?k (\<lambda>i. i\<lparr>if_up := True\<rparr>) ?K2"
  let ?K4 = "upd_if ?k (\<lambda>i. i\<lparr>if_addrs := insert ?a (if_addrs i)\<rparr>) ?K3"
  let ?K5 = "?K4\<lparr>k_nsfiles := (k_nsfiles ?K4)((?ns, ''wireguard/wg0.conf'') \<mapsto> ?conf)\<rparr>"
  let ?K6 = "upd_if ?k (\<lambda>i. i\<lparr>if_conf := Some ?conf\<rparr>) ?K5"
  have none: "k_ifs (view s) ?k = None" and new: "?ns \<notin> k_netns (view s)"
    using unused unfolding unused_ns_def by (metis fst_conv not_Some_eq)+
  have m1: "moves view (netns_add E ?ns) s ?K1" by (rule law_netns_add [OF new])
  have m2: "moves view (wireguard_create E (Some ?ns) ''wg0'') u ?K2" if "view u = ?K1" for u
    using law_wireguard_create [of ?ns u "''wg0''"] none by (simp add: that)
  have m3: "moves view (interface_up E (Some ?ns) ''wg0'') u ?K3" if "view u = ?K2" for u
    using law_interface_up [of u "Some ?ns" "''wg0''"] by (simp add: that)
  have m4: "moves view (addr_add E (Some ?ns) ''wg0'' ?a) u ?K4" if "view u = ?K3" for u
    using law_addr_add [of u "Some ?ns" "''wg0''" "(fresh_if mtu0 None)\<lparr>if_up := True\<rparr>" ?a]
    by (simp add: that fresh_if_def)
  have m5: "moves view (netns_write_file E ?ns ''wireguard/wg0.conf'' ?conf) u ?K5" if "view u = ?K4" for u
    using law_netns_write_file [of ?ns u] by (simp add: that)
  have m6: "moves view (wireguard_syncconf E ?ns ''wg0'') u ?K6" if "view u = ?K5" for u
    using law_wireguard_syncconf [of u ?ns "''wg0''" ?conf] by (simp add: that)
  have run: "moves view (setup_peer E T gateway keys port n k ps) s ?K6"
    unfolding setup_peer_def Let_def
    by (intro moves_then [OF m1] moves_then [OF m2] moves_then [OF m3] moves_bind_lift [where x = "IpNetV4 (Ipv4Net a 32)"]
        moves_bind_lift [where x = ?a] moves_then [OF m4] moves_bind_lift [where x = key]
        moves_bind_lift [where x = own_net] moves_then [OF m5] m6)
      (simp_all add: index0_def ips key addr net_new)
  have "?K6 = spec_peer_ns mtu0 ipt0 ?ns ?a ?conf (view s)"
    by (simp add: spec_peer_ns_def upd_if_def peer_if_def fresh_if_def)
  with run show ?thesis by metis
qed

lemma del_restores:
  assumes "unused_ns ns K" and "view u = spec_peer_ns mtu0 ipt0 ns a conf K"
  shows "\<exists>u'. netns_del E ns u = (Ok (), u') \<and> restored K (view u')"
  using law_netns_del [of ns u] restored_del [OF assms(1), of mtu0 ipt0 a conf]
  by (auto simp: moves_def assms(2) spec_del_def spec_peer_ns_def)

lemma peer_runs:
  assumes "test_network_ok keys n" and "bt_get (ns_peers n) k = Some ps"
    and "unused_ns (test_netns T port k) (view s)"
  obtains r s1 s2 where "setup_peer E T gateway keys port n k ps s = (Ok (), s1)"
    and "ping_host (lib E) T (test_netns T port k) (ip_net_addr own_net) s1 = (r, s2)"
    and "if reach (test_netns T port k) (ip_net_addr own_net) then r = Ok () else (\<exists>e. r = Err e)"
    and "\<exists>s3. netns_del E (test_netns T port k) s2 = (Ok (), s3) \<and> restored (view s) (view s3)"
    and "ns_address n = [own_net]"
proof -
  obtain a conf s1 where 1: "setup_peer E T gateway keys port n k ps s = (Ok (), s1)"
      "view s1 = spec_peer_ns mtu0 ipt0 (test_netns T port k) a conf (view s)"
    using setup_peer_moves [OF assms] unfolding moves_def by blast
  obtain r s2 where 2: "ping_host (lib E) T (test_netns T port k) (ip_net_addr own_net) s1 = (r, s2)" "view s2 = view s1"
      "if reach (test_netns T port k) (ip_net_addr own_net) then r = Ok () else (\<exists>e. r = Err e)"
    using run_ping by blast
  show thesis
    using that [OF 1(1) 2(1,3)] del_restores [OF assms(3), of s2 a conf] 1(2) 2(2) assms(1)
    by (auto simp: test_network_ok_def)
qed

lemma verify_peer_decides:
  assumes "test_network_ok keys n" and "bt_get (ns_peers n) k = Some ps"
    and "unused_ns (test_netns T port k) (view s)"
  shows "\<exists>r s'. verify_peer E T gateway keys port n (k, ps) s = (r, s') \<and>
     (if reach (test_netns T port k) (ip_net_addr own_net) then r = Ok () \<and> restored (view s) (view s')
      else (\<exists>e. r = Err e))"
  by (rule peer_runs [OF assms, of gateway])
    (auto simp: verify_peer_def then_io_def bind_io_def run_simps index0_def split: if_splits)

lemma verify_old_peer_decides:
  assumes "test_network_ok keys n" and "bt_get (ns_peers n) k = Some ps"
    and "unused_ns (test_netns T port k) (view s)"
  shows "\<exists>r s'. verify_old_peer E T gateway keys port n (k, ps) s = (r, s') \<and>
     (if \<not> reach (test_netns T port k) (ip_net_addr own_net) then r = Ok () \<and> restored (view s) (view s')
      else (\<exists>e. r = Err e))"
  by (rule peer_runs [OF assms, of gateway])
    (auto simp: verify_old_peer_def then_io_def bind_io_def run_simps index0_def split: if_splits)

text \<open>Both checks are the same loop over the peers of all networks.\<close>

lemma check_decides:
  assumes c: "test_config_ok keys c"
    and one: "\<And>port n k ps s. test_network_ok keys n \<Longrightarrow> bt_get (ns_peers n) k = Some ps \<Longrightarrow>
      unused_ns (test_netns T port k) (view s) \<Longrightarrow>
      \<exists>r s'. check port n (k, ps) s = (r, s') \<and>
        (if good port k then r = Ok () \<and> restored (view s) (view s') else (\<exists>e. r = Err e))"
    and unused: "\<And>port n k ps. bt_get c port = Some n \<Longrightarrow> bt_get (ns_peers n) k = Some ps \<Longrightarrow>
      unused_ns (test_netns T port k) (view s)"
  shows "\<exists>r s'. for_io (bt_iter c) (\<lambda>(port, n). for_io (bt_iter (ns_peers n)) (check port n)) s = (r, s') \<and>
     (if \<forall>(port, n) \<in> set (bt_iter c). \<forall>(k, ps) \<in> set (bt_iter (ns_peers n)). good port k
      then r = Ok () \<and> restored (view s) (view s') else (\<exists>e. r = Err e))"
proof -
  have inner: "\<exists>r s'. for_io (bt_iter (ns_peers n)) (check port n) u = (r, s') \<and>
      (if \<forall>e \<in> set (bt_iter (ns_peers n)). good port (fst e) then r = Ok () \<and> restored (view s) (view s')
       else (\<exists>e. r = Err e))"
    if "(port, n) \<in> set (bt_iter c)" and "restored (view s) (view u)" for port n u
  proof (rule for_io_decides)
    fix e u' assume e: "e \<in> set (bt_iter (ns_peers n))" and u': "restored (view s) (view u')"
    have n: "bt_get c port = Some n" using that(1) by (simp add: bt.iter_mem)
    have p: "bt_get (ns_peers n) (fst e) = Some (snd e)" using e by (simp add: bt.iter_mem [symmetric])
    have "unused_ns (test_netns T port (fst e)) (view u')" using unused_restored [OF unused [OF n p] u'] .
    then show "\<exists>r s'. check port n e u' = (r, s') \<and>
        (if good port (fst e) then r = Ok () \<and> restored (view s) (view s') else (\<exists>e. r = Err e))"
      using one [of n "fst e" "snd e" port u'] c n p restored_trans [OF u'] unfolding test_config_ok_def by fastforce
  qed (rule that(2))
  show ?thesis
    using for_io_decides [of "bt_iter c" "\<lambda>u. restored (view s) (view u)"
        "\<lambda>(port, n). for_io (bt_iter (ns_peers n)) (check port n)"
        "\<lambda>(port, n). \<forall>e \<in> set (bt_iter (ns_peers n)). good port (fst e)" s] inner restored_refl
    by (fastforce simp: case_prod_beta)
qed

lemma verify_config_decides:
  assumes "test_config_ok keys c"
    and "\<And>port n k ps. bt_get c port = Some n \<Longrightarrow> bt_get (ns_peers n) k = Some ps \<Longrightarrow>
      unused_ns (test_netns T port k) (view s)"
  shows "\<exists>r s'. verify_config E T gateway c keys s = (r, s') \<and>
     (if \<forall>(port, n) \<in> set (bt_iter c). \<forall>(k, ps) \<in> set (bt_iter (ns_peers n)).
           reach (test_netns T port k) (ip_net_addr own_net)
      then r = Ok () \<and> restored (view s) (view s') else (\<exists>e. r = Err e))"
  unfolding verify_config_def
  by (rule check_decides [OF assms(1), where check = "verify_peer E T gateway keys"
        and good = "\<lambda>port k. reach (test_netns T port k) (ip_net_addr own_net)"])
    (simp_all add: verify_peer_decides assms(2))

lemma verify_old_config_decides:
  assumes "test_config_ok keys c"
    and "\<And>port n k ps. bt_get c port = Some n \<Longrightarrow> bt_get (ns_peers n) k = Some ps \<Longrightarrow>
      unused_ns (test_netns T port k) (view s)"
  shows "\<exists>r s'. verify_old_config E T gateway c keys s = (r, s') \<and>
     (if \<forall>(port, n) \<in> set (bt_iter c). \<forall>(k, ps) \<in> set (bt_iter (ns_peers n)).
           \<not> reach (test_netns T port k) (ip_net_addr own_net)
      then r = Ok () \<and> restored (view s) (view s') else (\<exists>e. r = Err e))"
  unfolding verify_old_config_def
  by (rule check_decides [OF assms(1), where check = "verify_old_peer E T gateway keys"
        and good = "\<lambda>port k. \<not> reach (test_netns T port k) (ip_net_addr own_net)"])
    (simp_all add: verify_old_peer_decides assms(2))

end

section \<open>A passing run\<close>

text \<open>The statuses of the apply responses among some messages.\<close>

definition statuses :: "'t test_env \<Rightarrow> test_msg list \<Rightarrow> (string + unit) list" where
  "statuses T ms = concat (map (\<lambda>m. case m of MsgOther \<Rightarrow> []
     | MsgText v \<Rightarrow> (case response_from_str T v of Ok (RespApply status) \<Rightarrow> [status] | _ \<Rightarrow> [])) ms)"

text \<open>If \<open>m\<close> returns, it has read messages with exactly \<open>k\<close> apply responses, each of them a success.\<close>

definition consumes :: "'t test_env \<Rightarrow> nat \<Rightarrow> ('t test_state, 'a) io \<Rightarrow> bool" where
  "consumes T k m \<longleftrightarrow> (\<forall>t x t'. m t = (Ok x, t') \<longrightarrow>
     (\<exists>ms. inbox t = ms @ inbox t' \<and> statuses T ms = replicate k (Inr ())))"

lemma consumes_inbox: "(\<And>t x t'. m t = (Ok x, t') \<Longrightarrow> inbox t' = inbox t) \<Longrightarrow> consumes T 0 m"
  by (fastforce simp: consumes_def statuses_def)

lemma consumes_bind:
  assumes "consumes T j m" and "\<And>x. consumes T k (f x)"
  shows "consumes T (j + k) (bind_io m f)"
  unfolding consumes_def
proof (intro allI impI)
  fix t y t'' assume "bind_io m f t = (Ok y, t'')"
  then obtain x t' where m: "m t = (Ok x, t')" and f: "f x t' = (Ok y, t'')"
    by (auto simp: bind_io_def split: prod.splits res.splits)
  obtain ms where ms: "inbox t = ms @ inbox t'" "statuses T ms = replicate j (Inr ())"
    using assms(1) m unfolding consumes_def by blast
  obtain ns where ns: "inbox t' = ns @ inbox t''" "statuses T ns = replicate k (Inr ())"
    using assms(2) f unfolding consumes_def by blast
  show "\<exists>ms. inbox t = ms @ inbox t'' \<and> statuses T ms = replicate (j + k) (Inr ())"
    using ms ns by (intro exI [of _ "ms @ ns"]) (simp add: statuses_def replicate_add)
qed

lemma consumes_then: "consumes T j m \<Longrightarrow> consumes T k m' \<Longrightarrow> consumes T (j + k) (then_io m m')"
  unfolding then_io_def by (rule consumes_bind)

lemma consumes_ret: "consumes T 0 (ret x)"
  and consumes_lift: "consumes T 0 (lift_res r)"
  and consumes_on_test: "consumes T 0 (on_test act)"
  and consumes_keys: "consumes T 0 (\<lambda>t. (Ok (), t\<lparr>peer_keys := f t\<rparr>))"
  and consumes_verify: "consumes T 0 (verify_with check)"
  by (rule consumes_inbox; auto simp: run_simps on_test_def zoom_def verify_with_def split: prod.splits)+

lemma await_apply_consumes:
  "await_apply T ms = (Ok status, rest) \<Longrightarrow> \<exists>pre. ms = pre @ rest \<and> statuses T pre = [status]"
proof (induction T ms rule: await_apply.induct)
  case (2 T ms)
  then obtain pre where "ms = pre @ rest" "statuses T pre = [status]" by auto
  then show ?case by (intro exI [of _ "MsgOther # pre"]) (simp add: statuses_def)
next
  case (3 T v ms)
  show ?case
  proof (cases "\<exists>st. response_from_str T v = Ok (RespApply st)")
    case True
    with "3.prems" show ?thesis by (intro exI [of _ "[MsgText v]"]) (auto simp: statuses_def)
  next
    case False
    with "3.prems" have "await_apply T ms = (Ok status, rest)" "no_apply T (MsgText v)"
      by (auto simp: no_apply_def split: res.splits gateway_response.splits)
    with "3.IH" False obtain pre where "ms = pre @ rest" "statuses T pre = [status]"
      by (auto simp: no_apply_def split: res.splits gateway_response.splits)
    with False show ?thesis
      by (intro exI [of _ "MsgText v # pre"]) (auto simp: statuses_def split: res.splits gateway_response.splits)
  qed
qed simp

lemma receive_consumes: "consumes T 1 (apply_ok (receive_status T))"
  by (auto simp: consumes_def apply_ok_def receive_status_def bind_io_def run_simps assert_ok_def
      split: prod.splits res.splits sum.splits dest!: await_apply_consumes)

lemma apply_ok_bind: "apply_ok (bind_io m f) = bind_io m (\<lambda>x. apply_ok (f x))"
  by (auto simp: apply_ok_def bind_io_def fun_eq_iff split: prod.splits res.splits)

lemma consumes_apply: "consumes T 1 (apply_ok (apply_config T c))"
  and consumes_apply_partial: "consumes T 1 (apply_ok (apply_partial_config T d))"
  using consumes_bind [OF consumes_lift consumes_bind [OF consumes_on_test receive_consumes]]
  by (simp_all add: apply_config_def apply_partial_config_def then_io_def apply_ok_bind)

lemma consumes_rounds: "(\<And>x. consumes T k (body x)) \<Longrightarrow> consumes T (n * k) (rounds n body x)"
  by (induction n arbitrary: x) (auto simp: consumes_ret intro: consumes_bind)

lemma consumes_peers: "consumes T 0 (generate_peers L p T address ns network)"
proof (induction ns arbitrary: network)
  case (Cons n ns)
  have "consumes T 0 (generate_peer L p T address n network)"
    unfolding generate_peer_def Let_def
    using consumes_bind [OF consumes_lift consumes_bind [OF consumes_on_test consumes_then [OF consumes_keys consumes_ret]]]
    by simp
  then show ?case using consumes_bind [OF _ Cons] by fastforce
qed (simp add: consumes_ret)

lemma consumes_generate: "consumes T 0 (generate_config L p T k r)"
proof -
  have one: "consumes T 0 (generate_network L p T r c)" for c
    unfolding generate_network_def
    using consumes_bind [OF consumes_on_test consumes_bind [OF consumes_on_test consumes_bind [OF consumes_lift
        consumes_bind [OF consumes_on_test consumes_bind [OF consumes_lift consumes_bind [OF consumes_peers consumes_ret]]]]]]
    by simp
  have "consumes T 0 (generate_networks L p T r k c)" for c
    by (induction k arbitrary: c) (use consumes_bind [OF one] in \<open>fastforce simp: consumes_ret\<close>)+
  then show ?thesis by (simp add: generate_config_def)
qed

lemma consumes_generate_partial: "consumes T 0 (generate_partial_config L p T add remove r existing)"
  unfolding generate_partial_config_def Let_def
  using consumes_bind [OF consumes_generate consumes_bind [OF consumes_on_test consumes_ret]] by simp

lemma consumes_round_config: "consumes T 1 (round_config E T gateway c)"
  unfolding round_config_def
  using consumes_bind [OF consumes_generate consumes_then [OF consumes_apply consumes_then [OF consumes_verify consumes_ret]]]
  by simp

lemma consumes_round_old: "consumes T 1 (round_old_config E T gateway c)"
  unfolding round_old_config_def
  using consumes_bind [OF consumes_generate consumes_then [OF consumes_apply
      consumes_then [OF consumes_on_test consumes_then [OF consumes_verify consumes_ret]]]]
  by simp

lemma consumes_round_partial: "consumes T 1 (round_partial E T gateway add remove existing c)"
  unfolding round_partial_def Let_def
  using consumes_bind [OF consumes_generate_partial consumes_then [OF consumes_apply_partial
      consumes_then [OF consumes_verify consumes_ret]]]
  by simp

lemma run_tests_consumes:
  fixes T :: "'t test_env"
  shows "consumes T 14 (run_tests E T gateway)"
proof -
  have three: "(\<And>x. consumes T 1 (body x)) \<Longrightarrow> consumes T 3 (rounds 3 body x)"
    for body :: "gateway_config \<Rightarrow> ('t test_state, gateway_config) io" and x
    using consumes_rounds [of T 1 body 3 x] by simp
  have "consumes T (1 + (0 + (3 + (3 + (3 + (3 + 1)))))) (run_tests E T gateway)"
    unfolding run_tests_def
    by (intro consumes_then consumes_bind consumes_apply consumes_keys three consumes_round_config
        consumes_round_old consumes_round_partial)
  then show ?thesis by simp
qed

end
