(* ===== verification/Runtime.thy ===== *)
theory Runtime
  imports Gateway
begin

text \<open>
  \<^verbatim>\<open>src/lib.rs\<close> and \<^verbatim>\<open>src/websocket.rs\<close>: the command-line parser of custom forwardings, the start-up
  sequence, and the connection to the manager. The WebSocket, the JSON codec and the HTTP request
  builder are parameters (record \<open>ws_env\<close>). The \<open>select!\<close> loop takes one ready input at a time, in an
  order the run-time chooses; a run of the loop is given by the sequence of the inputs it takes.
\<close>

definition BROADCAST_QUEUE_TRAFFIC :: nat where "BROADCAST_QUEUE_TRAFFIC = 16"
definition BROADCAST_QUEUE_EVENTS :: nat where "BROADCAST_QUEUE_EVENTS = 16"

section \<open>Command line\<close>

definition parse_custom_forwarding :: "libs \<Rightarrow> string \<Rightarrow> (url \<times> socket_addr) res" where
  "parse_custom_forwarding L txt =
     (let parts = split_on (CHR ''='') txt in
      bind_res (ok_or (case parts of [] \<Rightarrow> None | p # _ \<Rightarrow> Some p) (Msg ''Missing URL part'')) (\<lambda>url_part.
      bind_res (context_res ''While parsing forwarding URL'' (url_parse L url_part)) (\<lambda>url.
      bind_res (ok_or (case parts of _ # p # _ \<Rightarrow> Some p | _ \<Rightarrow> None) (Msg ''Missing socket part'')) (\<lambda>socket_part.
      bind_res (sock_from_str L socket_part) (\<lambda>socket.
      Ok (url, socket))))))"

text \<open>
  The command line as the attributes of \<open>Options\<close> describe it. Collecting the values (from the arguments,
  the environment or the default, split at commas where the attribute says so) is the work of
  \<^verbatim>\<open>structopt\<close>, the parameter \<open>clap\<close> below; each collected text is then parsed as its field's attribute
  says. \<^verbatim>\<open>humantime\<close>'s \<open>parse_duration\<close> is a parameter too.
\<close>

record arg_spec =
  arg_long :: string
  arg_short :: "char option"
  arg_env :: "string option"
  arg_default :: "string option"
  arg_use_delimiter :: bool

definition OPTION_ARGS :: "arg_spec list" where
  "OPTION_ARGS =
     [\<lparr>arg_long = ''token'', arg_short = Some CHR ''t'', arg_env = Some ''GATEWAY_TOKEN'',
        arg_default = None, arg_use_delimiter = False\<rparr>,
      \<lparr>arg_long = ''watchdog'', arg_short = Some CHR ''w'', arg_env = None,
        arg_default = Some ''60s'', arg_use_delimiter = False\<rparr>,
      \<lparr>arg_long = ''custom-forwarding'', arg_short = None, arg_env = Some ''GATEWAY_CUSTOM_FORWARDING'',
        arg_default = None, arg_use_delimiter = True\<rparr>,
      \<lparr>arg_long = ''manager'', arg_short = Some CHR ''m'', arg_env = Some ''GATEWAY_MANAGER'',
        arg_default = None, arg_use_delimiter = False\<rparr>,
      \<lparr>arg_long = ''identity'', arg_short = Some CHR ''i'', arg_env = Some ''GATEWAY_IDENTITY'',
        arg_default = None, arg_use_delimiter = False\<rparr>]"

record matches =
  m_token :: string
  m_watchdog :: string
  m_custom_forwarding :: "string list"
  m_manager :: string
  m_identity :: string

type_synonym clap = "arg_spec list \<Rightarrow> string list \<Rightarrow> matches res"

definition options_from_args :: "libs \<Rightarrow> clap \<Rightarrow> (string \<Rightarrow> nat res) \<Rightarrow> string list \<Rightarrow> options res" where
  "options_from_args L clap parse_duration args =
     bind_res (clap OPTION_ARGS args) (\<lambda>m.
     bind_res (parse_duration (m_watchdog m)) (\<lambda>watchdog.
     bind_res (collect_res (parse_custom_forwarding L) (m_custom_forwarding m)) (\<lambda>custom_forwarding.
     bind_res (url_parse L (m_manager m)) (\<lambda>manager.
     Ok \<lparr>opt_token = m_token m, opt_watchdog = watchdog, opt_custom_forwarding = custom_forwarding,
         opt_manager = manager, opt_identity = m_identity m\<rparr>))))"

section \<open>Global state\<close>

text \<open>
  \<open>Global\<close>: what is shared by all parts of the program. The configuration behind its lock is the field
  \<open>gw_config\<close> of the gateway's state, and the two broadcast channels belong to the environments of
  the watchdog and of the connection; the rest is copied from the options.
\<close>

record global =
  gl_options :: options
  gl_watchdog :: nat
  gl_token :: string
  gl_manager :: url

definition options_global :: "options \<Rightarrow> global" where
  "options_global os = \<lparr>gl_options = os, gl_watchdog = opt_watchdog os, gl_token = opt_token os,
     gl_manager = opt_manager os\<rparr>"

section \<open>The connection's environment\<close>

text \<open>What \<open>select!\<close> may take next; a receiver gives an error when it lags behind or is closed.\<close>

datatype ws_input =
    SockText string
  | SockOther
  | SockError error
  | SockClosed
  | TrafficRecv "traffic_info res"
  | EventRecv "gateway_event res"

text \<open>\<open>'c\<close> is the state of the network connection, \<open>'s\<close> that of the host.\<close>

record ('s, 'c) conn =
  cn_gw :: "'s gateway"
  cn_sock :: 'c

record 'c ws_env =
  build_request :: "string \<Rightarrow> string \<Rightarrow> string \<Rightarrow> string res"
  ws_connect :: "string \<Rightarrow> ('c, unit) io"
  ws_send :: "string \<Rightarrow> ('c, unit) io"
  request_from_str :: "string \<Rightarrow> gateway_request res"
  response_to_string :: "gateway_response \<Rightarrow> string res"

definition on_gw :: "('s gateway, 'a) io \<Rightarrow> (('s, 'c) conn, 'a) io" where
  "on_gw m = zoom cn_gw (\<lambda>g c. c\<lparr>cn_gw := g\<rparr>) m"

definition on_sock :: "('c, 'a) io \<Rightarrow> (('s, 'c) conn, 'a) io" where
  "on_sock m = zoom cn_sock (\<lambda>s c. c\<lparr>cn_sock := s\<rparr>) m"

section \<open>Serving a connection\<close>

text \<open>The handlers' errors become the text sent back; a panic is not caught.\<close>

definition catch_io :: "('s, unit) io \<Rightarrow> ('s, string + unit) io" where
  "catch_io m = (\<lambda>s. case m s of
      (Ok _, s') \<Rightarrow> (Ok (Inr ()), s')
    | (Err e, s') \<Rightarrow> (Ok (Inl (error_to_string e)), s')
    | (Panic, s') \<Rightarrow> (Panic, s'))"

definition send_response :: "'c ws_env \<Rightarrow> gateway_response \<Rightarrow> (('s, 'c) conn, unit) io" where
  "send_response C r = bind_io (lift_res (response_to_string C r)) (\<lambda>message. on_sock (ws_send C message))"

definition handle_request :: "'s env \<Rightarrow> 'c ws_env \<Rightarrow> gateway_request \<Rightarrow> (('s, 'c) conn, bool) io" where
  "handle_request E C req = (case req of
      ReqApply config \<Rightarrow>
        bind_io (on_gw (catch_io (gateway_apply E config))) (\<lambda>result.
        then_io (send_response C (RespApply result)) (ret False))
    | ReqApplyPartial config \<Rightarrow>
        bind_io (on_gw (catch_io (apply_partial E config))) (\<lambda>result.
        then_io (send_response C (RespApply result)) (ret False))
    | ReqShutdown \<Rightarrow> ret True)"

text \<open>One turn of the loop; \<open>True\<close> is the \<open>break\<close>.\<close>

definition handle_input :: "'s env \<Rightarrow> 'c ws_env \<Rightarrow> ws_input \<Rightarrow> (('s, 'c) conn, bool) io" where
  "handle_input E C i = (case i of
      SockText txt \<Rightarrow> bind_io (lift_res (request_from_str C txt)) (handle_request E C)
    | SockOther \<Rightarrow> ret False
    | SockError e \<Rightarrow> fail e
    | SockClosed \<Rightarrow> fail (Msg ''Server closed WebSocket stream'')
    | TrafficRecv r \<Rightarrow> bind_io (lift_res r) (\<lambda>traffic.
        then_io (send_response C (RespTraffic traffic)) (ret False))
    | EventRecv r \<Rightarrow> bind_io (lift_res r) (\<lambda>event.
        then_io (send_response C (RespEvent event)) (ret False)))"

text \<open>
  The loop over the inputs taken so far: it has left (\<open>True\<close>), is waiting for the next input
  (\<open>False\<close>), or has returned an error.
\<close>

fun serve :: "'s env \<Rightarrow> 'c ws_env \<Rightarrow> ws_input list \<Rightarrow> (('s, 'c) conn, bool) io" where
  "serve E C [] = ret False"
| "serve E C (i # is) = bind_io (handle_input E C i) (\<lambda>stop. if stop then ret True else serve E C is)"

text \<open>The request and the connection itself; the subscriptions and the loop follow.\<close>

definition open_socket :: "'s env \<Rightarrow> 'c ws_env \<Rightarrow> ('c, unit) io" where
  "open_socket E C =
     (let global = options_global (opts E) in
     bind_io (lift_res (build_request C (url_to_string (gl_manager global))
       (''Bearer '' @ gl_token global) (opt_identity (gl_options global)))) (ws_connect C))"

definition connect_run :: "'s env \<Rightarrow> 'c ws_env \<Rightarrow> ws_input list \<Rightarrow> (('s, 'c) conn, bool) io" where
  "connect_run E C inputs = then_io (on_sock (open_socket E C)) (serve E C inputs)"

text \<open>
  \<open>connect\<close>: attempt after attempt until one leaves its loop. \<open>connect\<close> is given the inputs of every
  attempt so far; it has returned (\<open>True\<close>), is still busy with the last attempt or waiting to
  reconnect (\<open>False\<close>), or has panicked.
\<close>

fun connect :: "'s env \<Rightarrow> 'c ws_env \<Rightarrow> ws_input list list \<Rightarrow> (('s, 'c) conn, bool) io" where
  "connect E C [] = ret False"
| "connect E C (inputs # attempts) = (\<lambda>s. case connect_run E C inputs s of
      (Ok True, s') \<Rightarrow> (Ok True, s')
    | (Ok False, s') \<Rightarrow> (Ok False, s')
    | (Err e, s') \<Rightarrow> connect E C attempts s'
    | (Panic, s') \<Rightarrow> (Panic, s'))"

section \<open>Start-up\<close>

text \<open>
  \<open>Options::global\<close> starts with the empty configuration; \<open>Options::run\<close> launches the watchdog as a
  task of its own, initialises NGINX and then serves the manager.
\<close>

definition global_start :: "'s \<Rightarrow> 's gateway" where
  "global_start s = \<lparr>gw_config = bt_empty, gw_sys = s\<rparr>"

text \<open>Like \<open>connect\<close> it has returned (\<open>True\<close>) or is still serving (\<open>False\<close>).\<close>

definition options_run :: "'s env \<Rightarrow> 'c ws_env \<Rightarrow> ws_input list list \<Rightarrow> (('s, 'c) conn, bool) io" where
  "options_run E C attempts =
     then_io (on_gw (on_sys (context_io ''Starting up gateway'' (startup E))))
     (connect E C attempts)"

text \<open>
  \<open>main\<close> (\<^verbatim>\<open>src/main.rs\<close>): the environment \<open>E\<close> without its options, which come from the command line.
  A command line that cannot be parsed ends the process, here as an error.
\<close>

definition gateway_main ::
  "clap \<Rightarrow> (string \<Rightarrow> nat res) \<Rightarrow> 's env \<Rightarrow> 'c ws_env \<Rightarrow> string list \<Rightarrow> ws_input list list \<Rightarrow> (('s, 'c) conn, bool) io" where
  "gateway_main clap parse_duration E C args attempts =
     bind_io (lift_res (options_from_args (lib E) clap parse_duration args)) (\<lambda>options.
     options_run (E\<lparr>opts := options\<rparr>) C attempts)"

end
