(* ===== verification/Net_Text.thy ===== *)
theory Net_Text
  imports Libs
begin

text \<open>
  Text forms of IPv4 addresses: an address and a socket address printed by the standard library are
  read back by its parser, and use no character that separates fields of the WireGuard dump.
\<close>

lemma octet_nat: "octet a i = unat a div 2 ^ (8 * (3 - i)) mod 256"
proof -
  have "unat a mod 4294967296 = unat a" using unsigned_less [of a, where ?'a = nat] by simp
  then show ?thesis
    unfolding octet_def unsigned_take_bit_eq unsigned_drop_bit_eq
    by (simp add: take_bit_eq_mod drop_bit_eq_div)
qed

lemma octet_less: "octet a i < 256"
  by (simp add: octet_nat)

lemma div_step: "(x :: nat) div (m * k) * k + x div m mod k = x div m"
  by (simp add: div_mult2_eq)

lemma ipv4_of_octets_octet:
  "ipv4_of_octets (octet a 0) (octet a 1) (octet a 2) (octet a 3) = a"
proof -
  let ?x = "unat a"
  have "?x < 2 ^ 32" using unsigned_less [of a, where ?'a = nat] by simp
  then have top: "?x div 2 ^ 24 mod 256 = ?x div 2 ^ 24" by simp
  have "((?x div 2 ^ 24 mod 256 * 256 + ?x div 2 ^ 16 mod 256) * 256 + ?x div 2 ^ 8 mod 256) * 256
      + ?x mod 256 = ?x"
    using div_step [of ?x "2 ^ 16" 256] div_step [of ?x "2 ^ 8" 256] div_step [of ?x 1 256]
    unfolding top by simp
  moreover have "octet a 0 = ?x div 2 ^ 24 mod 256" "octet a 1 = ?x div 2 ^ 16 mod 256"
    "octet a 2 = ?x div 2 ^ 8 mod 256" "octet a 3 = ?x mod 256"
    by (simp_all add: octet_nat)
  ultimately have "((octet a 0 * 256 + octet a 1) * 256 + octet a 2) * 256 + octet a 3 = ?x"
    by (simp only:)
  then show ?thesis by (simp add: ipv4_of_octets_def)
qed

lemma digit_char_zero: "d < 10 \<Longrightarrow> digit_char d = CHR ''0'' \<longleftrightarrow> d = 0"
  by (auto simp: digit_char_def char_of_eq_iff take_bit_eq_mod)

lemma nat_to_dec_hd: "0 < n \<Longrightarrow> hd (nat_to_dec n) \<noteq> CHR ''0''"
proof (induction n rule: nat_to_dec.induct)
  case (1 n)
  then show ?case by (cases "n < 10") (simp_all add: nat_to_dec.simps [of n] digit_char_zero)
qed

lemma nat_to_dec_length: "n < 10 ^ k \<Longrightarrow> 0 < k \<Longrightarrow> length (nat_to_dec n) \<le> k"
proof (induction n arbitrary: k rule: nat_to_dec.induct)
  case (1 n)
  show ?case
  proof (cases "n < 10")
    case True
    with 1 show ?thesis by (simp add: nat_to_dec.simps [of n])
  next
    case False
    then obtain k' where k: "k = Suc k'" "0 < k'" using 1(2,3) by (cases k; cases "k - 1") auto
    have "length (nat_to_dec (n div 10)) \<le> k'" using 1(1) [OF False, of k'] 1(2) k by auto
    with False k show ?thesis by (simp add: nat_to_dec.simps [of n])
  qed
qed

lemma digits_only_dec: "digits_only (nat_to_dec n)"
proof -
  have "digit_val c \<noteq> None" if "c \<in> set (nat_to_dec n)" for c
    using nat_to_dec_digits [OF that] by auto
  then show ?thesis by (auto simp: digits_only_def)
qed

lemma parse_octet_dec:
  assumes "n < 256"
  shows "parse_octet (nat_to_dec n) = Some n"
proof -
  have "\<not> (1 < length (nat_to_dec n) \<and> hd (nat_to_dec n) = CHR ''0'')"
    using nat_to_dec_hd [of n] by (cases "n = 0") (auto simp: nat_to_dec.simps [of 0])
  with assms nat_to_dec_length [of n 3] show ?thesis
    by (simp add: parse_octet_def parse_digits_nat_to_dec digits_only_dec)
qed

lemma parse_port_dec: "parse_port (word_to_dec p) = Some p"
proof -
  have "unat p < 65536" using unsigned_less [of p, where ?'a = nat] by simp
  then show ?thesis by (simp add: parse_port_def parse_digits_nat_to_dec digits_only_dec)
qed

lemma split_ipv4_to_string:
  "split_on (CHR ''.'') (ipv4_to_string a) = map (\<lambda>i. nat_to_dec (octet a i)) [0, 1, 2, 3]"
  unfolding ipv4_to_string_def by (rule split_on_join) (simp_all add: nat_to_dec_special)

lemma parse_ipv4_to_string:
  "map parse_octet (split_on (CHR ''.'') (ipv4_to_string a)) =
     [Some (octet a 0), Some (octet a 1), Some (octet a 2), Some (octet a 3)]"
  by (simp add: split_ipv4_to_string parse_octet_dec octet_less)

lemma ipv4_chars: "c \<in> set (ipv4_to_string a) \<Longrightarrow> c = CHR ''.'' \<or> (\<exists>d<10. c = digit_char d)"
  using nat_to_dec_digits by (auto simp: ipv4_to_string_def)

lemma ipv4_no_special:
  "CHR '':'' \<notin> set (ipv4_to_string a)" "TAB \<notin> set (ipv4_to_string a)" "NL \<notin> set (ipv4_to_string a)"
  "CR \<notin> set (ipv4_to_string a)"
  using ipv4_chars [of _ a] digit_char_not_special by fastforce+

lemma ipv4_not_Nil: "ipv4_to_string a \<noteq> []"
  by (simp add: ipv4_to_string_def)

lemma sockv4_roundtrip: "sock_from_str L (sock_to_string L (SockV4 a p)) = Ok (SockV4 a p)"
proof -
  have "split_on (CHR '':'') (ipv4_to_string a @ CHR '':'' # word_to_dec p) = [ipv4_to_string a, word_to_dec p]"
    by (simp add: split_on_append split_on_no_sep ipv4_no_special nat_to_dec_special)
  then show ?thesis
    by (simp add: sock_from_str_def sockv4_from_str_def parse_ipv4_to_string parse_port_dec ipv4_of_octets_octet
        ipv4_of_octets_octet [unfolded One_nat_def])
qed

end
