(* ===== verification/Runtime_Props.thy ===== *)
theory Runtime_Props
  imports Runtime Gateway_Apply Net_Text
begin

text \<open>
  Properties of the connection to the manager: every request for a configuration is answered exactly
  once and in order, traffic and events are passed on unchanged, only a shutdown request ends the
  program, and parsing a custom forwarding inverts printing it.
\<close>

section \<open>Answers\<close>

text \<open>The inputs that call for a message, and the message each calls for.\<close>

definition calls_for_answer :: "'c ws_env \<Rightarrow> ws_input \<Rightarrow> bool" where
  "calls_for_answer C i = (case i of
      SockText x \<Rightarrow> (case request_from_str C x of Ok ReqShutdown \<Rightarrow> False | Ok _ \<Rightarrow> True | _ \<Rightarrow> False)
    | TrafficRecv _ \<Rightarrow> True
    | EventRecv _ \<Rightarrow> True
    | _ \<Rightarrow> False)"

definition answered_by :: "ws_input \<Rightarrow> gateway_response \<Rightarrow> bool" where
  "answered_by i r = (case i of
      SockText _ \<Rightarrow> (\<exists>result. r = RespApply result)
    | TrafficRecv x \<Rightarrow> (\<exists>ti. x = Ok ti \<and> r = RespTraffic ti)
    | EventRecv x \<Rightarrow> (\<exists>e. x = Ok e \<and> r = RespEvent e)
    | _ \<Rightarrow> False)"

locale open_connection =
  fixes C :: "'c ws_env" and out :: "'c \<Rightarrow> string list"
  assumes send_Ok: "\<exists>c'. ws_send C m c = (Ok (), c') \<and> out c' = out c @ [m]"
    and encode_Ok: "\<exists>m. response_to_string C r = Ok m"
begin

text \<open>\<open>says m s rs s'\<close>: between the two states exactly the responses \<open>rs\<close> were sent.\<close>

definition says :: "('s, 'c) conn \<Rightarrow> gateway_response list \<Rightarrow> ('s, 'c) conn \<Rightarrow> bool" where
  "says s rs s' \<longleftrightarrow> (\<exists>ms. list_all2 (\<lambda>r m. response_to_string C r = Ok m) rs ms \<and>
     out (cn_sock s') = out (cn_sock s) @ ms)"

lemma says_refl: "cn_sock s' = cn_sock s \<Longrightarrow> says s [] s'"
  by (simp add: says_def)

lemma says_trans: "says s rs s' \<Longrightarrow> says s' rs' s'' \<Longrightarrow> says s (rs @ rs') s''"
proof -
  assume "says s rs s'" "says s' rs' s''"
  then obtain ms ms' where "list_all2 (\<lambda>r m. response_to_string C r = Ok m) rs ms"
      "list_all2 (\<lambda>r m. response_to_string C r = Ok m) rs' ms'"
      "out (cn_sock s') = out (cn_sock s) @ ms" "out (cn_sock s'') = out (cn_sock s') @ ms'"
    by (auto simp: says_def)
  then show ?thesis unfolding says_def by (intro exI [of _ "ms @ ms'"]) (simp add: list_all2_appendI)
qed

lemma run_send_response:
  "\<exists>c'. send_response C r s = (Ok (), s\<lparr>cn_sock := c'\<rparr>) \<and> says s [r] (s\<lparr>cn_sock := c'\<rparr>)"
proof -
  obtain m where m: "response_to_string C r = Ok m" using encode_Ok by blast
  obtain c' where "ws_send C m (cn_sock s) = (Ok (), c')" "out c' = out (cn_sock s) @ [m]"
    using send_Ok by blast
  with m show ?thesis
    by (auto simp: send_response_def says_def bind_io_def run_simps on_sock_def zoom_def)
qed

lemma send_then_False:
  assumes "then_io (send_response C r) (ret False) s = (Ok b, s')"
  shows "\<not> b \<and> says s [r] s'"
  using run_send_response [of r s] assms by (auto simp: then_io_def bind_io_def run_simps)

lemma on_gw_sock: "on_gw m s = (r, s') \<Longrightarrow> cn_sock s' = cn_sock s"
  by (auto simp: on_gw_def zoom_def split: prod.splits)

lemma says_from: "cn_sock s1 = cn_sock s \<Longrightarrow> says s1 rs s' \<Longrightarrow> says s rs s'"
  by (simp add: says_def)

lemma handle_input_answers:
  assumes "handle_input E C i s = (Ok b, s')"
  shows "\<exists>rs. says s rs s' \<and> list_all2 answered_by (filter (calls_for_answer C) [i]) rs \<and>
     (b \<longleftrightarrow> (\<exists>x. i = SockText x \<and> request_from_str C x = Ok ReqShutdown))"
proof (cases i)
  case (SockText x)
  then obtain req where req: "request_from_str C x = Ok req" "handle_request E C req s = (Ok b, s')"
    using assms by (auto simp: handle_input_def bind_io_Ok_iff run_simps)
  show ?thesis
  proof (cases "req = ReqShutdown")
    case True
    with req SockText show ?thesis
      by (intro exI [of _ "[]"]) (auto simp: handle_request_def run_simps calls_for_answer_def says_refl)
  next
    case False
    then obtain m where m: "bind_io (on_gw (catch_io m)) (\<lambda>result.
        then_io (send_response C (RespApply result)) (ret False)) s = (Ok b, s')"
      using req(2) by (cases req) (auto simp: handle_request_def)
    then obtain result s1 where s1: "on_gw (catch_io m) s = (Ok result, s1)"
        "then_io (send_response C (RespApply result)) (ret False) s1 = (Ok b, s')"
      by (auto simp: bind_io_Ok_iff)
    have "\<not> b \<and> says s [RespApply result] s'"
      using send_then_False [OF s1(2)] on_gw_sock [OF s1(1)] says_from by blast
    moreover have "calls_for_answer C i" using False req(1) SockText
      by (auto simp: calls_for_answer_def split: gateway_request.splits)
    ultimately show ?thesis
      using False req(1) SockText by (intro exI [of _ "[RespApply result]"]) (auto simp: answered_by_def)
  qed
next
  case SockOther
  with assms show ?thesis
    by (intro exI [of _ "[]"]) (auto simp: handle_input_def run_simps calls_for_answer_def says_refl)
next
  case (TrafficRecv r)
  then obtain ti where "r = Ok ti" "then_io (send_response C (RespTraffic ti)) (ret False) s = (Ok b, s')"
    using assms by (auto simp: handle_input_def bind_io_Ok_iff run_simps)
  with TrafficRecv send_then_False show ?thesis
    by (intro exI [of _ "[RespTraffic ti]"]) (auto simp: calls_for_answer_def answered_by_def)
next
  case (EventRecv r)
  then obtain e where "r = Ok e" "then_io (send_response C (RespEvent e)) (ret False) s = (Ok b, s')"
    using assms by (auto simp: handle_input_def bind_io_Ok_iff run_simps)
  with EventRecv send_then_False show ?thesis
    by (intro exI [of _ "[RespEvent e]"]) (auto simp: calls_for_answer_def answered_by_def)
qed (use assms in \<open>auto simp: handle_input_def run_simps\<close>)

lemma serve_answers:
  "serve E C is s = (Ok False, s') \<Longrightarrow>
     \<exists>rs. says s rs s' \<and> list_all2 answered_by (filter (calls_for_answer C) is) rs"
proof (induction "is" arbitrary: s)
  case Nil
  then show ?case by (intro exI [of _ "[]"]) (auto simp: run_simps says_refl)
next
  case (Cons i "is")
  from Cons.prems obtain b s1 where b: "handle_input E C i s = (Ok b, s1)"
      "(if b then ret True else serve E C is) s1 = (Ok False, s')"
    by (auto simp: bind_io_Ok_iff)
  then have nb: "\<not> b" by (auto simp: run_simps split: if_splits)
  obtain rs where rs: "says s rs s1" "list_all2 answered_by (filter (calls_for_answer C) [i]) rs"
    using handle_input_answers [OF b(1)] by blast
  obtain rs' where rs': "says s1 rs' s'" "list_all2 answered_by (filter (calls_for_answer C) is) rs'"
    using Cons.IH b(2) nb by auto
  have "filter (calls_for_answer C) (i # is) = filter (calls_for_answer C) [i] @ filter (calls_for_answer C) is"
    by simp
  with rs rs' show ?case by (metis list_all2_appendI says_trans)
qed

end

section \<open>The end of the program\<close>

definition shutdown_input :: "'c ws_env \<Rightarrow> ws_input \<Rightarrow> bool" where
  "shutdown_input C i \<longleftrightarrow> (\<exists>x. i = SockText x \<and> request_from_str C x = Ok ReqShutdown)"

lemma handle_request_stop: "handle_request E C req s = (Ok True, s') \<Longrightarrow> req = ReqShutdown"
  by (cases req) (auto simp: handle_request_def bind_io_Ok_iff then_io_Ok_iff run_simps)

lemma handle_input_stop: "handle_input E C i s = (Ok True, s') \<Longrightarrow> shutdown_input C i"
  by (cases i) (auto simp: handle_input_def shutdown_input_def bind_io_Ok_iff then_io_Ok_iff
      run_simps dest: handle_request_stop)

lemma serve_stop: "serve E C is s = (Ok True, s') \<Longrightarrow> \<exists>i \<in> set is. shutdown_input C i"
proof (induction "is" arbitrary: s)
  case (Cons i "is")
  then obtain b s1 where "handle_input E C i s = (Ok b, s1)"
      "(if b then ret True else serve E C is) s1 = (Ok True, s')"
    by (auto simp: bind_io_Ok_iff)
  with Cons.IH handle_input_stop show ?case by (cases b) auto
qed (simp add: run_simps)

lemma connect_run_stop: "connect_run E C is s = (Ok True, s') \<Longrightarrow> \<exists>i \<in> set is. shutdown_input C i"
  using serve_stop by (fastforce simp: connect_run_def Let_def bind_io_Ok_iff then_io_Ok_iff run_simps)

lemma connect_stop:
  "connect E C attempts s = (Ok True, s') \<Longrightarrow> \<exists>is \<in> set attempts. \<exists>i \<in> set is. shutdown_input C i"
  by (induction attempts arbitrary: s)
    (auto simp: run_simps dest: connect_run_stop split: prod.splits res.splits bool.splits)

text \<open>\<open>connect\<close> never gives up: whatever an attempt's error, it is not the result.\<close>

lemma connect_no_error: "fst (connect E C attempts s) \<noteq> Err e"
  by (induction attempts arbitrary: s) (auto simp: run_simps split: prod.splits res.splits bool.splits)

text \<open>\<open>Options::run\<close> fails only while starting up, and returns only after a shutdown request.\<close>

lemma context_res_Err: "context_res c r = Err e \<Longrightarrow> \<exists>e'. e = Context c e' \<and> r = Err e'"
  by (cases r) auto

lemma options_run_outcome:
  "fst (options_run E C attempts s) = Ok True \<Longrightarrow> \<exists>is \<in> set attempts. \<exists>i \<in> set is. shutdown_input C i"
  "fst (options_run E C attempts s) = Err e \<Longrightarrow>
     \<exists>e'. e = Context ''Starting up gateway'' e' \<and> fst (startup E (gw_sys (cn_gw s))) = Err e'"
proof -
  let ?up = "on_gw (on_sys (context_io ''Starting up gateway'' (startup E))) s"
  have up: "fst ?up = context_res ''Starting up gateway'' (fst (startup E (gw_sys (cn_gw s))))"
    by (simp add: on_gw_def on_sys_def zoom_def context_io_def split: prod.splits)
  have run: "options_run E C attempts s = (case ?up of (Ok _, s') \<Rightarrow> connect E C attempts s'
      | (Err e, s') \<Rightarrow> (Err e, s') | (Panic, s') \<Rightarrow> (Panic, s'))"
    by (simp add: options_run_def then_io_def bind_io_def)
  obtain r s1 where r: "?up = (r, s1)" by (cases ?up)
  show "\<exists>is \<in> set attempts. \<exists>i \<in> set is. shutdown_input C i" if "fst (options_run E C attempts s) = Ok True"
    using that connect_stop [of E C attempts s1] by (cases r) (auto simp: run r prod_eq_iff)
  show "\<exists>e'. e = Context ''Starting up gateway'' e' \<and> fst (startup E (gw_sys (cn_gw s))) = Err e'"
    if "fst (options_run E C attempts s) = Err e"
  proof (rule context_res_Err)
    show "context_res ''Starting up gateway'' (fst (startup E (gw_sys (cn_gw s)))) = Err e"
      using that connect_no_error [of E C attempts s1 e] up by (cases r) (auto simp: run r)
  qed
qed

lemma gateway_main_outcome:
  "fst (gateway_main clap pd E C args attempts s) = Ok True \<Longrightarrow> \<exists>is \<in> set attempts. \<exists>i \<in> set is. shutdown_input C i"
  "fst (gateway_main clap pd E C args attempts s) = Err e \<Longrightarrow>
     options_from_args (lib E) clap pd args = Err e \<or>
     (\<exists>os e'. options_from_args (lib E) clap pd args = Ok os \<and> e = Context ''Starting up gateway'' e' \<and>
        fst (startup (E\<lparr>opts := os\<rparr>) (gw_sys (cn_gw s))) = Err e')"
  using options_run_outcome [of _ C attempts s]
  by (cases "options_from_args (lib E) clap pd args"; fastforce simp: gateway_main_def bind_io_def run_simps)+

text \<open>
  A shutdown request ends the program at once. \<open>after_failures\<close> is the state after attempts that have all
  failed.
\<close>

fun after_failures :: "'s env \<Rightarrow> 'c ws_env \<Rightarrow> ws_input list list \<Rightarrow> ('s, 'c) conn \<Rightarrow> ('s, 'c) conn option" where
  "after_failures E C [] s = Some s"
| "after_failures E C (is # attempts) s =
     (case connect_run E C is s of (Err e, s') \<Rightarrow> after_failures E C attempts s' | _ \<Rightarrow> None)"

lemma connect_after_failures:
  "after_failures E C failed s = Some s1 \<Longrightarrow> connect E C (failed @ attempts) s = connect E C attempts s1"
  by (induction failed arbitrary: s) (auto split: prod.splits res.splits)

lemma handle_shutdown: "shutdown_input C i \<Longrightarrow> handle_input E C i s = (Ok True, s)"
  by (auto simp: shutdown_input_def handle_input_def handle_request_def bind_io_def run_simps)

lemma serve_shutdown:
  assumes "serve E C pre s = (Ok False, s')" and "shutdown_input C i"
  shows "serve E C (pre @ i # post) s = (Ok True, s')"
  using assms(1)
proof (induction pre arbitrary: s)
  case Nil
  then show ?case by (simp add: run_simps bind_io_def handle_shutdown [OF assms(2)])
next
  case (Cons j pre)
  then obtain b s1 where 1: "handle_input E C j s = (Ok b, s1)"
      "(if b then ret True else serve E C pre) s1 = (Ok False, s')"
    by (auto simp: bind_io_Ok_iff)
  then have "\<not> b" "serve E C pre s1 = (Ok False, s')" by (cases b; simp add: run_simps)+
  with 1(1) Cons.IH show ?case by (simp add: bind_io_def)
qed

lemma connect_run_shutdown:
  assumes "connect_run E C pre s = (Ok False, s')" and "shutdown_input C i"
  shows "connect_run E C (pre @ i # post) s = (Ok True, s')"
proof -
  obtain s1 where "on_sock (open_socket E C) s = (Ok (), s1)" and "serve E C pre s1 = (Ok False, s')"
    using assms(1) by (auto simp: connect_run_def then_io_Ok_iff)
  with serve_shutdown [OF this(2) assms(2)] show ?thesis
    by (simp add: connect_run_def then_io_def bind_io_def)
qed

lemma connect_returns:
  assumes "after_failures E C failed s = Some s1" and "connect_run E C pre s1 = (Ok False, s2)"
    and "shutdown_input C i"
  shows "connect E C (failed @ (pre @ i # post) # later) s = (Ok True, s2)"
  by (simp add: connect_after_failures [OF assms(1)] connect_run_shutdown [OF assms(2,3)])

section \<open>Custom forwardings\<close>

lemma parse_custom_forwarding_Ok:
  assumes "CHR ''='' \<notin> set u" and "url_parse L u = Ok url" and "CHR ''='' \<notin> set t"
    and "sock_from_str L t = Ok socket"
  shows "parse_custom_forwarding L (u @ ''='' @ t) = Ok (url, socket)"
  using assms by (simp add: parse_custom_forwarding_def split_on_append split_on_no_sep)

lemma parse_custom_forwarding_pieces:
  "parse_custom_forwarding L txt = Ok (url, socket) \<longleftrightarrow>
     (\<exists>a b. (\<exists>ws. split_on (CHR ''='') txt = a # b # ws) \<and> url_parse L a = Ok url \<and> sock_from_str L b = Ok socket)"
  by (auto simp: parse_custom_forwarding_def Let_def bind_res_Ok_iff split: list.splits)

lemma sockv4_no_equals: "CHR ''='' \<notin> set (sock_to_string L (SockV4 a p))"
proof -
  have d: "digit_char d \<noteq> CHR ''=''" if "d < 10" for d
    using that by (auto simp: digit_char_def char_of_eq_iff take_bit_eq_mod)
  have "CHR ''='' \<notin> set (ipv4_to_string a)" using ipv4_chars [of "CHR ''=''" a] d by force
  moreover have "CHR ''='' \<notin> set (word_to_dec p)" using nat_to_dec_digits [of "CHR ''=''"] d by metis
  ultimately show ?thesis by simp
qed

section \<open>Start-up\<close>

context gateway_system
begin

lemma startup_present:
  assumes "k_files (view s) NGINX_MODULE_PATH \<noteq> None"
  shows "moves view (startup E) s (view s)"
  unfolding startup_def
  by (rule moves_bind [OF law_is_file]) (use assms in \<open>simp add: when_io_def moves_ret\<close>)

lemma startup_missing:
  assumes "k_files (view s) NGINX_MODULE_PATH = None" and "nginx_config E [] = Ok (m, st)"
    and "nginx_ok (Some m, Some st)"
  shows "moves view (startup E) s (spec_nginx m st (view s))"
  unfolding startup_def
proof (rule moves_bind [OF law_is_file])
  fix s' assume "view s' = view s"
  then show "moves view (when_io (\<not> k_files (view s) NGINX_MODULE_PATH \<noteq> None) (apply_nginx E [])) s'
      (spec_nginx m st (view s))"
    using apply_nginx_moves [OF assms(2,3), of s'] assms(1) by (simp add: when_io_def)
qed

end

end
