(* ===== verification/Iptables.thy ===== *)
theory Iptables
  imports Gateway
begin

text \<open>
  \<open>clean_iptables\<close>: what the comparison in \<open>apply_forwarding\<close> sees of two rule dumps. Two dumps are
  equal after cleaning exactly when their rules agree line by line up to packet counters; comments
  and blank lines play no role, and cleaning twice is cleaning once.
\<close>

section \<open>Packet counters\<close>

definition counter :: "string \<Rightarrow> string \<Rightarrow> string" where
  "counter packets bytes = ''['' @ packets @ '':'' @ bytes @ '']''"

definition ends_in_counter :: "string \<Rightarrow> bool" where
  "ends_in_counter l \<longleftrightarrow> (\<exists>pre p b. digits_only p \<and> digits_only b \<and> l = pre @ counter p b)"

definition ascii :: "string \<Rightarrow> bool" where
  "ascii s \<longleftrightarrow> (\<forall>c \<in> set s. (of_char c :: nat) < 128)"

text \<open>
  What the code relies on of the \<^verbatim>\<open>regex\<close> crate, for its one expression: a counter at the end of the
  text is replaced, and an ASCII text without one is returned as it is. (The crate's \<^verbatim>\<open>\d\<close> also matches
  digits outside ASCII, of which nothing is said.)
\<close>

locale regex_laws =
  fixes L :: libs
  assumes regex_match: "digits_only p \<Longrightarrow> digits_only b \<Longrightarrow> CHR ''$'' \<notin> set rep \<Longrightarrow>
      regex_replace L IPTABLES_PACKET_COUNTER_REGEX (pre @ counter p b) rep = pre @ rep"
    and regex_none: "ascii l \<Longrightarrow> \<not> ends_in_counter l \<Longrightarrow>
      regex_replace L IPTABLES_PACKET_COUNTER_REGEX l rep = l"

section \<open>Rules of a dump\<close>

definition rule_lines :: "string \<Rightarrow> string list" where
  "rule_lines s = filter (\<lambda>l. l \<noteq> []) (filter (\<lambda>l. take 1 l \<noteq> ''#'') (lines s))"

text \<open>Two lines that differ at most in a packet counter at their end.\<close>

definition same_rule :: "string \<Rightarrow> string \<Rightarrow> bool" where
  "same_rule l l' \<longleftrightarrow> l = l' \<or> (\<exists>pre p b p' b'. digits_only p \<and> digits_only b \<and> digits_only p' \<and>
     digits_only b' \<and> l = pre @ counter p b \<and> l' = pre @ counter p' b')"

abbreviation same_rules :: "string \<Rightarrow> string \<Rightarrow> bool" where
  "same_rules s t \<equiv> list_all2 same_rule (rule_lines s) (rule_lines t)"

lemma digits_zero: "digits_only ''0''"
  by (simp add: digits_only_def digit_val_def)

lemma counter_zero: "''[0:0]'' = counter ''0'' ''0''"
  by (simp add: counter_def)

lemma same_rule_counter:
  "digits_only p \<Longrightarrow> digits_only b \<Longrightarrow> digits_only p' \<Longrightarrow> digits_only b' \<Longrightarrow>
   same_rule (pre @ counter p b) (pre @ counter p' b')"
  unfolding same_rule_def by blast

lemma lines_piece: "l \<in> set (lines s) \<Longrightarrow> \<exists>w \<in> set (split_on NL s). set l \<subseteq> set w"
  using last_in_set [OF split_on_not_Nil, of NL s]
  by (auto simp: lines_def Let_def strip_cr_def dest: in_set_butlastD split: if_splits)

lemma split_on_subset: "w \<in> set (split_on c s) \<Longrightarrow> set w \<subseteq> set s"
proof (induction s arbitrary: w)
  case (Cons x xs)
  obtain v vs where v: "split_on c xs = v # vs" by (cases "split_on c xs") simp_all
  have "set v \<subseteq> set xs" using Cons.IH [of v] v by simp
  with Cons.prems Cons.IH [of w] v show ?case by (auto split: if_splits)
qed simp

lemma lines_no_NL: "l \<in> set (lines s) \<Longrightarrow> NL \<notin> set l"
  by (auto dest!: lines_piece dest: split_on_pieces)

lemma lines_ascii: "ascii s \<Longrightarrow> l \<in> set (lines s) \<Longrightarrow> ascii l"
  unfolding ascii_def by (auto dest!: lines_piece dest: split_on_subset)

lemma ends_in_counterI: "digits_only p \<Longrightarrow> digits_only b \<Longrightarrow> ends_in_counter (pre @ counter p b)"
  unfolding ends_in_counter_def by blast

lemma rule_lines_mem:
  "l \<in> set (rule_lines s) \<Longrightarrow> l \<noteq> [] \<and> take 1 l \<noteq> ''#'' \<and> NL \<notin> set l"
  by (auto simp: rule_lines_def dest: lines_no_NL)

lemma clean_iptables_rules:
  "clean_iptables L s = join [NL] (map (\<lambda>l. regex_replace L IPTABLES_PACKET_COUNTER_REGEX l ''[0:0]'')
     (rule_lines s)) @ [NL]"
  by (simp add: clean_iptables_def rule_lines_def)

context regex_laws
begin

abbreviation clean_line :: "string \<Rightarrow> string" where
  "clean_line l \<equiv> regex_replace L IPTABLES_PACKET_COUNTER_REGEX l ''[0:0]''"

lemma clean_line_counter: "digits_only p \<Longrightarrow> digits_only b \<Longrightarrow> clean_line (pre @ counter p b) = pre @ ''[0:0]''"
  by (simp add: regex_match)

lemma clean_line_cases:
  assumes "ascii l"
  obtains (counter) pre p b where "digits_only p" "digits_only b" "l = pre @ counter p b"
      "clean_line l = pre @ counter ''0'' ''0''"
    | (plain) "\<not> ends_in_counter l" "clean_line l = l"
proof (cases "ends_in_counter l")
  case True
  then obtain pre p b where "digits_only p" "digits_only b" "l = pre @ counter p b"
    by (auto simp: ends_in_counter_def)
  then show ?thesis using counter [of p b pre] clean_line_counter counter_zero by auto
next
  case False
  then show ?thesis using plain regex_none [OF assms] by blast
qed

lemma clean_line_shape:
  assumes "ascii l" and "l \<noteq> []" and "take 1 l \<noteq> ''#''" and "NL \<notin> set l"
  shows "clean_line l \<noteq> [] \<and> take 1 (clean_line l) \<noteq> ''#'' \<and> NL \<notin> set (clean_line l)"
  using assms(1)
proof (cases rule: clean_line_cases)
  case (counter pre p b)
  then show ?thesis using assms by (cases pre) (auto simp: counter_def)
qed (use assms in auto)

lemma clean_line_eq:
  assumes "ascii l" and "ascii l'"
  shows "clean_line l = clean_line l' \<longleftrightarrow> same_rule l l'"
proof
  assume eq: "clean_line l = clean_line l'"
  show "same_rule l l'"
    using assms(1)
  proof (cases rule: clean_line_cases)
    case l: (counter pre p b)
    show ?thesis
      using assms(2)
    proof (cases rule: clean_line_cases)
      case (counter pre' p' b')
      with l eq have "pre' = pre" by simp
      with l counter same_rule_counter show ?thesis by simp
    next
      case plain
      with l eq have "l' = pre @ counter ''0'' ''0''" by simp
      with plain ends_in_counterI [OF digits_zero digits_zero] show ?thesis by simp
    qed
  next
    case l: plain
    show ?thesis
      using assms(2)
    proof (cases rule: clean_line_cases)
      case (counter pre' p' b')
      with l eq have "l = pre' @ counter ''0'' ''0''" by simp
      with l ends_in_counterI [OF digits_zero digits_zero] show ?thesis by simp
    next
      case plain
      with l eq show ?thesis by (simp add: same_rule_def)
    qed
  qed
next
  assume "same_rule l l'"
  then show "clean_line l = clean_line l'" by (auto simp: same_rule_def clean_line_counter)
qed

lemma clean_lines_inject:
  assumes "\<forall>l \<in> set ls. l \<noteq> [] \<and> NL \<notin> set l" and "\<forall>l \<in> set ls'. l \<noteq> [] \<and> NL \<notin> set l"
  shows "join [NL] ls = join [NL] ls' \<longleftrightarrow> ls = ls'"
proof
  assume eq: "join [NL] ls = join [NL] ls'"
  have sp: "split_on NL (join [NL] ks) = (if ks = [] then [[]] else ks)"
    if "\<forall>l \<in> set ks. l \<noteq> [] \<and> NL \<notin> set l" for ks
    using that split_on_join [of ks NL] by (cases "ks = []") simp_all
  have "(if ls = [] then [[]] else ls) = (if ls' = [] then [[]] else ls')"
    using sp [OF assms(1)] sp [OF assms(2)] eq by simp
  with assms show "ls = ls'" by (cases ls; cases ls') auto
qed simp

theorem clean_iptables_eq_iff:
  assumes "ascii s" and "ascii t"
  shows "clean_iptables L s = clean_iptables L t \<longleftrightarrow> same_rules s t"
proof -
  have a: "ascii l" if "l \<in> set (rule_lines u)" "ascii u" for l u
    using that lines_ascii by (auto simp: rule_lines_def)
  have sh: "\<forall>l \<in> set (map clean_line (rule_lines u)). l \<noteq> [] \<and> NL \<notin> set l" if "ascii u" for u
  proof
    fix l assume "l \<in> set (map clean_line (rule_lines u))"
    then obtain k where k: "k \<in> set (rule_lines u)" "l = clean_line k" by auto
    show "l \<noteq> [] \<and> NL \<notin> set l"
      using clean_line_shape [OF a [OF k(1) that]] rule_lines_mem [OF k(1)] k(2) by simp
  qed
  have "clean_iptables L s = clean_iptables L t \<longleftrightarrow> map clean_line (rule_lines s) = map clean_line (rule_lines t)"
    using clean_lines_inject [OF sh [OF assms(1)] sh [OF assms(2)]] by (simp add: clean_iptables_rules)
  also have "\<dots> \<longleftrightarrow> list_all2 (\<lambda>l l'. clean_line l = clean_line l') (rule_lines s) (rule_lines t)"
    by (simp add: list_all2_map1 list_all2_map2 flip: list.rel_eq)
  also have "\<dots> \<longleftrightarrow> same_rules s t"
    using a assms by (intro list.rel_cong_simp) (auto simp: simp_implies_def clean_line_eq)
  finally show ?thesis .
qed

end

section \<open>A concrete replacement\<close>

text \<open>The expression's meaning, read from the end of the line.\<close>

definition is_digit :: "char \<Rightarrow> bool" where
  "is_digit c \<longleftrightarrow> digit_val c \<noteq> None"

definition counter_split :: "string \<Rightarrow> string option" where
  "counter_split l = (case rev l of
      [] \<Rightarrow> None
    | c # r \<Rightarrow> (let b = takeWhile is_digit r; r1 = dropWhile is_digit r in
        case r1 of
          [] \<Rightarrow> None
        | c1 # r2 \<Rightarrow> (let p = takeWhile is_digit r2; r3 = dropWhile is_digit r2 in
            case r3 of
              [] \<Rightarrow> None
            | c2 # r4 \<Rightarrow>
                if c = CHR '']'' \<and> b \<noteq> [] \<and> c1 = CHR '':'' \<and> p \<noteq> [] \<and> c2 = CHR ''['' then Some (rev r4)
                else None)))"

definition counter_replace :: "string \<Rightarrow> string \<Rightarrow> string \<Rightarrow> string" where
  "counter_replace re l rep =
     (if re = IPTABLES_PACKET_COUNTER_REGEX then (case counter_split l of None \<Rightarrow> l | Some pre \<Rightarrow> pre @ rep)
      else l)"

lemma not_digits: "\<not> is_digit (CHR '':'')" "\<not> is_digit (CHR ''['')" "\<not> is_digit (CHR '']'')"
  by (simp_all add: is_digit_def digit_val_def)

lemma digits_only_iff: "digits_only s \<longleftrightarrow> s \<noteq> [] \<and> (\<forall>c \<in> set s. is_digit c)"
  by (simp add: digits_only_def is_digit_def)

lemma span_at:
  "\<forall>x \<in> set xs. P x \<Longrightarrow> \<not> P c \<Longrightarrow> takeWhile P (xs @ c # r) = xs \<and> dropWhile P (xs @ c # r) = c # r"
  by (induction xs) auto

lemma counter_split_counter:
  assumes "digits_only p" and "digits_only b"
  shows "counter_split (pre @ counter p b) = Some pre"
proof -
  have "rev (pre @ counter p b) = CHR '']'' # rev b @ CHR '':'' # rev p @ CHR ''['' # rev pre"
    by (simp add: counter_def)
  moreover have "takeWhile is_digit (rev d @ c # r) = rev d" "dropWhile is_digit (rev d @ c # r) = c # r"
    if "digits_only d" "\<not> is_digit c" for d c r
    using that span_at [of "rev d" is_digit c r] by (simp_all add: digits_only_iff)
  ultimately show ?thesis
    using assms not_digits by (simp add: counter_split_def Let_def digits_only_iff)
qed

lemma counter_split_Some:
  assumes "counter_split l = Some pre"
  shows "ends_in_counter l"
proof -
  obtain r r2 r4 where r: "rev l = CHR '']'' # r" "dropWhile is_digit r = CHR '':'' # r2"
      "dropWhile is_digit r2 = CHR ''['' # r4" "takeWhile is_digit r \<noteq> []" "takeWhile is_digit r2 \<noteq> []"
    using assms by (auto simp: counter_split_def Let_def split: list.splits if_splits)
  have "r = takeWhile is_digit r @ CHR '':'' # r2" "r2 = takeWhile is_digit r2 @ CHR ''['' # r4"
    using takeWhile_dropWhile_id [of is_digit r] takeWhile_dropWhile_id [of is_digit r2] r by simp_all
  then have "rev l = CHR '']'' # takeWhile is_digit r @ CHR '':'' # takeWhile is_digit r2 @ CHR ''['' # r4"
    using r(1) by metis
  then have "l = rev (CHR '']'' # takeWhile is_digit r @ CHR '':'' # takeWhile is_digit r2 @ CHR ''['' # r4)"
    by (metis rev_rev_ident)
  then have "l = rev r4 @ counter (rev (takeWhile is_digit r2)) (rev (takeWhile is_digit r))"
    by (simp add: counter_def)
  moreover have "digits_only (rev (takeWhile is_digit r2))" "digits_only (rev (takeWhile is_digit r))"
    using r(4,5) by (auto simp: digits_only_iff dest: set_takeWhileD)
  ultimately show ?thesis using ends_in_counterI by metis
qed

lemma counter_replace_laws:
  assumes "regex_replace L = counter_replace"
  shows "regex_laws L"
proof
  fix p b rep pre :: string
  assume "digits_only p" "digits_only b"
  then show "regex_replace L IPTABLES_PACKET_COUNTER_REGEX (pre @ counter p b) rep = pre @ rep"
    by (simp add: assms counter_replace_def counter_split_counter)
next
  fix l rep :: string
  assume "\<not> ends_in_counter l"
  then have "counter_split l = None" using counter_split_Some by (cases "counter_split l") auto
  then show "regex_replace L IPTABLES_PACKET_COUNTER_REGEX l rep = l"
    by (simp add: assms counter_replace_def)
qed

end
