(* ===== verification/Templates.thy ===== *)
theory Templates
  imports Iptables Types_Props Net_Text
begin

text \<open>
  The three templates of \<^verbatim>\<open>templates/\<close>, as the text the template engine makes of them: a \<open>for\<close> block
  is one copy of its body per element, a map is iterated in key order, addresses are substituted in
  their \<open>Display\<close> form, and a dash in a tag trims the white space on its side. The engine is a
  parameter of the model (\<open>render_iptables\<close>, \<open>render_nginx\<close>, \<open>render_sites\<close>); theorems about rendered
  text assume that it renders these templates so.
\<close>

abbreviation unlines :: "string list \<Rightarrow> string" where
  "unlines ls \<equiv> concat (map (\<lambda>l. l @ [NL]) ls)"

section \<open>Packet filter rules\<close>

definition iptables_head :: "string list" where
  "iptables_head = [''*nat'', '':PREROUTING ACCEPT [0:0]'', '':INPUT ACCEPT [0:0]'',
     '':OUTPUT ACCEPT [0:0]'', '':POSTROUTING ACCEPT [0:0]'']"

definition dnat_rule :: "libs \<Rightarrow> PortConfig \<Rightarrow> port_mapping \<Rightarrow> string" where
  "dnat_rule L c m = ''-A PREROUTING -i '' @ interface_in c @ '' -p tcp -m tcp --dport '' @
     word_to_dec (port_in m) @ '' -j DNAT --to-destination '' @ ip_to_string L (ip_out m) @ '':'' @
     word_to_dec (port_out m)"

definition snat_rule :: "libs \<Rightarrow> PortConfig \<Rightarrow> port_mapping \<Rightarrow> string" where
  "snat_rule L c m = ''-A POSTROUTING -o '' @ interface_out c @ '' -p tcp -m tcp --dport '' @
     word_to_dec (port_out m) @ '' -j SNAT --to-source '' @ ip_to_string L (ip_source c)"

definition iptables_save_lines :: "libs \<Rightarrow> PortConfig \<Rightarrow> string list" where
  "iptables_save_lines L c = iptables_head @ map (dnat_rule L c) (mappings c) @
     map (snat_rule L c) (mappings c) @ [''COMMIT'']"

definition iptables_save_tera :: "libs \<Rightarrow> PortConfig \<Rightarrow> string" where
  "iptables_save_tera L c = unlines (iptables_save_lines L c)"

section \<open>NGINX\<close>

definition nginx_conf_tera :: "libs \<Rightarrow> forwarding \<Rightarrow> string" where
  "nginx_conf_tera L f =
     unlines [''stream {''] @
     ''  map $ssl_preread_server_name $https_backend { '' @
     concat (map (\<lambda>(domain, up). [NL] @ ''    '' @ domain @ '' '' @ up @ '';'') (bt_iter (https_forwarding f))) @
     [NL] @ ''  }'' @ [NL] @ ''  '' @
     concat (map (\<lambda>(up, servers). [NL] @ ''  upstream '' @ up @ '' { '' @
       concat (map (\<lambda>s. [NL] @ ''    server '' @ sock_to_string L s @ '';'') servers) @
       [NL] @ ''  }'' @ [NL] @ ''  '') (bt_iter (https_upstream f))) @
     [NL] @
     unlines [''  server {'', ''    listen 443;'', ''    proxy_connect_timeout 1s;'',
       ''    proxy_timeout 60s;'', ''    proxy_pass $https_backend;'', ''    ssl_preread on;'', ''  }'', ''}'']"

definition sites_nginx_conf_tera :: "libs \<Rightarrow> forwarding \<Rightarrow> string" where
  "sites_nginx_conf_tera L f =
     concat (map (\<lambda>(up, servers). ''upstream '' @ up @ '' {'' @
       concat (map (\<lambda>s. [NL] @ ''  server '' @ sock_to_string L s @ '';'') servers) @
       [NL] @ unlines [''}'', []]) (bt_iter (http_upstream f))) @
     concat (map (\<lambda>(domain, up). [NL] @ unlines [''server {'', ''  server_name '' @ domain @ '';'',
       ''  listen 80;'', ''  #listen [::]:80 ipv6only=off;'', [], ''  location / {'',
       ''    proxy_set_header Host $host;'', ''    proxy_set_header X-Real-IP $remote_addr;'',
       ''    proxy_pass http://'' @ up @ '';'', ''  }'', ''}'']) (bt_iter (http_forwarding f))) @ [NL]"

section \<open>The rendered rules are clean\<close>

locale ip_text_laws =
  fixes L :: libs
  assumes ipv6_chars: "c \<in> set (ipv6_to_string L a) \<Longrightarrow> (of_char c :: nat) < 128 \<and> c \<notin> {NL, CR, CHR '']''}"
    and ipv6_not_Nil: "ipv6_to_string L a \<noteq> []"

text \<open>A plain rule: a line that \<open>clean_iptables\<close> reads back as it is.\<close>

definition plain_rule :: "string \<Rightarrow> bool" where
  "plain_rule l \<longleftrightarrow> l \<noteq> [] \<and> hd l \<noteq> CHR ''#'' \<and> ascii l \<and> NL \<notin> set l \<and> CR \<notin> set l \<and>
     (last l \<noteq> CHR '']'' \<or> (\<exists>pre. l = pre @ ''[0:0]''))"

lemma ends_in_counter_last: "ends_in_counter l \<Longrightarrow> last l = CHR '']''"
  by (auto simp: ends_in_counter_def counter_def)

lemma ascii_append [simp]: "ascii (s @ t) \<longleftrightarrow> ascii s \<and> ascii t"
  by (auto simp: ascii_def)

lemma ascii_Cons [simp]: "ascii (c # t) \<longleftrightarrow> (of_char c :: nat) < 128 \<and> ascii t"
  by (auto simp: ascii_def)

lemma ascii_Nil [simp]: "ascii []"
  by (simp add: ascii_def)

lemma ascii_digit: "d < 10 \<Longrightarrow> (of_char (digit_char d) :: nat) < 128"
  by (simp add: digit_char_def)

lemma ascii_dec [simp]: "ascii (nat_to_dec n)"
  unfolding ascii_def using nat_to_dec_digits [of _ n] ascii_digit by fastforce

lemma ascii_ipv4 [simp]: "ascii (ipv4_to_string a)"
  unfolding ascii_def using ipv4_chars [of _ a] ascii_digit by fastforce

lemma digit_not_bracket: "d < 10 \<Longrightarrow> digit_char d \<noteq> CHR '']''"
  by (auto simp: digit_char_def char_of_eq_iff take_bit_eq_mod)

lemma last_dec: "last (nat_to_dec n) \<noteq> CHR '']''"
  using nat_to_dec_digits [OF last_in_set [OF nat_to_dec_not_Nil [of n]]] digit_not_bracket by metis

context ip_text_laws
begin

lemma ip_text:
  "ascii (ip_to_string L ip)" "NL \<notin> set (ip_to_string L ip)" "CR \<notin> set (ip_to_string L ip)"
  "ip_to_string L ip \<noteq> []" "last (ip_to_string L ip) \<noteq> CHR '']''"
proof -
  have v4: "CHR '']'' \<notin> set (ipv4_to_string a)" for a
    using ipv4_chars [of "CHR '']''" a] digit_not_bracket by fastforce
  show "ascii (ip_to_string L ip)" "NL \<notin> set (ip_to_string L ip)" "CR \<notin> set (ip_to_string L ip)"
    using ipv6_chars by (cases ip; auto simp: ascii_def [of "ipv6_to_string L _"] ipv4_no_special)+
  show n: "ip_to_string L ip \<noteq> []" by (cases ip) (simp_all add: ipv4_not_Nil ipv6_not_Nil)
  have "CHR '']'' \<notin> set (ip_to_string L ip)" using v4 ipv6_chars by (cases ip) auto
  then show "last (ip_to_string L ip) \<noteq> CHR '']''" using last_in_set [OF n] by auto
qed

lemma iptables_lines_plain:
  assumes "ascii (interface_in c)" "NL \<notin> set (interface_in c)" "CR \<notin> set (interface_in c)"
    and "ascii (interface_out c)" "NL \<notin> set (interface_out c)" "CR \<notin> set (interface_out c)"
  shows "l \<in> set (iptables_save_lines L c) \<Longrightarrow> plain_rule l"
proof -
  have "plain_rule (dnat_rule L c m)" "plain_rule (snat_rule L c m)" for m
    using assms ip_text last_dec
    by (simp_all add: plain_rule_def dnat_rule_def snat_rule_def nat_to_dec_special)
  moreover have "plain_rule l" if "l \<in> set iptables_head" for l
    using that by (auto simp: iptables_head_def plain_rule_def)
  moreover have "plain_rule ''COMMIT''" by (simp add: plain_rule_def)
  ultimately show "l \<in> set (iptables_save_lines L c) \<Longrightarrow> plain_rule l"
    by (auto simp: iptables_save_lines_def)
qed

end

context regex_laws
begin

lemma clean_line_plain: "plain_rule l \<Longrightarrow> clean_line l = l"
proof -
  assume l: "plain_rule l"
  show ?thesis
  proof (cases "last l = CHR '']''")
    case True
    with l obtain pre where "l = pre @ counter ''0'' ''0''"
      by (auto simp: plain_rule_def counter_zero)
    then show ?thesis using clean_line_counter [OF digits_zero digits_zero] by (simp add: counter_zero)
  next
    case False
    then have "\<not> ends_in_counter l" using ends_in_counter_last by blast
    with l show ?thesis by (simp add: plain_rule_def regex_none)
  qed
qed

lemma clean_iptables_plain:
  assumes "ls \<noteq> []" and "\<forall>l \<in> set ls. plain_rule l"
  shows "clean_iptables L (unlines ls) = unlines ls"
proof -
  have "lines (unlines ls) = ls" using assms(2) by (intro lines_terminated) (simp add: plain_rule_def)
  moreover have "take 1 l \<noteq> ''#'' \<and> l \<noteq> []" if "plain_rule l" for l
    using that by (cases l) (auto simp: plain_rule_def)
  ultimately have "rule_lines (unlines ls) = ls"
    using assms(2) by (simp add: rule_lines_def filter_id_conv)
  moreover have "map clean_line ls = ls" using assms(2) by (simp add: map_idI clean_line_plain)
  ultimately show ?thesis using assms(1) by (simp add: clean_iptables_rules concat_map_nl)
qed

end

text \<open>So what \<open>apply_forwarding\<close> compares and restores is the rendered text itself.\<close>

locale rule_text = regex_laws L + ip_text_laws L for L :: libs
begin

lemma clean_rendered:
  assumes "port_config p n = Ok c"
  shows "clean_iptables L (iptables_save_tera L c) = iptables_save_tera L c"
proof -
  have "interface_in c = veth_name n" "interface_out c = wgif_name n"
    using assms by (auto simp: port_config_def bind_res_Ok_iff)
  then have "\<forall>l \<in> set (iptables_save_lines L c). plain_rule l"
    using iptables_lines_plain [of c]
    by (simp add: veth_name_def wgif_name_def VETH_PREFIX_def WIREGUARD_PREFIX_def nat_to_dec_special)
  then show ?thesis
    unfolding iptables_save_tera_def by (intro clean_iptables_plain) (simp_all add: iptables_save_lines_def)
qed

end

end
