(* ===== verification/Stats_Props.thy ===== *)
theory Stats_Props
  imports Types Net_Text
begin

text \<open>
  The parsers of \<^verbatim>\<open>src/types.rs\<close> against the format of \<^verbatim>\<open>wg show <interface> dump\<close>: one line for the
  interface, one per peer, fields separated by tabs. Every field is read back, except that the
  persistent keepalive is taken from the handshake column.
\<close>

section \<open>The dump\<close>

record wg_peer =
  wp_public_key :: pubkey
  wp_preshared_key :: "secret option"
  wp_endpoint :: "socket_addr option"
  wp_allowed_ips :: "ip_net list"
  wp_handshake :: u64
  wp_rx :: usize
  wp_tx :: usize
  wp_keepalive :: "usize option"

definition none_or :: "('a \<Rightarrow> string) \<Rightarrow> 'a option \<Rightarrow> string" where
  "none_or f x = (case x of None \<Rightarrow> ''(none)'' | Some y \<Rightarrow> f y)"

definition off_or :: "('a \<Rightarrow> string) \<Rightarrow> 'a option \<Rightarrow> string" where
  "off_or f x = (case x of None \<Rightarrow> ''off'' | Some y \<Rightarrow> f y)"

definition peer_fields :: "libs \<Rightarrow> wg_peer \<Rightarrow> string list" where
  "peer_fields L w =
     [pubkey_to_string L (wp_public_key w), none_or (secret_to_string L) (wp_preshared_key w),
      none_or (sock_to_string L) (wp_endpoint w),
      (if wp_allowed_ips w = [] then ''(none)'' else join '','' (map (ipnet_to_string L) (wp_allowed_ips w))),
      word_to_dec (wp_handshake w), word_to_dec (wp_rx w), word_to_dec (wp_tx w),
      off_or (\<lambda>k. word_to_dec k) (wp_keepalive w)]"

definition dump_peer :: "libs \<Rightarrow> wg_peer \<Rightarrow> string" where
  "dump_peer L w = join [TAB] (peer_fields L w)"

definition dump_network :: "libs \<Rightarrow> privkey \<Rightarrow> pubkey \<Rightarrow> u16 \<Rightarrow> u16 option \<Rightarrow> wg_peer list \<Rightarrow> string" where
  "dump_network L priv pub port fwmark peers =
     concat (map (\<lambda>l. l @ [NL])
       (join [TAB] [privkey_to_string L priv, pubkey_to_string L pub, word_to_dec port,
          off_or (\<lambda>k. word_to_dec k) fwmark] # map (dump_peer L) peers))"

text \<open>What the WireGuard tools print: keys of 32 bytes, a time before \<open>2 ^ 63\<close> seconds.\<close>

definition wg_peer_ok :: "wg_peer \<Rightarrow> bool" where
  "wg_peer_ok w \<longleftrightarrow> length (pubkey_bytes (wp_public_key w)) = 32 \<and>
     (\<forall>k. wp_preshared_key w = Some k \<longrightarrow> length (secret_bytes k) = 32) \<and>
     (\<forall>e. wp_endpoint w = Some e \<longrightarrow> (\<exists>a p. e = SockV4 a p)) \<and> unat (wp_handshake w) < 2 ^ 63"

text \<open>The record the parser builds for it.\<close>

definition parsed_peer :: "wg_peer \<Rightarrow> peer_stats" where
  "parsed_peer w = \<lparr>pst_public_key = wp_public_key w, pst_preshared_key = wp_preshared_key w,
     pst_endpoint = wp_endpoint w, pst_allowed_ips = wp_allowed_ips w,
     pst_latest_handshake = (if wp_handshake w = 0 then None else Some (int (unat (wp_handshake w)) * 10 ^ 9)),
     pst_transfer_rx = wp_rx w, pst_transfer_tx = wp_tx w,
     pst_persistent_keepalive = (if wp_keepalive w = None then None else Some (wp_handshake w))\<rparr>"

section \<open>Reading it back\<close>

lemma collect_res_map: "(\<And>x. x \<in> set xs \<Longrightarrow> f (g x) = Ok (h x)) \<Longrightarrow> collect_res f (map g xs) = Ok (map h xs)"
  by (induction xs) auto

lemma dec_not_off: "nat_to_dec n \<noteq> ''off''"
proof
  assume "nat_to_dec n = ''off''"
  then have "CHR ''o'' \<in> set (nat_to_dec n)" by simp
  then obtain d where d: "d < 10" "digit_char d = CHR ''o''" using nat_to_dec_digits by metis
  then show False by (auto simp: digit_char_def char_of_eq_iff take_bit_eq_mod)
qed

lemma join_chars: "x \<notin> set sep \<Longrightarrow> \<forall>w \<in> set ws. x \<notin> set w \<Longrightarrow> x \<notin> set (join sep ws)"
  by (induction sep ws rule: join.induct) auto

definition clean_field :: "string \<Rightarrow> bool" where
  "clean_field f \<longleftrightarrow> TAB \<notin> set f \<and> NL \<notin> set f \<and> CR \<notin> set f"

lemma clean_dec: "clean_field (nat_to_dec n)" "clean_field (off_or (\<lambda>k. word_to_dec k) x)"
  by (auto simp: clean_field_def off_or_def nat_to_dec_special split: option.splits)

locale stats_laws = key_laws L + ipnet_text_laws L for L :: libs
begin

lemma none_free:
  "secret_to_string L k \<noteq> ''(none)''" "sock_to_string L (SockV4 a p) \<noteq> ''(none)''"
proof -
  show "secret_to_string L k \<noteq> ''(none)''" using secret_chars [of "CHR ''(''" k] by auto
  have "digit_char d \<noteq> CHR ''(''" if "d < 10" for d
    using that by (auto simp: digit_char_def char_of_eq_iff take_bit_eq_mod)
  then have "CHR ''('' \<notin> set (ipv4_to_string a)" using ipv4_chars [of "CHR ''(''" a] by force
  moreover have "CHR ''('' \<in> set ''(none)''" by simp
  ultimately show "sock_to_string L (SockV4 a p) \<noteq> ''(none)''"
    using ipv4_not_Nil [of a] by (cases "ipv4_to_string a") auto
qed

lemma allowed_not_none:
  assumes "ns \<noteq> []"
  shows "join '','' (map (ipnet_to_string L) ns) \<noteq> ''(none)''"
proof -
  obtain m ms where ns: "ns = m # ms" using assms by (cases ns) auto
  obtain c cs where c: "ipnet_to_string L m = c # cs"
    using ipnet_nonempty [of m] by (cases "ipnet_to_string L m") auto
  then have "c \<noteq> CHR ''(''" using ipnet_chars [of c m] by auto
  then show ?thesis using c ns by (cases ms) auto
qed

lemma allowed_split:
  "ns \<noteq> [] \<Longrightarrow> collect_res (ipnet_from_str L) (split_on (CHR '','') (join '','' (map (ipnet_to_string L) ns))) = Ok ns"
proof -
  assume "ns \<noteq> []"
  then have "split_on (CHR '','') (join '','' (map (ipnet_to_string L) ns)) = map (ipnet_to_string L) ns"
    using ipnet_chars by (intro split_on_join) fastforce+
  then show ?thesis using collect_res_map [of ns "ipnet_from_str L" "ipnet_to_string L" id] ipnet_roundtrip by simp
qed

lemma off_or_parse:
  "(if off_or (\<lambda>k. word_to_dec k) x = ''off'' then Ok None else f) = (if x = None then Ok None else f)"
  by (auto simp: off_or_def dec_not_off split: option.splits)

lemma parse_handshake_dec:
  "unat (t :: u64) < 2 ^ 63 \<Longrightarrow> parse_handshake (word_to_dec t) =
     Ok (if t = 0 then None else Some (int (unat t) * 10 ^ 9))"
  by (simp add: parse_handshake_def unix_epoch_checked_add_def word_gt_0)

lemma parse_peer_dump:
  assumes "wg_peer_ok w"
  shows "parse_peer_fields L (pubkey_to_string L (wp_public_key w)) (none_or (secret_to_string L) (wp_preshared_key w))
      (none_or (sock_to_string L) (wp_endpoint w))
      (if wp_allowed_ips w = [] then ''(none)'' else join '','' (map (ipnet_to_string L) (wp_allowed_ips w)))
      (word_to_dec (wp_handshake w)) (word_to_dec (wp_rx w)) (word_to_dec (wp_tx w))
      (off_or (\<lambda>k. word_to_dec k) (wp_keepalive w)) = Ok (parsed_peer w)"
proof -
  have psk: "(if none_or (secret_to_string L) (wp_preshared_key w) = ''(none)'' then Ok None
      else bind_res (secret_from_str L (none_or (secret_to_string L) (wp_preshared_key w))) (\<lambda>k. Ok (Some k))) =
      Ok (wp_preshared_key w)"
    using assms none_free secret_roundtrip
    by (cases "wp_preshared_key w") (simp_all add: none_or_def wg_peer_ok_def)
  have ep: "(if none_or (sock_to_string L) (wp_endpoint w) = ''(none)'' then Ok None
      else bind_res (context_res ''Parsing endpoint'' (sock_from_str L (none_or (sock_to_string L) (wp_endpoint w))))
        (\<lambda>a. Ok (Some a))) = Ok (wp_endpoint w)"
  proof (cases "wp_endpoint w")
    case (Some e)
    then obtain a p where "e = SockV4 a p" using assms by (auto simp: wg_peer_ok_def)
    with Some show ?thesis using none_free(2) [of a p] sockv4_roundtrip [of L a p] by (simp add: none_or_def)
  qed (simp add: none_or_def)
  show ?thesis
    using assms allowed_not_none allowed_split
    by (simp add: parse_peer_fields_def psk ep off_or_parse pubkey_roundtrip parse_handshake_dec
        parsed_peer_def wg_peer_ok_def)
qed

lemma clean_parts:
  "clean_field (pubkey_to_string L k)" "clean_field (privkey_to_string L k')"
  "clean_field (none_or (secret_to_string L) psk)" "clean_field (join '','' (map (ipnet_to_string L) ns))"
proof -
  show "clean_field (pubkey_to_string L k)" "clean_field (privkey_to_string L k')"
    using pubkey_chars [of _ k] privkey_chars [of _ k'] by (auto simp: clean_field_def)
  show "clean_field (none_or (secret_to_string L) psk)"
    using secret_chars by (cases psk) (auto simp: clean_field_def none_or_def)
  show "clean_field (join '','' (map (ipnet_to_string L) ns))"
    unfolding clean_field_def by (intro conjI join_chars) (auto dest: ipnet_chars)
qed

lemma peer_fields_clean:
  assumes "wg_peer_ok w"
  shows "\<forall>f \<in> set (peer_fields L w). clean_field f"
proof -
  have "clean_field (none_or (sock_to_string L) (wp_endpoint w))"
  proof (cases "wp_endpoint w")
    case (Some e)
    then obtain a p where "e = SockV4 a p" using assms by (auto simp: wg_peer_ok_def)
    with Some show ?thesis by (simp add: none_or_def clean_field_def ipv4_no_special nat_to_dec_special)
  qed (simp add: none_or_def clean_field_def)
  then show ?thesis by (simp add: peer_fields_def clean_parts clean_dec) (simp add: clean_field_def)
qed

lemma peer_stats_from_dump:
  assumes "wg_peer_ok w"
  shows "peer_stats_from_str L (dump_peer L w) = Ok (parsed_peer w)"
proof -
  have "split_on TAB (dump_peer L w) = peer_fields L w"
    unfolding dump_peer_def using peer_fields_clean [OF assms]
    by (intro split_on_join) (simp_all add: clean_field_def peer_fields_def)
  then show ?thesis
    using parse_peer_dump [OF assms] by (simp add: peer_stats_from_str_def peer_fields_def)
qed

lemma network_stats_from_dump:
  assumes priv: "length (privkey_bytes priv) = 32" and pub: "length (pubkey_bytes pub) = 32"
    and peers: "\<forall>w \<in> set peers. wg_peer_ok w"
  shows "network_stats_from_str L (dump_network L priv pub port fwmark peers) =
     Ok \<lparr>nst_private_key = priv, nst_public_key = pub, nst_listen_port = port, nst_fwmark = fwmark,
         nst_peers = map parsed_peer peers\<rparr>"
proof -
  let ?fs = "[privkey_to_string L priv, pubkey_to_string L pub, word_to_dec port, off_or (\<lambda>k. word_to_dec k) fwmark]"
  have fs: "\<forall>f \<in> set ?fs. clean_field f" by (simp add: clean_parts clean_dec)
  have "NL \<notin> set (dump_peer L w) \<and> CR \<notin> set (dump_peer L w)" if "w \<in> set peers" for w
    unfolding dump_peer_def using peer_fields_clean [of w] peers that
    by (intro conjI join_chars) (simp_all add: clean_field_def)
  moreover have "NL \<notin> set (join [TAB] ?fs)" "CR \<notin> set (join [TAB] ?fs)"
    using fs by (intro join_chars; simp add: clean_field_def)+
  ultimately have "lines (dump_network L priv pub port fwmark peers) = join [TAB] ?fs # map (dump_peer L) peers"
    unfolding dump_network_def by (intro lines_terminated) (auto simp del: join.simps)
  moreover have "split_on TAB (join [TAB] ?fs) = ?fs"
    using fs by (intro split_on_join) (simp_all add: clean_field_def del: join.simps)
  moreover have "collect_res (peer_stats_from_str L) (map (dump_peer L) peers) = Ok (map parsed_peer peers)"
    using peers by (intro collect_res_map peer_stats_from_dump) blast
  ultimately show ?thesis
    using priv pub
    by (simp add: network_stats_from_str_def privkey_roundtrip pubkey_roundtrip off_or_parse del: join.simps)
       (auto simp: off_or_def)
qed

end

end
