(* ===== verification/Wg_Config.thy ===== *)
theory Wg_Config
  imports Stats_Props
begin

text \<open>
  The WireGuard configuration text (\<open>to_config\<close> of \<^verbatim>\<open>src/types.rs\<close>) as a reader of the format sees it:
  sections opened by a line in brackets, with one field per line. The text a network is written to
  reads back as one interface section and one section per peer, each with the fields of the state.
\<close>

section \<open>Reading a configuration\<close>

text \<open>A line \<open>Key = value\<close>; blank lines are skipped.\<close>

definition conf_field :: "string \<Rightarrow> string \<times> string" where
  "conf_field l = (let k = takeWhile (\<lambda>c. c \<noteq> CHR '' '') l in (k, drop (length k + 3) l))"

fun conf_step :: "string \<Rightarrow> (string \<times> string) list \<times> (string \<times> (string \<times> string) list) list \<Rightarrow>
    (string \<times> string) list \<times> (string \<times> (string \<times> string) list) list" where
  "conf_step [] acc = acc"
| "conf_step (c # l) (fs, secs) =
     (if c = CHR ''['' then ([], (c # l, fs) # secs) else (conf_field (c # l) # fs, secs))"

definition read_conf :: "string \<Rightarrow> (string \<times> (string \<times> string) list) list" where
  "read_conf s = snd (foldr conf_step (lines s) ([], []))"

text \<open>What the sections of a network should hold.\<close>

definition interface_section :: "libs \<Rightarrow> network_state \<Rightarrow> string \<times> (string \<times> string) list" where
  "interface_section L n = (''[Interface]'', [(''ListenPort'', word_to_dec (ns_listen_port n)),
     (''PrivateKey'', privkey_to_string L (ns_private_key n))])"

definition peer_section :: "libs \<Rightarrow> pubkey \<times> peer_state \<Rightarrow> string \<times> (string \<times> string) list" where
  "peer_section L e = (''[Peer]'',
     [(''PublicKey'', pubkey_to_string L (fst e)),
      (''AllowedIPs'', join '', '' (map (\<lambda>ip. ipnet_to_string L (ipnet_trunc L ip)) (ps_allowed_ips (snd e))))] @
     (case ps_preshared_key (snd e) of None \<Rightarrow> [] | Some k \<Rightarrow> [(''PresharedKey'', secret_to_string L k)]) @
     (case ps_endpoint (snd e) of None \<Rightarrow> [] | Some a \<Rightarrow> [(''Endpoint'', sock_to_string L a)]) @
     [(''PersistentKeepalive'', ''25'')])"

section \<open>Lines of the text\<close>

definition field_line :: "string \<times> string \<Rightarrow> string" where
  "field_line f = fst f @ '' = '' @ snd f"

definition section_lines :: "string \<times> (string \<times> string) list \<Rightarrow> string list" where
  "section_lines s = fst s # map field_line (snd s)"

abbreviation config_lines :: "libs \<Rightarrow> network_state \<Rightarrow> string list" where
  "config_lines L n \<equiv> section_lines (interface_section L n) @
     concat (map (\<lambda>e. [] # section_lines (peer_section L e) @ [[]]) (bt_iter (ns_peers n)))"

lemma peer_to_config_lines:
  "peer_to_config L (snd e) (fst e) = concat (map (\<lambda>l. l @ [NL]) (section_lines (peer_section L e)))"
  by (simp add: peer_to_config_def section_lines_def peer_section_def field_line_def split: option.splits)

lemma network_to_config_lines:
  "network_to_config L n = concat (map (\<lambda>l. l @ [NL]) (config_lines L n))"
proof -
  have "concat (map (\<lambda>(k, p). [NL] @ peer_to_config L p k @ [NL]) es) =
     concat (map (\<lambda>l. l @ [NL]) (concat (map (\<lambda>e. [] # section_lines (peer_section L e) @ [[]]) es)))" for es
    by (induction es) (auto simp: peer_to_config_lines [of L "(_, _)", simplified])
  then show ?thesis
    by (simp add: network_to_config_def section_lines_def interface_section_def field_line_def)
qed

lemma conf_field_line: "CHR '' '' \<notin> set k \<Longrightarrow> conf_field (field_line (k, v)) = (k, v)"
proof -
  assume "CHR '' '' \<notin> set k"
  then have "takeWhile (\<lambda>c. c \<noteq> CHR '' '') (k @ CHR '' '' # w) = k" for w
    by (induction k) auto
  then show ?thesis by (simp add: conf_field_def field_line_def)
qed

text \<open>A section whose keys are plain words reads back as it was written.\<close>

definition plain_section :: "string \<times> (string \<times> string) list \<Rightarrow> bool" where
  "plain_section s \<longleftrightarrow> (\<exists>t. fst s = CHR ''['' # t) \<and>
     (\<forall>f \<in> set (snd s). fst f \<noteq> [] \<and> hd (fst f) \<noteq> CHR ''['' \<and> CHR '' '' \<notin> set (fst f))"

lemma conf_step_field:
  "k \<noteq> [] \<Longrightarrow> hd k \<noteq> CHR ''['' \<Longrightarrow> CHR '' '' \<notin> set k \<Longrightarrow>
   conf_step (field_line (k, v)) (fs, secs) = ((k, v) # fs, secs)"
  using conf_field_line [of k v] by (cases k) (auto simp: field_line_def)

lemma foldr_fields:
  "\<forall>f \<in> set fs. fst f \<noteq> [] \<and> hd (fst f) \<noteq> CHR ''['' \<and> CHR '' '' \<notin> set (fst f) \<Longrightarrow>
   foldr conf_step (map field_line fs) (gs, secs) = (fs @ gs, secs)"
  by (induction fs) (auto simp: conf_step_field)

lemma foldr_section:
  "plain_section s \<Longrightarrow> foldr conf_step (section_lines s) ([], secs) = ([], s # secs)"
  by (cases s) (auto simp: plain_section_def section_lines_def foldr_fields)

lemma plain_sections: "plain_section (interface_section L n)" "plain_section (peer_section L e)"
  by (auto simp: plain_section_def interface_section_def peer_section_def split: option.splits)

lemma foldr_peers:
  "foldr conf_step (concat (map (\<lambda>e. [] # section_lines (peer_section L e) @ [[]]) es)) ([], []) =
     ([], map (peer_section L) es)"
  by (induction es) (simp_all add: foldr_section plain_sections)

lemma foldr_config_lines:
  "snd (foldr conf_step (config_lines L n) ([], [])) = interface_section L n # map (peer_section L) (bt_iter (ns_peers n))"
  by (simp add: foldr_peers foldr_section plain_sections del: foldr.simps)

section \<open>Reading it back\<close>

definition one_line :: "string \<Rightarrow> bool" where
  "one_line l \<longleftrightarrow> NL \<notin> set l \<and> CR \<notin> set l"

text \<open>The text of an IPv6 socket address is the standard library's; it is one line like all others.\<close>

locale conf_laws = stats_laws L for L :: libs +
  assumes sockv6_line: "one_line (sock_to_string L (SockV6 a p z))"
begin

lemma sock_line: "one_line (sock_to_string L a)"
proof (cases a)
  case (SockV4 u p)
  then show ?thesis by (simp add: one_line_def ipv4_no_special nat_to_dec_special)
next
  case (SockV6 u p z)
  then show ?thesis using sockv6_line by simp
qed

lemma key_lines:
  "one_line (pubkey_to_string L k)" "one_line (privkey_to_string L k')" "one_line (secret_to_string L k'')"
  using pubkey_chars [of NL k] pubkey_chars [of CR k] privkey_chars [of NL k'] privkey_chars [of CR k']
    secret_chars [of NL k''] secret_chars [of CR k'']
  by (auto simp: one_line_def)

lemma ips_line: "one_line (join '', '' (map (\<lambda>ip. ipnet_to_string L (ipnet_trunc L ip)) ips))"
  unfolding one_line_def using ipnet_chars by (intro conjI join_chars) fastforce+

lemma dec_line: "one_line (nat_to_dec k)"
  by (simp add: one_line_def nat_to_dec_special)

lemma config_lines_one_line: "l \<in> set (config_lines L n) \<Longrightarrow> one_line l"
  using key_lines sock_line ips_line dec_line
  by (auto simp: section_lines_def interface_section_def peer_section_def field_line_def one_line_def
      split: option.splits if_splits)

lemma read_network_config:
  "read_conf (network_to_config L n) = interface_section L n # map (peer_section L) (bt_iter (ns_peers n))"
proof -
  have "lines (network_to_config L n) = config_lines L n"
    unfolding network_to_config_lines using config_lines_one_line by (intro lines_terminated) (auto simp: one_line_def)
  then show ?thesis by (simp only: read_conf_def foldr_config_lines)
qed

end

end
