(* ===== verification/Forwarding.thy ===== *)
theory Forwarding
  imports Gateway Types_Props
begin

text \<open>
  The forwarding tables \<open>apply_nginx\<close> builds: every host gets exactly the sockets of the networks'
  mappings and of the custom forwardings, in order.
\<close>

definition all_routes :: "network_state list \<Rightarrow> (url \<times> socket_addr) list \<Rightarrow> (url \<times> socket_addr) list" where
  "all_routes networks custom = concat (map network_routes networks) @ custom"

context fwd_net_laws
begin

lemma build_forwarding_step:
  assumes "\<forall>n \<in> set networks. port_mappings p n = Ok (mapped n)"
  shows "\<exists>f. build_forwarding L p networks custom = Ok f \<and>
     fwd_step L forwarding_new (all_routes networks custom) f"
proof -
  obtain f1 where f1: "fold_res (forwarding_add L p) forwarding_new networks = Ok f1"
      "fwd_step L forwarding_new (concat (map network_routes networks)) f1"
    using fold_fwd_step [of networks "forwarding_add L p" network_routes, OF _ fwd_ok_new]
      forwarding_add_step assms by blast
  then have ok: "fwd_ok L f1" by (simp add: fwd_step_def)
  have "\<exists>f2. fold_res (\<lambda>f (url, socket). add_custom L f url socket) f1 custom = Ok f2 \<and>
      fwd_step L f1 (concat (map (\<lambda>e. [e]) custom)) f2"
    using ok by (intro fold_fwd_step) (auto simp: add_custom_step split: prod.splits)
  then obtain f2 where "fold_res (\<lambda>f (url, socket). add_custom L f url socket) f1 custom = Ok f2"
      "fwd_step L f1 custom f2"
    by (auto simp: concat_map_single [of "\<lambda>e. e"])
  with f1 show ?thesis
    by (auto simp: build_forwarding_def all_routes_def intro: fwd_step_trans)
qed

end

lemma servers_new [simp]: "https_servers forwarding_new h = []" "http_servers forwarding_new h = []"
  by (simp_all add: https_servers_def http_servers_def forwarding_new_def table_servers_def)

end
