(* ===== verification/Libs_Instance.thy ===== *)
theory Libs_Instance
  imports Templates Wg_Config Forwarding
begin

text \<open>
  One concrete choice for the parameters that stand for the third-party crates: RFC 4648 base32 and
  base64 text, CIDR arithmetic and text, URLs of the form \<open>scheme://host\<close>, and hash sets iterated in
  the order of first insertion. It satisfies every law the development assumes of those crates, so no
  theorem that assumes them is empty, and the theorems can be run on concrete inputs.
\<close>

section \<open>Bits\<close>

fun nat_bits :: "nat \<Rightarrow> nat \<Rightarrow> bool list" where
  "nat_bits 0 x = []"
| "nat_bits (Suc n) x = nat_bits n (x div 2) @ [odd x]"

definition bits_nat :: "bool list \<Rightarrow> nat" where
  "bits_nat bs = foldl (\<lambda>a b. 2 * a + (if b then 1 else 0)) 0 bs"

fun chunks :: "nat \<Rightarrow> 'a list \<Rightarrow> 'a list list" where
  "chunks 0 xs = []"
| "chunks (Suc k) [] = []"
| "chunks (Suc k) (x # xs) = (x # take k xs) # chunks (Suc k) (drop k xs)"

fun whole_bytes :: "bool list \<Rightarrow> u8 list" where
  "whole_bytes (a # b # c # d # e # f # g # h # bs) =
     of_nat (bits_nat [a, b, c, d, e, f, g, h]) # whole_bytes bs"
| "whole_bytes bs = []"

definition bytes_bits :: "u8 list \<Rightarrow> bool list" where
  "bytes_bits ws = concat (map (\<lambda>w. nat_bits 8 (unat w)) ws)"

definition pad_bits :: "nat \<Rightarrow> bool list \<Rightarrow> bool list" where
  "pad_bits k bs = bs @ replicate ((k - length bs mod k) mod k) False"

lemma length_nat_bits [simp]: "length (nat_bits n x) = n"
  by (induction n x rule: nat_bits.induct) simp_all

lemma bits_nat_snoc: "bits_nat (bs @ [b]) = 2 * bits_nat bs + (if b then 1 else 0)"
  by (simp add: bits_nat_def)

lemma bits_nat_nat_bits: "x < 2 ^ n \<Longrightarrow> bits_nat (nat_bits n x) = x"
proof (induction n x rule: nat_bits.induct)
  case (2 n x)
  then have "x div 2 < 2 ^ n" by simp
  with 2 have "bits_nat (nat_bits n (x div 2)) = x div 2" by simp
  then show ?case by (simp add: bits_nat_snoc)
qed (simp add: bits_nat_def)

lemma nat_bits_bits_nat: "nat_bits (length bs) (bits_nat bs) = bs"
  by (induction bs rule: rev_induct) (simp_all add: bits_nat_snoc)

lemma bits_nat_less: "bits_nat bs < 2 ^ length bs"
  by (induction bs rule: rev_induct) (auto simp: bits_nat_snoc, simp add: bits_nat_def)

lemma concat_chunks: "0 < k \<Longrightarrow> concat (chunks k xs) = xs"
  by (induction k xs rule: chunks.induct) simp_all

lemma chunks_length:
  "k dvd length xs \<Longrightarrow> c \<in> set (chunks k xs) \<Longrightarrow> length c = k"
proof (induction k xs rule: chunks.induct)
  case (3 k x xs)
  have l: "k \<le> length xs" using dvd_imp_le [OF "3.prems"(1)] by simp
  have "Suc k dvd length (x # xs) - Suc k" using "3.prems"(1) by (rule dvd_diff_nat) simp
  then have "Suc k dvd length (drop k xs)" by simp
  from "3.IH" [OF this] "3.prems"(2) l show ?case by auto
qed simp_all

lemma pad_bits_dvd:
  assumes "0 < k"
  shows "k dvd length (pad_bits k bs)"
proof -
  have "length bs mod k + (k - length bs mod k) = k"
    using mod_less_divisor [OF assms, of "length bs"] by linarith
  then have "(length bs + (k - length bs mod k)) mod k = 0"
    using mod_add_left_eq [of "length bs" k "k - length bs mod k"] by simp
  then have "(length bs + (k - length bs mod k) mod k) mod k = 0"
    by (simp only: mod_add_right_eq)
  then show ?thesis unfolding dvd_eq_mod_eq_0 pad_bits_def by (simp only: length_append length_replicate)
qed

lemma nat_bits_8: "\<exists>a b c d e f g h. nat_bits 8 x = [a, b, c, d, e, f, g, h]"
  by (simp add: eval_nat_numeral)

lemma whole_bytes_bits:
  assumes "length p < 8"
  shows "whole_bytes (bytes_bits ws @ p) = ws"
proof (induction ws)
  case Nil
  show ?case using assms
    by (cases p rule: whole_bytes.cases) (auto simp: bytes_bits_def)
next
  case (Cons w ws)
  obtain a b c d e f g h where n: "nat_bits 8 (unat w) = [a, b, c, d, e, f, g, h]"
    using nat_bits_8 by blast
  have "unat w < 2 ^ 8" using unsigned_less [of w, where ?'a = nat] by simp
  then have "bits_nat [a, b, c, d, e, f, g, h] = unat w" using bits_nat_nat_bits [of "unat w" 8] n by simp
  with n Cons show ?case by (simp add: bytes_bits_def)
qed

section \<open>Text encodings of bytes\<close>

text \<open>RFC 4648: the bits in groups of \<open>k\<close>, the last one filled with zeros, one character each.\<close>

definition alpha_index :: "string \<Rightarrow> char \<Rightarrow> nat" where
  "alpha_index alpha c = length (takeWhile (\<lambda>d. d \<noteq> c) alpha)"

definition rfc4648_encode :: "nat \<Rightarrow> string \<Rightarrow> u8 list \<Rightarrow> string" where
  "rfc4648_encode k alpha ws = map (\<lambda>c. alpha ! bits_nat c) (chunks k (pad_bits k (bytes_bits ws)))"

definition rfc4648_decode :: "nat \<Rightarrow> string \<Rightarrow> string \<Rightarrow> u8 list" where
  "rfc4648_decode k alpha s = whole_bytes (concat (map (\<lambda>c. nat_bits k (alpha_index alpha c)) s))"

lemma alpha_index_nth: "distinct alpha \<Longrightarrow> i < length alpha \<Longrightarrow> alpha_index alpha (alpha ! i) = i"
proof (induction alpha arbitrary: i)
  case (Cons a alpha)
  then show ?case by (cases i) (auto simp: alpha_index_def)
qed simp

lemma rfc4648_groups:
  assumes "0 < k" and "k \<le> 8" and "c \<in> set (chunks k (pad_bits k (bytes_bits ws)))" and "length alpha = 2 ^ k"
  shows "length c = k \<and> bits_nat c < length alpha"
  using assms chunks_length [OF pad_bits_dvd] bits_nat_less by metis

lemma rfc4648_roundtrip:
  assumes k: "0 < k" "k \<le> 8" and alpha: "distinct alpha" "length alpha = 2 ^ k"
  shows "rfc4648_decode k alpha (rfc4648_encode k alpha ws) = ws"
proof -
  let ?bs = "pad_bits k (bytes_bits ws)"
  have "map (\<lambda>c. nat_bits k (alpha_index alpha (alpha ! bits_nat c))) (chunks k ?bs) = chunks k ?bs"
  proof (rule map_idI)
    fix c assume "c \<in> set (chunks k ?bs)"
    then have "length c = k \<and> bits_nat c < length alpha" using k alpha rfc4648_groups by blast
    then show "nat_bits k (alpha_index alpha (alpha ! bits_nat c)) = c"
      using alpha nat_bits_bits_nat [of c] by (auto simp: alpha_index_nth)
  qed
  then have "rfc4648_decode k alpha (rfc4648_encode k alpha ws) = whole_bytes ?bs"
    using concat_chunks [OF k(1), of ?bs] by (simp add: rfc4648_decode_def rfc4648_encode_def comp_def)
  moreover have "(k - length (bytes_bits ws) mod k) mod k < 8"
    using k by (meson less_le_trans mod_less_divisor)
  ultimately show ?thesis by (simp add: pad_bits_def whole_bytes_bits)
qed

lemma rfc4648_chars:
  assumes "0 < k" "k \<le> 8" and "length alpha = 2 ^ k" and "c \<in> set (rfc4648_encode k alpha ws)"
  shows "c \<in> set alpha"
  using assms(4) rfc4648_groups [OF assms(1,2) _ assms(3)] by (auto simp: rfc4648_encode_def)

definition base32_alphabet :: string where
  "base32_alphabet = ''ABCDEFGHIJKLMNOPQRSTUVWXYZ234567''"

definition base64_alphabet :: string where
  "base64_alphabet = ''ABCDEFGHIJKLMNOPQRSTUVWXYZabcdefghijklmnopqrstuvwxyz0123456789+/''"

definition base16_alphabet :: string where
  "base16_alphabet = ''0123456789abcdef''"

text \<open>A key of 32 bytes is 43 base64 characters and one padding sign.\<close>

definition key_text :: "u8 list \<Rightarrow> string" where
  "key_text ws = rfc4648_encode 6 base64_alphabet ws @ ''=''"

definition key_parse :: "string \<Rightarrow> u8 list res" where
  "key_parse s = (let ws = rfc4648_decode 6 base64_alphabet (filter (\<lambda>c. c \<noteq> CHR ''='') s)
     in if length ws = 32 then Ok ws else Err (Msg ''Invalid key''))"

lemma base64_chars: "c \<in> set (rfc4648_encode 6 base64_alphabet ws) \<Longrightarrow> c \<in> set base64_alphabet"
  by (rule rfc4648_chars [of 6]) (simp_all add: base64_alphabet_def)

lemma key_text_chars: "c \<in> set (key_text ws) \<Longrightarrow> c \<notin> {TAB, NL, CR, CHR ''(''}"
  using base64_chars [of c ws] by (auto simp: key_text_def base64_alphabet_def)

lemma key_parse_text:
  assumes "length ws = 32"
  shows "key_parse (key_text ws) = Ok ws"
proof -
  have "filter (\<lambda>c. c \<noteq> CHR ''='') (rfc4648_encode 6 base64_alphabet ws) =
      rfc4648_encode 6 base64_alphabet ws"
    using base64_chars by (fastforce simp: filter_id_conv base64_alphabet_def)
  moreover have "rfc4648_decode 6 base64_alphabet (rfc4648_encode 6 base64_alphabet ws) = ws"
    by (rule rfc4648_roundtrip) (simp_all add: base64_alphabet_def)
  ultimately show ?thesis using assms by (simp add: key_parse_def key_text_def)
qed

section \<open>Networks\<close>

definition mask_bits :: "nat \<Rightarrow> nat \<Rightarrow> 'a::len word \<Rightarrow> 'a word" where
  "mask_bits w p a = push_bit (w - p) (drop_bit (w - p) a)"

fun net_trunc :: "ip_net \<Rightarrow> ip_net" where
  "net_trunc (IpNetV4 n) =
     IpNetV4 (Ipv4Net (mask_bits 32 (unat (net4_prefix_len n)) (net4_addr n)) (net4_prefix_len n))"
| "net_trunc (IpNetV6 a p) = IpNetV6 (mask_bits 128 (unat p) a) p"

text \<open>IPv6 addresses in the uncompressed form: eight groups of four hexadecimal digits.\<close>

definition v6_text :: "u128 \<Rightarrow> string" where
  "v6_text a = join '':''
     (chunks 4 (map (\<lambda>c. base16_alphabet ! bits_nat c) (chunks 4 (nat_bits 128 (unat a)))))"

definition v6_parse :: "string \<Rightarrow> u128" where
  "v6_parse s = of_nat (bits_nat (concat
     (map (\<lambda>c. nat_bits 4 (alpha_index base16_alphabet c)) (filter (\<lambda>c. c \<noteq> CHR '':'') s))))"

fun net_text :: "ip_net \<Rightarrow> string" where
  "net_text (IpNetV4 n) = ipv4_to_string (net4_addr n) @ ''/'' @ word_to_dec (net4_prefix_len n)"
| "net_text (IpNetV6 a p) = v6_text a @ ''/'' @ word_to_dec p"

definition net_parse :: "string \<Rightarrow> ip_net res" where
  "net_parse s = (case split_on (CHR ''/'') s of
      [a, l] \<Rightarrow> bind_res (parse_word l) (\<lambda>p.
        (case map parse_octet (split_on (CHR ''.'') a) of
           [Some w, Some x, Some y, Some z] \<Rightarrow> Ok (IpNetV4 (Ipv4Net (ipv4_of_octets w x y z) p))
         | _ \<Rightarrow> if CHR '':'' \<in> set a then Ok (IpNetV6 (v6_parse a) p)
                else Err (Msg ''invalid IP address syntax'')))
    | _ \<Rightarrow> Err (Msg ''invalid IP address syntax''))"

lemma join_filter_sep: "(\<forall>w \<in> set ws. c \<notin> set w) \<Longrightarrow> filter (\<lambda>d. d \<noteq> c) (join [c] ws) = concat ws"
proof (induction "[c]" ws rule: join.induct)
  case (3 w w' ws)
  then show ?case by (auto simp: filter_id_conv)
qed (auto simp: filter_id_conv)

lemma chunks_elems: "c \<in> set (chunks k xs) \<Longrightarrow> set c \<subseteq> set xs"
  by (induction k xs rule: chunks.induct) (auto dest: in_set_takeD in_set_dropD)

lemma join_set: "x \<in> set (join sep ws) \<Longrightarrow> x \<in> set sep \<or> (\<exists>w \<in> set ws. x \<in> set w)"
  by (induction sep ws rule: join.induct) auto

definition v6_digits :: "u128 \<Rightarrow> string" where
  "v6_digits a = map (\<lambda>c. base16_alphabet ! bits_nat c) (chunks 4 (nat_bits 128 (unat a)))"

lemma v6_groups:
  assumes "c \<in> set (chunks 4 (nat_bits 128 (unat (a :: u128))))"
  shows "length c = 4" and "bits_nat c < 16"
proof -
  show l: "length c = 4" using assms chunks_length [of 4 "nat_bits 128 (unat a)" c] by simp
  show "bits_nat c < 16" using bits_nat_less [of c] by (simp add: l)
qed

lemma v6_digit_chars: "c \<in> set (v6_digits a) \<Longrightarrow> c \<in> set base16_alphabet"
proof -
  assume "c \<in> set (v6_digits a)"
  then obtain g where "c = base16_alphabet ! bits_nat g" "bits_nat g < 16"
    using v6_groups(2) [of _ a] by (auto simp: v6_digits_def)
  moreover have "length base16_alphabet = 16" by (simp add: base16_alphabet_def)
  ultimately show ?thesis by simp
qed

lemma v6_chars: "c \<in> set (v6_text a) \<Longrightarrow> c \<in> set base16_alphabet \<or> c = CHR '':''"
  using chunks_elems [of _ 4 "v6_digits a"] v6_digit_chars [of _ a] join_set [of c "'':''"]
  by (fastforce simp: v6_text_def v6_digits_def [symmetric])

lemma v6_parse_text: "v6_parse (v6_text a) = a"
proof -
  let ?bs = "nat_bits 128 (unat a)"
  have "map (\<lambda>c. nat_bits 4 (alpha_index base16_alphabet (base16_alphabet ! bits_nat c))) (chunks 4 ?bs) =
      chunks 4 ?bs"
  proof (rule map_idI)
    fix c assume "c \<in> set (chunks 4 ?bs)"
    then show "nat_bits 4 (alpha_index base16_alphabet (base16_alphabet ! bits_nat c)) = c"
      using v6_groups [of c a] nat_bits_bits_nat [of c] alpha_index_nth [of base16_alphabet "bits_nat c"]
      by (simp add: base16_alphabet_def)
  qed
  then have "concat (map (\<lambda>c. nat_bits 4 (alpha_index base16_alphabet c)) (v6_digits a)) = ?bs"
    by (simp add: v6_digits_def comp_def concat_chunks)
  moreover have "filter (\<lambda>c. c \<noteq> CHR '':'') (v6_text a) = v6_digits a"
  proof -
    have "\<forall>w \<in> set (chunks 4 (v6_digits a)). CHR '':'' \<notin> set w"
      using chunks_elems [of _ 4 "v6_digits a"] v6_digit_chars [of "CHR '':''" a]
      by (auto simp: base16_alphabet_def)
    then show ?thesis
      unfolding v6_text_def v6_digits_def [symmetric] by (simp add: join_filter_sep concat_chunks)
  qed
  moreover have "unat a < 2 ^ 128" using unsigned_less [of a, where ?'a = nat] by simp
  ultimately show ?thesis by (simp add: v6_parse_def bits_nat_nat_bits)
qed

lemma length_chunks: "k dvd length xs \<Longrightarrow> 0 < k \<Longrightarrow> length (chunks k xs) = length xs div k"
proof (induction k xs rule: chunks.induct)
  case (3 k x xs)
  have l: "Suc k \<le> length (x # xs)" using dvd_imp_le [OF "3.prems"(1)] by simp
  have "Suc k dvd length (x # xs) - Suc k" using "3.prems"(1) by (rule dvd_diff_nat) simp
  then have "length (chunks (Suc k) (drop k xs)) = (length (x # xs) - Suc k) div Suc k"
    using "3.IH" by simp
  then show ?case using l le_div_geq [of "Suc k" "length (x # xs)"] by simp
qed simp_all

lemma v6_colon: "CHR '':'' \<in> set (v6_text a)"
proof -
  have "length (chunks 4 (v6_digits a)) = 8" by (simp add: length_chunks v6_digits_def)
  then obtain g h gs where "chunks 4 (v6_digits a) = g # h # gs"
    by (metis (no_types, opaque_lifting) length_0_conv list.exhaust list.size(4) numeral_eq_one_iff
        One_nat_def add.commute plus_1_eq_Suc semiring_norm(83) zero_neq_numeral)
  then show ?thesis unfolding v6_text_def v6_digits_def [symmetric] by simp
qed

lemma slash_free: "CHR ''/'' \<notin> set (ipv4_to_string a)" "CHR ''/'' \<notin> set (v6_text b)"
  "CHR ''/'' \<notin> set (nat_to_dec n)" "CHR ''.'' \<notin> set (v6_text b)"
proof -
  have d: "digit_char d \<noteq> CHR ''/''" if "d < 10" for d
    using that by (auto simp: digit_char_def char_of_eq_iff take_bit_eq_mod)
  show "CHR ''/'' \<notin> set (nat_to_dec n)" using nat_to_dec_digits d by metis
  show "CHR ''/'' \<notin> set (ipv4_to_string a)" using ipv4_chars [of "CHR ''/''" a] d by force
  show "CHR ''/'' \<notin> set (v6_text b)" "CHR ''.'' \<notin> set (v6_text b)"
    using v6_chars [of _ b] by (auto simp: base16_alphabet_def)
qed

lemma net_parse_text: "net_parse (net_text n) = Ok n"
proof (cases n)
  case (IpNetV4 m)
  then show ?thesis
    by (cases m) (simp add: net_parse_def split_on_append split_on_no_sep slash_free parse_ipv4_to_string
        ipv4_of_octets_octet ipv4_of_octets_octet [unfolded One_nat_def])
next
  case (IpNetV6 a p)
  have "map parse_octet (split_on (CHR ''.'') (v6_text a)) = [parse_octet (v6_text a)]"
    by (simp add: split_on_no_sep slash_free)
  then show ?thesis
    by (simp add: IpNetV6 net_parse_def split_on_append split_on_no_sep slash_free v6_colon v6_parse_text
        split: option.splits)
qed

lemma net_text_chars: "c \<in> set (net_text n) \<Longrightarrow> c \<notin> {TAB, NL, CR, CHR '','', CHR ''(''}"
proof -
  assume "c \<in> set (net_text n)"
  then have "(\<exists>d<10. c = digit_char d) \<or> c \<in> {CHR ''.'', CHR ''/'', CHR '':''} \<or> c \<in> set base16_alphabet"
    using nat_to_dec_digits [of c] ipv4_chars [of c] v6_chars [of c] by (cases n) auto
  moreover have "digit_char d \<notin> {TAB, NL, CR, CHR '','', CHR ''(''}" if "d < 10" for d
    using that by (auto simp: digit_char_def char_of_eq_iff take_bit_eq_mod)
  ultimately show ?thesis by (auto simp: base16_alphabet_def)
qed

section \<open>Socket addresses and URLs\<close>

definition sock6_text :: "u128 \<Rightarrow> u16 \<Rightarrow> u32 \<Rightarrow> string" where
  "sock6_text a p sc = ''['' @ v6_text a @ (if sc = 0 then [] else ''%'' @ word_to_dec sc) @ '']:'' @ word_to_dec p"

definition sock6_parse :: "string \<Rightarrow> socket_addr res" where
  "sock6_parse s = (case split_on (CHR '']'') s of
      [l, r] \<Rightarrow>
        (if take 1 l = ''['' \<and> take 1 r = '':'' \<and> CHR '':'' \<in> set l
         then bind_res (parse_word (tl r)) (\<lambda>p.
           (case split_on (CHR ''%'') (tl l) of
              [a] \<Rightarrow> Ok (SockV6 (v6_parse a) p 0)
            | [a, sc] \<Rightarrow> bind_res (parse_word sc) (\<lambda>sc. Ok (SockV6 (v6_parse a) p sc))
            | _ \<Rightarrow> Err (Msg ''invalid socket address syntax'')))
         else Err (Msg ''invalid socket address syntax''))
    | _ \<Rightarrow> Err (Msg ''invalid socket address syntax''))"

definition scheme_of :: "url \<Rightarrow> string" where
  "scheme_of u = takeWhile (\<lambda>c. c \<noteq> CHR '':'') (url_to_string u)"

definition host_of :: "url \<Rightarrow> string option" where
  "host_of u = (let h = takeWhile (\<lambda>c. c \<notin> {CHR ''/'', CHR '':''})
        (drop (length (scheme_of u) + 3) (url_to_string u))
      in if h = [] \<and> scheme_of u \<notin> {''http'', ''https''} then None else Some h)"

definition parse_url :: "string \<Rightarrow> url res" where
  "parse_url s = (if starts_with ''://'' (dropWhile (\<lambda>c. c \<noteq> CHR '':'') s) then Ok (Url s)
     else Err (Msg ''relative URL without a base''))"

section \<open>The instance\<close>

definition std_libs :: libs where
  "std_libs = \<lparr>
     pubkey_to_string = key_text \<circ> pubkey_bytes,
     pubkey_from_str = (\<lambda>s. bind_res (key_parse s) (\<lambda>b. Ok (Pubkey b))),
     privkey_to_string = key_text \<circ> privkey_bytes,
     privkey_from_str = (\<lambda>s. bind_res (key_parse s) (\<lambda>b. Ok (Privkey b))),
     secret_to_string = key_text \<circ> secret_bytes,
     secret_from_str = (\<lambda>s. bind_res (key_parse s) (\<lambda>b. Ok (Secret b))),
     url_parse = parse_url,
     url_scheme = scheme_of,
     url_host_str = host_of,
     base32_encode = rfc4648_encode 5 base32_alphabet,
     ipv4net_new = (\<lambda>a p. if p \<le> 32 then Some (Ipv4Net a p) else None),
     ipv4net_network = (\<lambda>n. mask_bits 32 (unat (net4_prefix_len n)) (net4_addr n)),
     ipv4_saturating_add = (\<lambda>a n. if unat a + unat n < 2 ^ 32 then a + n else - 1),
     ipnet_trunc = net_trunc,
     ipnet_to_string = net_text,
     ipnet_from_str = net_parse,
     ipv6_to_string = v6_text,
     sockv6_to_string = sock6_text,
     sockv6_from_str = sock6_parse,
     regex_replace = counter_replace,
     hash_iter = remdups\<rparr>"

interpretation std_ipnet: ipnet_laws std_libs
  by unfold_locales (simp_all add: std_libs_def mask_bits_def)

interpretation std_ipnet_text: ipnet_text_laws std_libs
proof
  fix n
  show "ipnet_to_string std_libs n \<noteq> []" by (cases n) (simp_all add: std_libs_def)
qed (use net_parse_text net_text_chars in \<open>simp_all add: std_libs_def\<close>)

interpretation std_keys: key_laws std_libs
proof
  fix c k k' k''
  show "c \<in> set (pubkey_to_string std_libs k) \<Longrightarrow> c \<notin> {TAB, NL, CR}"
    and "c \<in> set (privkey_to_string std_libs k') \<Longrightarrow> c \<notin> {TAB, NL, CR}"
    using key_text_chars by (fastforce simp: std_libs_def)+
  show "c \<in> set (secret_to_string std_libs k'') \<Longrightarrow> c \<notin> {TAB, NL, CR, CHR ''(''}"
    using key_text_chars by (simp add: std_libs_def)
qed (simp_all add: std_libs_def key_parse_text)

interpretation std_stats: stats_laws std_libs ..

interpretation std_conf: conf_laws std_libs
proof
  fix a :: u128 and p :: u16 and z :: u32
  have "NL \<notin> set (v6_text a)" "CR \<notin> set (v6_text a)"
    using v6_chars [of NL a] v6_chars [of CR a] by (auto simp: base16_alphabet_def)
  then show "one_line (sock_to_string std_libs (SockV6 a p z))"
    by (simp add: one_line_def std_libs_def sock6_text_def nat_to_dec_special)
qed

interpretation std_fwd: fwd_net_laws std_libs
proof
  fix xs ys :: "u8 list"
  assume eq: "base32_encode std_libs xs = base32_encode std_libs ys"
  have "rfc4648_decode 5 base32_alphabet (rfc4648_encode 5 base32_alphabet zs) = zs" for zs
    by (rule rfc4648_roundtrip) (simp_all add: base32_alphabet_def)
  with eq show "xs = ys" by (simp add: std_libs_def) metis
next
  fix u
  show "url_scheme std_libs u \<in> {''http'', ''https''} \<Longrightarrow> url_host_str std_libs u \<noteq> None"
    by (auto simp: std_libs_def host_of_def Let_def)
qed

interpretation std_hash: hash_laws std_libs
  by unfold_locales (simp_all add: std_libs_def)

interpretation std_regex: regex_laws std_libs
  by (rule counter_replace_laws) (simp add: std_libs_def)

interpretation std_rules: rule_text std_libs
proof
  fix c a
  show "c \<in> set (ipv6_to_string std_libs a) \<Longrightarrow> (of_char c :: nat) < 128 \<and> c \<notin> {NL, CR, CHR '']''}"
    using v6_chars [of c a] by (auto simp: std_libs_def base16_alphabet_def)
  show "ipv6_to_string std_libs a \<noteq> []" using v6_colon [of a] by (auto simp: std_libs_def)
qed

end
