(* ===== verification/Kernel_Instance.thy ===== *)
theory Kernel_Instance
  imports Gateway_Partial Runtime_Props Libs_Instance
begin

text \<open>
  A simulated host that satisfies the laws of \<open>linux\<close>: namespaces, interfaces, files and rules kept
  in one record, every operation failing outside its precondition. It shows that the laws can hold
  together, and the theorems about \<open>apply\<close> and \<open>apply_partial\<close> can be run on it.
\<close>

section \<open>State\<close>

record sim_if =
  s_mtu :: usize
  s_up :: bool
  s_addrs :: "ip_net list"
  s_master :: "string option"
  s_peer :: "(string option \<times> string) option"
  s_conf :: "string option"

record sim =
  s_netns :: "string list"
  s_ifs :: "string option \<times> string \<Rightarrow> sim_if option"
  s_nsfiles :: "string \<times> string \<Rightarrow> string option"
  s_ipt :: "string \<Rightarrow> string"
  s_files :: "string \<Rightarrow> string option"
  s_nginx :: "string option \<times> string option"

definition sim_empty :: sim where
  "sim_empty = \<lparr>s_netns = [], s_ifs = (\<lambda>_. None), s_nsfiles = (\<lambda>_. None), s_ipt = (\<lambda>_. []),
     s_files = (\<lambda>_. None), s_nginx = (None, None)\<rparr>"

definition view_if :: "sim_if \<Rightarrow> iface" where
  "view_if i = \<lparr>if_mtu = s_mtu i, if_up = s_up i, if_addrs = set (s_addrs i), if_master = s_master i,
     if_peer = s_peer i, if_conf = s_conf i\<rparr>"

definition sim_view :: "sim \<Rightarrow> kern" where
  "sim_view S = \<lparr>k_netns = set (s_netns S), k_ifs = (\<lambda>k. map_option view_if (s_ifs S k)),
     k_nsfiles = s_nsfiles S, k_ipt = (\<lambda>ns. clean_iptables std_libs (s_ipt S ns)),
     k_files = s_files S, k_nginx = s_nginx S\<rparr>"

section \<open>Operations\<close>

definition no_device :: error where "no_device = Msg ''No such device''"

text \<open>Run an update when the precondition holds, read a value, read from or change an interface.\<close>

definition guarded :: "(sim \<Rightarrow> bool) \<Rightarrow> (sim \<Rightarrow> sim) \<Rightarrow> (sim, unit) io" where
  "guarded P f = (\<lambda>S. if P S then (Ok (), f S) else (Err (Msg ''RTNETLINK answers''), S))"

definition query :: "(sim \<Rightarrow> 'a) \<Rightarrow> (sim, 'a) io" where
  "query f = (\<lambda>S. (Ok (f S), S))"

definition query_if :: "string option \<times> string \<Rightarrow> (sim_if \<Rightarrow> 'a) \<Rightarrow> (sim, 'a) io" where
  "query_if k f = (\<lambda>S. case s_ifs S k of None \<Rightarrow> (Err no_device, S) | Some i \<Rightarrow> (Ok (f i), S))"

definition change_if :: "(sim \<Rightarrow> bool) \<Rightarrow> string option \<times> string \<Rightarrow> (sim_if \<Rightarrow> sim_if) \<Rightarrow> (sim, unit) io" where
  "change_if P k f = guarded (\<lambda>S. s_ifs S k \<noteq> None \<and> P S)
     (\<lambda>S. S\<lparr>s_ifs := (s_ifs S)(k := map_option f (s_ifs S k))\<rparr>)"

definition new_if :: "(string option \<times> string) option \<Rightarrow> sim_if" where
  "new_if peer = \<lparr>s_mtu = 1500, s_up = False, s_addrs = [], s_master = None, s_peer = peer, s_conf = None\<rparr>"

definition sim_drop :: "string \<Rightarrow> (string option \<times> string \<Rightarrow> sim_if option) \<Rightarrow>
    string option \<times> string \<Rightarrow> sim_if option" where
  "sim_drop ns ifs k = (case ifs k of
      None \<Rightarrow> None
    | Some i \<Rightarrow> if fst k = Some ns \<or> (case s_peer i of None \<Rightarrow> False | Some pk \<Rightarrow> fst pk = Some ns)
                then None else Some i)"

definition in_ns :: "string option \<Rightarrow> sim \<Rightarrow> bool" where
  "in_ns nso S \<longleftrightarrow> (case nso of None \<Rightarrow> True | Some ns \<Rightarrow> ns \<in> set (s_netns S))"

definition ipt_key :: "string option \<Rightarrow> string" where
  "ipt_key nso = (case nso of None \<Rightarrow> [] | Some ns \<Rightarrow> ns)"

definition sim_env :: "profile \<Rightarrow> options \<Rightarrow> sim env" where
  "sim_env p os = \<lparr>
     lib = std_libs, prof = p, opts = os,
     render_iptables = (\<lambda>c. Ok (iptables_save_tera std_libs c)),
     render_nginx = (\<lambda>f. Ok (nginx_conf_tera std_libs f)),
     render_sites = (\<lambda>f. Ok (sites_nginx_conf_tera std_libs f)),
     netns_list = query (\<lambda>S. map (\<lambda>ns. \<lparr>netns_item_name = ns, netns_item_id = None\<rparr>) (s_netns S)),
     netns_exists = (\<lambda>ns. query (\<lambda>S. ns \<in> set (s_netns S))),
     netns_add = (\<lambda>ns. guarded (\<lambda>S. ns \<notin> set (s_netns S))
       (\<lambda>S. S\<lparr>s_netns := ns # s_netns S, s_ipt := (s_ipt S)(ns := [])\<rparr>)),
     netns_del = (\<lambda>ns. guarded (\<lambda>S. ns \<in> set (s_netns S))
       (\<lambda>S. S\<lparr>s_netns := filter (\<lambda>m. m \<noteq> ns) (s_netns S), s_ifs := sim_drop ns (s_ifs S)\<rparr>)),
     netns_write_file = (\<lambda>ns path text. guarded (\<lambda>S. ns \<in> set (s_netns S))
       (\<lambda>S. S\<lparr>s_nsfiles := (s_nsfiles S)((ns, path) \<mapsto> text)\<rparr>)),
     bridge_exists = (\<lambda>nso name. query (\<lambda>S. s_ifs S (nso, name) \<noteq> None)),
     bridge_add = (\<lambda>nso name. guarded (\<lambda>S. s_ifs S (nso, name) = None)
       (\<lambda>S. S\<lparr>s_ifs := (s_ifs S)((nso, name) \<mapsto> new_if None)\<rparr>)),
     wireguard_exists = (\<lambda>ns name. query (\<lambda>S. s_ifs S (Some ns, name) \<noteq> None)),
     wireguard_create = (\<lambda>nso name. guarded (\<lambda>S. in_ns nso S \<and> s_ifs S (nso, name) = None)
       (\<lambda>S. S\<lparr>s_ifs := (s_ifs S)((nso, name) \<mapsto> new_if None)\<rparr>)),
     wireguard_syncconf = (\<lambda>ns name S.
       change_if (\<lambda>S. s_nsfiles S (ns, ''wireguard/'' @ name @ ''.conf'') \<noteq> None) (Some ns, name)
         (\<lambda>i. i\<lparr>s_conf := s_nsfiles S (ns, ''wireguard/'' @ name @ ''.conf'')\<rparr>) S),
     interface_show = (\<lambda>nso name. query_if (nso, name)
       (\<lambda>i. \<lparr>info_mtu = Some (s_mtu i), info_is_down = (\<not> s_up i)\<rparr>)),
     interface_mtu = (\<lambda>nso name m. change_if (\<lambda>_. valid_mtu m) (nso, name) (\<lambda>i. i\<lparr>s_mtu := m\<rparr>)),
     interface_up = (\<lambda>nso name. change_if (\<lambda>_. True) (nso, name) (\<lambda>i. i\<lparr>s_up := True\<rparr>)),
     addr_list = (\<lambda>nso name. query_if (nso, name) s_addrs),
     addr_add = (\<lambda>nso name a. change_if
       (\<lambda>S. case s_ifs S (nso, name) of None \<Rightarrow> False | Some i \<Rightarrow> a \<notin> set (s_addrs i))
       (nso, name) (\<lambda>i. i\<lparr>s_addrs := a # s_addrs i\<rparr>)),
     veth_exists = (\<lambda>ns name. query (\<lambda>S. s_ifs S (Some ns, name) \<noteq> None)),
     veth_add = (\<lambda>ns outer_if inner_if. guarded
       (\<lambda>S. ns \<in> set (s_netns S) \<and> s_ifs S (None, outer_if) = None \<and> s_ifs S (Some ns, inner_if) = None)
       (\<lambda>S. S\<lparr>s_ifs := (s_ifs S)((None, outer_if) \<mapsto> new_if (Some (Some ns, inner_if)),
          (Some ns, inner_if) \<mapsto> new_if (Some (None, outer_if)))\<rparr>)),
     link_get_master = (\<lambda>nso name. query_if (nso, name) s_master),
     link_set_master = (\<lambda>nso name master. change_if (\<lambda>S. s_ifs S (nso, master) \<noteq> None) (nso, name)
       (\<lambda>i. i\<lparr>s_master := Some master\<rparr>)),
     iptables_save = (\<lambda>nso. query (\<lambda>S. s_ipt S (ipt_key nso))),
     iptables_restore = (\<lambda>nso t. guarded (in_ns nso) (\<lambda>S. S\<lparr>s_ipt := (s_ipt S)(ipt_key nso := t)\<rparr>)),
     nginx_reload = guarded (\<lambda>_. True) (\<lambda>S. S\<lparr>s_nginx := (s_files S NGINX_MODULE_PATH, s_files S NGINX_SITE_PATH)\<rparr>),
     is_file = (\<lambda>path. query (\<lambda>S. s_files S path \<noteq> None)),
     fs_write = (\<lambda>path text. guarded (\<lambda>_. True) (\<lambda>S. S\<lparr>s_files := (s_files S)(path \<mapsto> text)\<rparr>))\<rparr>"

section \<open>The laws hold\<close>

lemma reads_query: "x = f S \<Longrightarrow> reads sim_view (query f) S x"
  by (simp add: reads_def query_def)

lemma moves_guarded: "P S \<Longrightarrow> sim_view (f S) = K \<Longrightarrow> moves sim_view (guarded P f) S K"
  by (simp add: moves_def guarded_def)

lemma view_ifs: "k_ifs (sim_view S) k = Some i \<longleftrightarrow> (\<exists>j. s_ifs S k = Some j \<and> i = view_if j)"
  "k_ifs (sim_view S) k = None \<longleftrightarrow> s_ifs S k = None"
  by (auto simp: sim_view_def)

lemma reads_query_if: "s_ifs S k = Some i \<Longrightarrow> x = f i \<Longrightarrow> reads sim_view (query_if k f) S x"
  by (simp add: reads_def query_if_def)

lemma moves_change_if:
  assumes "k_ifs (sim_view S) k \<noteq> None" and "P S" and "\<And>i. view_if (f i) = g (view_if i)"
  shows "moves sim_view (change_if P k f) S (upd_if k g (sim_view S))"
  using assms unfolding change_if_def
  by (intro moves_guarded) (auto simp: sim_view_def upd_if_def fun_eq_iff option.map_comp comp_def)

lemma sim_view_drop: "(\<lambda>k. map_option view_if (sim_drop ns ifs k)) = drop_ns ns (\<lambda>k. map_option view_if (ifs k))"
  by (auto simp: fun_eq_iff sim_drop_def drop_ns_def view_if_def split: option.splits)

lemma sim_view_sel [simp]:
  "k_netns (sim_view S) = set (s_netns S)" "k_nsfiles (sim_view S) = s_nsfiles S"
  "k_ipt (sim_view S) ns = clean_iptables std_libs (s_ipt S ns)" "k_files (sim_view S) = s_files S"
  by (simp_all add: sim_view_def)

lemma k_ifs_view: "k_ifs (sim_view S) = (\<lambda>k. map_option view_if (s_ifs S k))"
  by (simp add: sim_view_def)

lemma view_new_if: "view_if (new_if peer) = fresh_if 1500 peer"
  by (simp add: view_if_def new_if_def fresh_if_def)

lemma clean_empty: "clean_iptables std_libs [] = [NL]"
  by (simp add: clean_iptables_def lines_def)

lemma sim_linux: "linux (sim_env p os) sim_view 1500 [NL] (clean_iptables std_libs) (\<lambda>_. True) (\<lambda>_. True)"
proof (unfold_locales, goal_cases)
  case (1 s)
  then show ?case by (auto simp: sim_env_def reads_def query_def image_image)
next
  case (3 ns s)
  then show ?case by (simp add: sim_env_def) (rule moves_guarded, auto simp: sim_view_def clean_empty)
next
  case (4 ns s)
  then show ?case by (simp add: sim_env_def) (rule moves_guarded, auto simp: sim_view_def sim_view_drop)
next
  case (5 ns s path cont)
  then show ?case by (simp add: sim_env_def) (rule moves_guarded, auto simp: sim_view_def)
next
  case (7 s name)
  then show ?case by (simp add: sim_env_def) (rule moves_guarded, auto simp: sim_view_def view_new_if)
next
  case (9 ns s name)
  then show ?case
    by (simp add: sim_env_def) (rule moves_guarded, auto simp: in_ns_def sim_view_def view_new_if)
next
  case (10 s ns name conf)
  then show ?case
    using moves_change_if [of s "(Some ns, name)"
        "\<lambda>S. s_nsfiles S (ns, ''wireguard/'' @ name @ ''.conf'') \<noteq> None"
        "\<lambda>i. i\<lparr>s_conf := s_nsfiles s (ns, ''wireguard/'' @ name @ ''.conf'')\<rparr>"
        "\<lambda>i. i\<lparr>if_conf := Some conf\<rparr>"]
    by (auto simp: sim_env_def moves_def view_if_def)
next
  case (11 s nso name i)
  then show ?case by (simp add: sim_env_def) (auto simp: view_ifs view_if_def intro: reads_query_if)
next
  case (12 s nso name m)
  then show ?case by (simp add: sim_env_def) (rule moves_change_if, auto simp: view_if_def)
next
  case (13 s nso name)
  then show ?case by (simp add: sim_env_def) (rule moves_change_if, auto simp: view_if_def)
next
  case (14 s nso name i)
  then show ?case by (simp add: sim_env_def) (auto simp: view_ifs view_if_def intro: reads_query_if)
next
  case (15 s nso name i a)
  then show ?case by (simp add: sim_env_def) (rule moves_change_if, auto simp: view_ifs view_if_def)
next
  case (17 ns s outer_if inner_if)
  then show ?case by (simp add: sim_env_def) (rule moves_guarded, auto simp: sim_view_def view_new_if fun_eq_iff)
next
  case (18 s nso name i)
  then show ?case by (simp add: sim_env_def) (auto simp: view_ifs view_if_def intro: reads_query_if)
next
  case (19 s nso name master)
  then show ?case by (simp add: sim_env_def) (rule moves_change_if, auto simp: view_ifs view_if_def)
next
  case (20 ns s)
  then show ?case by (auto simp: sim_env_def ipt_key_def intro: reads_query)
next
  case (21 ns s t)
  then show ?case
    by (simp add: sim_env_def) (rule moves_guarded, auto simp: in_ns_def ipt_key_def sim_view_def)
next
  case (22 path cont s)
  then show ?case by (simp add: sim_env_def) (rule moves_guarded, auto simp: sim_view_def)
next
  case (24 s)
  then show ?case by (simp add: sim_env_def) (rule moves_guarded, auto simp: sim_view_def)
qed (simp_all add: sim_env_def reads_query k_ifs_view)

interpretation sim: gateway_system "sim_env p os" sim_view 1500 "[NL]" "clean_iptables std_libs" "\<lambda>_. True" "\<lambda>_. True"
proof -
  have lib: "lib (sim_env p os) = std_libs" by (simp add: sim_env_def)
  have fwd: "fwd_net_laws (lib (sim_env p os))" "hash_laws (lib (sim_env p os))"
    unfolding lib by (rule std_fwd.fwd_net_laws_axioms std_hash.hash_laws_axioms)+
  with sim_linux show "gateway_system (sim_env p os) sim_view 1500 [NL] (clean_iptables std_libs) (\<lambda>_. True) (\<lambda>_. True)"
    by (simp add: gateway_system_def)
qed

end
