(* ===== verification/Watchdog.thy ===== *)
theory Watchdog
  imports Types
begin

text \<open>
  \<^verbatim>\<open>src/watchdog.rs\<close>: polling the WireGuard statistics of every network and turning the differences
  to the previous poll into events and traffic. The clock, the wrappers' \<open>netns_list\<close> and
  \<open>wireguard_stats\<close> and the two broadcast channels are the operations of the record \<open>wd_env\<close>, over an
  arbitrary state. The cache and the traffic report are the mutable references the functions share,
  part of the state they run on; on an error they keep what was written to them. The wrappers' own
  \<open>NetworkStats\<close> and \<open>PeerStats\<close> are represented by the records of the same names of
  \<^verbatim>\<open>src/types.rs\<close>, which have the fields the watchdog reads.
\<close>

definition TRAFFIC_MINIMUM :: usize where "TRAFFIC_MINIMUM = 1024"
definition WIREGUARD_HANDSHAKE_TIMEOUT :: nat where "WIREGUARD_HANDSHAKE_TIMEOUT = 3 * 60"

type_synonym net_cache = "(pubkey, peer_stats) btreemap"
type_synonym peer_cache = "(u16, net_cache) btreemap"

record 's wd_env =
  wd_prof :: profile
  now :: "('s, system_time) io"
  list_netns :: "('s, netns_item list) io"
  wireguard_stats :: "string \<Rightarrow> string \<Rightarrow> ('s, network_stats) io"
  send_event :: "gateway_event \<Rightarrow> ('s, unit) io"
  send_traffic :: "traffic_info \<Rightarrow> ('s, unit) io"

record 's wd =
  wd_traffic :: traffic_info
  wd_cache :: peer_cache
  wd_sys :: 's

definition wd_do :: "('s, 'a) io \<Rightarrow> ('s wd, 'a) io" where
  "wd_do m = zoom wd_sys (\<lambda>s w. w\<lparr>wd_sys := s\<rparr>) m"

text \<open>\<open>Global::event\<close> (\<^verbatim>\<open>src/lib.rs\<close>): send on the events channel.\<close>

definition wd_event :: "'s wd_env \<Rightarrow> gateway_event \<Rightarrow> ('s wd, unit) io" where
  "wd_event W e = wd_do (send_event W e)"

section \<open>Time\<close>

definition ns_per_sec :: int where "ns_per_sec = 10 ^ 9"

text \<open>\<open>now.duration_since(t)\<close> fails when \<open>t\<close> is later than \<open>now\<close>; a duration is in nanoseconds.\<close>

definition duration_since :: "system_time \<Rightarrow> system_time \<Rightarrow> nat option" where
  "duration_since t1 t0 = (if t0 \<le> t1 then Some (nat (t1 - t0)) else None)"

definition as_secs :: "nat \<Rightarrow> nat" where
  "as_secs d = d div nat ns_per_sec"

section \<open>One peer\<close>

text \<open>A handshake too long ago, or in the future, counts as none.\<close>

definition expire_handshake :: "system_time \<Rightarrow> system_time option \<Rightarrow> system_time option" where
  "expire_handshake t h = (case h of
      None \<Rightarrow> None
    | Some handshake \<Rightarrow>
        (case duration_since t handshake of
           Some d \<Rightarrow> if WIREGUARD_HANDSHAKE_TIMEOUT < as_secs d then None else Some handshake
         | None \<Rightarrow> None))"

definition check_handshake :: "'s wd_env \<Rightarrow> peer_stats \<Rightarrow> ('s wd, peer_stats) io" where
  "check_handshake W peer = (case pst_latest_handshake peer of
      None \<Rightarrow> ret peer
    | Some handshake \<Rightarrow>
        bind_io (wd_do (now W)) (\<lambda>t.
        ret (peer\<lparr>pst_latest_handshake := expire_handshake t (pst_latest_handshake peer)\<rparr>)))"

text \<open>\<open>duration_since(UNIX_EPOCH)?.as_secs() as usize\<close>\<close>

definition clock_error :: error where
  "clock_error = Msg ''second time provided was later than self''"

definition unix_time :: "system_time \<Rightarrow> usize res" where
  "unix_time t = bind_res (ok_or (duration_since t 0) clock_error) (\<lambda>d. Ok (of_nat (as_secs d)))"

text \<open>The traffic since the previous poll, with the arithmetic of the source.\<close>

definition traffic_difference :: "profile \<Rightarrow> peer_stats \<Rightarrow> peer_stats \<Rightarrow> usize res" where
  "traffic_difference p previous peer =
     bind_res (sub_ck p (pst_transfer_rx previous) (pst_transfer_rx peer)) (\<lambda>r.
     bind_res (sub_ck p (pst_transfer_tx previous) (pst_transfer_tx peer)) (\<lambda>t.
     add_ck p r t))"

definition record_traffic ::
  "profile \<Rightarrow> pubkey \<Rightarrow> peer_stats \<Rightarrow> peer_stats \<Rightarrow> usize \<Rightarrow> traffic_info \<Rightarrow> traffic_info res" where
  "record_traffic p network previous peer time ti =
     (if pst_transfer_rx peer < pst_transfer_rx previous \<or> pst_transfer_tx peer < pst_transfer_tx previous
      then Ok ti
      else bind_res (traffic_difference p previous peer) (\<lambda>difference.
        if 0 < difference
        then bind_res (sub_ck p (pst_transfer_rx peer) (pst_transfer_rx previous)) (\<lambda>r.
             bind_res (sub_ck p (pst_transfer_tx peer) (pst_transfer_tx previous)) (\<lambda>t.
             traffic_info_add p ti network (pst_public_key peer) time (traffic_new r t)))
        else Ok ti))"

definition connected_event :: "'s wd_env \<Rightarrow> network_stats \<Rightarrow> peer_stats \<Rightarrow> ('s wd, unit) io" where
  "connected_event W stats peer =
     bind_io (lift_res (unwrap (pst_endpoint peer))) (\<lambda>endpoint.
     wd_event W (PeerConnected \<lparr>pc_network = nst_public_key stats, pc_peer = pst_public_key peer,
       pc_endpoint = endpoint\<rparr>))"

definition disconnected_event :: "'s wd_env \<Rightarrow> network_stats \<Rightarrow> pubkey \<Rightarrow> ('s wd, unit) io" where
  "disconnected_event W stats peer =
     wd_event W (PeerDisconnected \<lparr>pd_network = nst_public_key stats, pd_peer = peer\<rparr>)"

text \<open>\<open>cache\<close> in the source is the entry of the network's listen port.\<close>

definition net_cache_of :: "u16 \<Rightarrow> 's wd \<Rightarrow> net_cache" where
  "net_cache_of port w = bt_or (wd_cache w) port bt_empty"

definition cache_insert :: "u16 \<Rightarrow> peer_stats \<Rightarrow> ('s wd, unit) io" where
  "cache_insert port peer = (\<lambda>w. (Ok (), w\<lparr>wd_cache :=
     bt_insert port (bt_insert (pst_public_key peer) peer (net_cache_of port w)) (wd_cache w)\<rparr>))"

definition cache_remove :: "u16 \<Rightarrow> pubkey \<Rightarrow> ('s wd, unit) io" where
  "cache_remove port peer = (\<lambda>w. (Ok (), w\<lparr>wd_cache :=
     bt_insert port (bt_remove peer (net_cache_of port w)) (wd_cache w)\<rparr>))"

definition add_traffic :: "(traffic_info \<Rightarrow> traffic_info res) \<Rightarrow> ('s wd, unit) io" where
  "add_traffic f = bind_io get_st (\<lambda>w. bind_io (lift_res (f (wd_traffic w))) (\<lambda>ti.
     (\<lambda>w. (Ok (), w\<lparr>wd_traffic := ti\<rparr>))))"

text \<open>The events about a peer polled before: a new endpoint, and a change of its status.\<close>

definition report_peer :: "'s wd_env \<Rightarrow> network_stats \<Rightarrow> peer_stats \<Rightarrow> peer_stats \<Rightarrow> ('s wd, unit) io" where
  "report_peer W stats previous peer =
     then_io (when_io (pst_endpoint peer \<noteq> pst_endpoint previous)
        (case pst_endpoint peer of
           Some endpoint \<Rightarrow> wd_event W (Endpoint \<lparr>pe_network = nst_public_key stats,
             pe_peer = pst_public_key peer, pe_endpoint = endpoint\<rparr>)
         | None \<Rightarrow> ret ()))
     (case (pst_latest_handshake previous, pst_latest_handshake peer) of
        (Some _, None) \<Rightarrow> disconnected_event W stats (pst_public_key peer)
      | (None, Some _) \<Rightarrow> connected_event W stats peer
      | _ \<Rightarrow> ret ())"

definition known_peer :: "'s wd_env \<Rightarrow> network_stats \<Rightarrow> peer_stats \<Rightarrow> peer_stats \<Rightarrow> ('s wd, unit) io" where
  "known_peer W stats previous peer =
     bind_io (wd_do (now W)) (\<lambda>t.
     bind_io (lift_res (unix_time t)) (\<lambda>time.
     then_io (add_traffic (record_traffic (wd_prof W) (nst_public_key stats) previous peer time))
     (report_peer W stats previous peer)))"

definition watchdog_peer :: "'s wd_env \<Rightarrow> network_stats \<Rightarrow> peer_stats \<Rightarrow> ('s wd, unit) io" where
  "watchdog_peer W stats peer =
     bind_io (check_handshake W peer) (\<lambda>peer.
     bind_io get_st (\<lambda>w.
     then_io (case bt_get (net_cache_of (nst_listen_port stats) w) (pst_public_key peer) of
         Some previous \<Rightarrow> known_peer W stats previous peer
       | None \<Rightarrow> when_io (pst_latest_handshake peer \<noteq> None) (connected_event W stats peer))
     (cache_insert (nst_listen_port stats) peer)))"

section \<open>One network and one run\<close>

text \<open>An error of the body is logged and the loop goes on; a panic is not caught.\<close>

definition log_errors :: "('s, unit) io \<Rightarrow> ('s, unit) io" where
  "log_errors m = (\<lambda>s. case m s of (Err e, s') \<Rightarrow> (Ok (), s') | r \<Rightarrow> r)"

definition dead_peers :: "peer_stats list \<Rightarrow> net_cache \<Rightarrow> pubkey list" where
  "dead_peers peers cache = filter (\<lambda>k. k \<notin> pst_public_key ` set peers) (bt_keys cache)"

text \<open>What \<open>watchdog_netns\<close> does with the statistics: poll every peer, then drop the dead ones.\<close>

definition poll_network :: "'s wd_env \<Rightarrow> network_stats \<Rightarrow> ('s wd, unit) io" where
  "poll_network W stats =
     (let port = nst_listen_port stats in
      then_io (\<lambda>w. (Ok (), w\<lparr>wd_cache := bt_insert port (net_cache_of port w) (wd_cache w)\<rparr>))
      (then_io (for_io (nst_peers stats) (\<lambda>peer. log_errors (watchdog_peer W stats peer)))
      (bind_io get_st (\<lambda>w.
       for_io (dead_peers (nst_peers stats) (net_cache_of port w)) (\<lambda>peer.
         then_io (cache_remove port peer) (disconnected_event W stats peer))))))"

text \<open>The slice \<open>netns[8..]\<close> panics on a shorter name.\<close>

definition watchdog_netns :: "'s wd_env \<Rightarrow> string \<Rightarrow> ('s wd, unit) io" where
  "watchdog_netns W netns =
     (let wgif = ''wg'' @ drop 8 netns in
      if length netns < 8 then lift_res Panic else
      bind_io (context_io ''Fetching wireguard stats'' (wd_do (wireguard_stats W netns wgif)))
        (poll_network W))"

definition watchdog_run :: "'s wd_env \<Rightarrow> ('s wd, unit) io" where
  "watchdog_run W =
     bind_io (context_io ''Listing network namespaces'' (wd_do (list_netns W))) (\<lambda>netns_items.
     then_io (\<lambda>w. (Ok (), w\<lparr>wd_traffic := traffic_info_new 0\<rparr>))
     (then_io (for_io netns_items (\<lambda>netns.
        when_io (starts_with NETNS_PREFIX (netns_item_name netns))
          (log_errors (watchdog_netns W (netns_item_name netns)))))
     (bind_io get_st (\<lambda>w. wd_do (send_traffic W (wd_traffic w))))))"

text \<open>
  \<open>watchdog\<close> runs once per tick until a run fails; \<open>watchdog_ticks n\<close> is its first \<open>n\<close> ticks, from the
  empty cache it starts with.
\<close>

fun watchdog_ticks :: "'s wd_env \<Rightarrow> nat \<Rightarrow> ('s wd, unit) io" where
  "watchdog_ticks W 0 = ret ()"
| "watchdog_ticks W (Suc n) = then_io (watchdog_run W) (watchdog_ticks W n)"

definition watchdog :: "'s wd_env \<Rightarrow> nat \<Rightarrow> ('s wd, unit) io" where
  "watchdog W n = then_io (\<lambda>w. (Ok (), w\<lparr>wd_cache := bt_empty\<rparr>)) (watchdog_ticks W n)"

text \<open>
  \<open>Global::watchdog\<close> seen one run at a time: when a run fails, \<open>watchdog\<close> returns the error, which is
  logged, and is called again, with a cache of its own. A panic ends the task.
\<close>

definition task_run :: "'s wd_env \<Rightarrow> ('s wd, unit) io" where
  "task_run W = (\<lambda>w. case watchdog_run W w of
      (Err e, w') \<Rightarrow> (Ok (), w'\<lparr>wd_cache := bt_empty\<rparr>)
    | r \<Rightarrow> r)"

end
