(* ===== verification/Watchdog_Frame.thy ===== *)
theory Watchdog_Frame
  imports Watchdog_Props
begin

text \<open>
  What a run of the watchdog does to the world outside it, whatever its outcome: a relation between
  states that is a preorder and holds across every call the watchdog makes of its environment holds
  across a whole run.
\<close>

lemma snd_log_errors: "snd (log_errors m w) = snd (m w)"
  by (simp add: log_errors_def split: prod.splits res.splits)

locale watchdog_frame =
  fixes W :: "'s wd_env" and R :: "'s \<Rightarrow> 's \<Rightarrow> bool"
  assumes R_refl: "R s s"
    and R_trans: "R s s' \<Longrightarrow> R s' s'' \<Longrightarrow> R s s''"
    and R_now: "R s (snd (now W s))"
    and R_list: "R s (snd (list_netns W s))"
    and R_stats: "R s (snd (wireguard_stats W ns wg s))"
    and R_event: "R s (snd (send_event W e s))"
    and R_traffic: "R s (snd (send_traffic W ti s))"
begin

definition framed :: "('s wd, 'a) io \<Rightarrow> bool" where
  "framed m \<longleftrightarrow> (\<forall>w. R (wd_sys w) (wd_sys (snd (m w))))"

lemma framedD: "framed m \<Longrightarrow> m w = (r, w') \<Longrightarrow> R (wd_sys w) (wd_sys w')"
  unfolding framed_def by (metis snd_conv)

lemma framed_bind: "framed m \<Longrightarrow> (\<And>x. framed (f x)) \<Longrightarrow> framed (bind_io m f)"
  unfolding framed_def bind_io_def
  by (auto split: prod.splits res.splits) (metis R_trans snd_conv)+

lemma framed_then: "framed m \<Longrightarrow> framed k \<Longrightarrow> framed (then_io m k)"
  unfolding then_io_def by (rule framed_bind)

lemma framed_pure: "framed (ret x)" "framed (lift_res r)" "framed get_st"
  by (simp_all add: framed_def run_simps R_refl)

lemma framed_upd: "(\<And>w. wd_sys (f w) = wd_sys w) \<Longrightarrow> framed (\<lambda>w. (Ok (), f w))"
  by (simp add: framed_def R_refl)

lemma framed_when: "framed m \<Longrightarrow> framed (when_io b m)"
  by (simp add: when_io_def framed_pure)

lemma framed_context: "framed m \<Longrightarrow> framed (context_io c m)"
  by (simp add: framed_def)

lemma framed_log: "framed m \<Longrightarrow> framed (log_errors m)"
  by (simp add: framed_def snd_log_errors)

lemma framed_for: "(\<And>x. framed (body x)) \<Longrightarrow> framed (for_io xs body)"
  by (induction xs) (simp_all add: framed_pure framed_then)

lemma framed_do: "(\<And>s. R s (snd (m s))) \<Longrightarrow> framed (wd_do m)"
  by (simp add: framed_def wd_do_def zoom_def case_prod_beta)

lemma framed_calls: "framed (wd_do (now W))" "framed (wd_do (list_netns W))"
  "framed (wd_do (wireguard_stats W ns wg))" "framed (wd_event W e)" "framed (wd_do (send_traffic W ti))"
  unfolding wd_event_def by (intro framed_do R_now R_list R_stats R_event R_traffic)+

lemmas framed_intros = framed_bind framed_then framed_pure framed_upd framed_when framed_context
  framed_log framed_for framed_calls

lemma framed_check: "framed (check_handshake W peer)"
  unfolding check_handshake_def by (auto intro!: framed_intros split: option.splits)

lemma framed_status_events: "framed (connected_event W stats peer)" "framed (disconnected_event W stats k)"
  unfolding connected_event_def disconnected_event_def by (intro framed_intros)+

lemma framed_report: "framed (report_peer W stats previous peer)"
  unfolding report_peer_def
  by (intro framed_intros) (auto intro: framed_intros framed_status_events split: option.splits)

lemma framed_known: "framed (known_peer W stats previous peer)"
  unfolding known_peer_def add_traffic_def by (intro framed_intros framed_report) simp

lemma framed_peer: "framed (watchdog_peer W stats peer)"
  unfolding watchdog_peer_def cache_insert_def
  by (intro framed_intros framed_check) (auto intro: framed_known framed_when framed_status_events split: option.splits)

lemma framed_dead: "framed (then_io (cache_remove port k) (disconnected_event W stats k))"
  unfolding cache_remove_def by (intro framed_then framed_upd framed_status_events) simp

lemma framed_poll: "framed (poll_network W stats)"
  unfolding poll_network_def Let_def
  by (intro framed_then framed_upd framed_for framed_log framed_peer framed_bind framed_pure framed_dead) simp

lemma framed_netns: "framed (watchdog_netns W netns)"
  unfolding watchdog_netns_def Let_def
  by (simp add: framed_pure framed_bind framed_context framed_calls framed_poll)

lemma framed_run: "framed (watchdog_run W)"
  unfolding watchdog_run_def by (intro framed_intros framed_netns) simp

lemma watchdog_run_frame: "R (wd_sys w) (wd_sys (snd (watchdog_run W w)))"
  using framed_run by (simp add: framed_def)

end

end
