(* ===== verification/Watchdog_Events.thy ===== *)
theory Watchdog_Events
  imports Watchdog_Frame
begin

text \<open>
  The watchdog against its channels. The locale \<open>watchdog_system\<close> says what the functions rely on of
  the clock, the wrappers and the broadcast channels: a send succeeds exactly while somebody is
  subscribed, and nothing else writes to the channels.
\<close>

section \<open>The environment's laws\<close>

text \<open>
  \<open>events\<close> and \<open>sent\<close> are what has been sent on the two channels, \<open>listening\<close> and \<open>watching\<close> whether
  somebody is subscribed to events and to traffic.
\<close>

locale watchdog_system =
  fixes W :: "'s wd_env"
    and events :: "'s \<Rightarrow> gateway_event list"
    and sent :: "'s \<Rightarrow> traffic_info list"
    and listening :: "'s \<Rightarrow> bool"
    and watching :: "'s \<Rightarrow> bool"
  assumes law_now: "\<exists>t s'. now W s = (Ok t, s') \<and> 0 \<le> t \<and>
      events s' = events s \<and> sent s' = sent s \<and> listening s' = listening s \<and> watching s' = watching s"
    and law_stats: "\<exists>r s'. wireguard_stats W ns wg s = (r, s') \<and> r \<noteq> Panic \<and>
      events s' = events s \<and> sent s' = sent s \<and> listening s' = listening s \<and> watching s' = watching s"
    and law_list: "\<exists>r s'. list_netns W s = (r, s') \<and> r \<noteq> Panic \<and>
      events s' = events s \<and> sent s' = sent s \<and> listening s' = listening s \<and> watching s' = watching s"
    and law_event_Ok: "listening s \<Longrightarrow> \<exists>s'. send_event W e s = (Ok (), s') \<and>
      events s' = events s @ [e] \<and> sent s' = sent s \<and> listening s' \<and> watching s' = watching s"
    and law_event_Err: "\<not> listening s \<Longrightarrow> \<exists>x s'. send_event W e s = (Err x, s') \<and>
      events s' = events s \<and> sent s' = sent s \<and> \<not> listening s' \<and> watching s' = watching s"
    and law_traffic_Ok: "watching s \<Longrightarrow> \<exists>s'. send_traffic W ti s = (Ok (), s') \<and>
      events s' = events s \<and> sent s' = sent s @ [ti] \<and> listening s' = listening s \<and> watching s'"
    and law_traffic_Err: "\<not> watching s \<Longrightarrow> \<exists>x s'. send_traffic W ti s = (Err x, s') \<and>
      events s' = events s \<and> sent s' = sent s \<and> listening s' = listening s \<and> \<not> watching s'"

text \<open>
  What no run can do: subscribe or unsubscribe anybody, take back what was sent, or send anything on a
  channel without a subscriber.
\<close>

definition channel_frame ::
  "('s \<Rightarrow> 'e list) \<Rightarrow> ('s \<Rightarrow> 't list) \<Rightarrow> ('s \<Rightarrow> bool) \<Rightarrow> ('s \<Rightarrow> bool) \<Rightarrow> 's \<Rightarrow> 's \<Rightarrow> bool" where
  "channel_frame events sent listening watching s s' \<longleftrightarrow>
     listening s' = listening s \<and> watching s' = watching s \<and>
     (\<exists>es. events s' = events s @ es \<and> (es \<noteq> [] \<longrightarrow> listening s)) \<and>
     (\<exists>tis. sent s' = sent s @ tis \<and> (tis \<noteq> [] \<longrightarrow> watching s))"

sublocale watchdog_system \<subseteq> chan: watchdog_frame W "channel_frame events sent listening watching"
proof
  show "channel_frame events sent listening watching s s" for s by (simp add: channel_frame_def)
  show "channel_frame events sent listening watching s s'" if "channel_frame events sent listening watching s s1"
    and "channel_frame events sent listening watching s1 s'" for s s1 s'
    using that by (auto simp: channel_frame_def)
  show "channel_frame events sent listening watching s (snd (now W s))" for s
    using law_now [of s] by (auto simp: channel_frame_def)
  show "channel_frame events sent listening watching s (snd (list_netns W s))" for s
    using law_list [of s] by (auto simp: channel_frame_def)
  show "channel_frame events sent listening watching s (snd (wireguard_stats W ns wg s))" for ns wg s
    using law_stats [of ns wg s] by (auto simp: channel_frame_def)
  show "channel_frame events sent listening watching s (snd (send_event W e s))" for e s
    using law_event_Ok [of s e] law_event_Err [of s e] by (cases "listening s") (auto simp: channel_frame_def)
  show "channel_frame events sent listening watching s (snd (send_traffic W ti s))" for ti s
    using law_traffic_Ok [of s ti] law_traffic_Err [of s ti] by (cases "watching s") (auto simp: channel_frame_def)
qed

section \<open>What a poll of a peer sends\<close>

definition alive :: "peer_stats option \<Rightarrow> bool" where
  "alive c \<longleftrightarrow> (\<exists>p. c = Some p \<and> pst_latest_handshake p \<noteq> None)"

definition endpoint_events :: "pubkey \<Rightarrow> peer_stats option \<Rightarrow> peer_stats \<Rightarrow> gateway_event list" where
  "endpoint_events net previous peer = (case (previous, pst_endpoint peer) of
      (Some pr, Some ep) \<Rightarrow> if pst_endpoint pr \<noteq> Some ep
        then [Endpoint \<lparr>pe_network = net, pe_peer = pst_public_key peer, pe_endpoint = ep\<rparr>] else []
    | _ \<Rightarrow> [])"

definition status_events :: "pubkey \<Rightarrow> peer_stats option \<Rightarrow> peer_stats \<Rightarrow> gateway_event list" where
  "status_events net previous peer =
     (if alive (Some peer) \<and> \<not> alive previous
      then [PeerConnected \<lparr>pc_network = net, pc_peer = pst_public_key peer, pc_endpoint = the (pst_endpoint peer)\<rparr>]
      else if alive previous \<and> \<not> alive (Some peer)
      then [PeerDisconnected \<lparr>pd_network = net, pd_peer = pst_public_key peer\<rparr>]
      else [])"

text \<open>A peer that the code can report: a live one has an endpoint, as WireGuard learns both together.\<close>

definition reportable :: "peer_stats \<Rightarrow> bool" where
  "reportable peer \<longleftrightarrow> (pst_latest_handshake peer \<noteq> None \<longrightarrow> pst_endpoint peer \<noteq> None)"

text \<open>The events and the traffic of one poll of one peer, whether it was polled before or not.\<close>

definition poll_events :: "pubkey \<Rightarrow> peer_stats option \<Rightarrow> peer_stats \<Rightarrow> gateway_event list" where
  "poll_events net previous peer = endpoint_events net previous peer @ status_events net previous peer"

definition poll_traffic :: "profile \<Rightarrow> network_stats \<Rightarrow> peer_stats option \<Rightarrow> peer_stats \<Rightarrow> usize \<Rightarrow> traffic_info \<Rightarrow> traffic_info res" where
  "poll_traffic p stats previous peer time ti = (case previous of
      None \<Rightarrow> Ok ti
    | Some pr \<Rightarrow> record_traffic p (nst_public_key stats) pr peer time ti)"

context watchdog_system
begin

text \<open>\<open>emits m w es\<close>: the operation succeeds, sends exactly \<open>es\<close> and changes nothing else.\<close>

definition emits :: "('s wd, unit) io \<Rightarrow> 's wd \<Rightarrow> gateway_event list \<Rightarrow> bool" where
  "emits m w es \<longleftrightarrow> (\<exists>s'. m w = (Ok (), w\<lparr>wd_sys := s'\<rparr>) \<and>
     events s' = events (wd_sys w) @ es \<and> sent s' = sent (wd_sys w) \<and> listening s')"

lemma emits_ret: "listening (wd_sys w) \<Longrightarrow> emits (ret ()) w []"
  unfolding emits_def by (intro exI [of _ "wd_sys w"]) (simp add: run_simps)

lemma emits_event: "listening (wd_sys w) \<Longrightarrow> emits (wd_event W e) w [e]"
  using law_event_Ok [of "wd_sys w" e] by (auto simp: emits_def wd_event_def wd_do_def zoom_def)

lemma emits_then:
  assumes "emits m w es" and "\<And>s'. listening s' \<Longrightarrow> emits k (w\<lparr>wd_sys := s'\<rparr>) es'"
  shows "emits (then_io m k) w (es @ es')"
proof -
  obtain s1 where s1: "m w = (Ok (), w\<lparr>wd_sys := s1\<rparr>)" "events s1 = events (wd_sys w) @ es"
      "sent s1 = sent (wd_sys w)" "listening s1"
    using assms(1) by (auto simp: emits_def)
  obtain s2 where "k (w\<lparr>wd_sys := s1\<rparr>) = (Ok (), w\<lparr>wd_sys := s2\<rparr>)" "events s2 = events s1 @ es'"
      "sent s2 = sent s1" "listening s2"
    using assms(2) [OF s1(4)] by (auto simp: emits_def)
  with s1 show ?thesis by (auto simp: emits_def then_io_def bind_io_def)
qed

lemma run_event_Err:
  assumes "\<not> listening (wd_sys w)"
  shows "\<exists>x s'. wd_event W e w = (Err x, w\<lparr>wd_sys := s'\<rparr>) \<and>
     events s' = events (wd_sys w) \<and> sent s' = sent (wd_sys w) \<and> \<not> listening s'"
  using law_event_Err [OF assms, of e] by (auto simp: wd_event_def wd_do_def zoom_def)

lemma run_now:
  "\<exists>t s'. wd_do (now W) w = (Ok t, w\<lparr>wd_sys := s'\<rparr>) \<and> 0 \<le> t \<and>
     events s' = events (wd_sys w) \<and> sent s' = sent (wd_sys w) \<and> listening s' = listening (wd_sys w)"
  using law_now [of "wd_sys w"] by (auto simp: wd_do_def zoom_def)

lemma run_check_handshake:
  "\<exists>t s'. check_handshake W peer w =
       (Ok (peer\<lparr>pst_latest_handshake := expire_handshake t (pst_latest_handshake peer)\<rparr>), w\<lparr>wd_sys := s'\<rparr>) \<and>
     events s' = events (wd_sys w) \<and> sent s' = sent (wd_sys w) \<and> listening s' = listening (wd_sys w)"
proof (cases "pst_latest_handshake peer")
  case None
  then have "peer\<lparr>pst_latest_handshake := expire_handshake 0 (pst_latest_handshake peer)\<rparr> = peer"
    by (cases peer) (simp add: expire_handshake_def)
  with None show ?thesis
    by (intro exI [of _ 0] exI [of _ "wd_sys w"]) (simp add: check_handshake_def run_simps)
next
  case (Some h)
  obtain t s' where "wd_do (now W) w = (Ok t, w\<lparr>wd_sys := s'\<rparr>)"
     "events s' = events (wd_sys w)" "sent s' = sent (wd_sys w)" "listening s' = listening (wd_sys w)"
    using run_now by blast
  with Some show ?thesis
    by (intro exI [of _ t] exI [of _ s']) (simp add: check_handshake_def bind_io_def run_simps)
qed

text \<open>The events of a poll, part by part.\<close>

lemma emits_connected:
  assumes "listening (wd_sys w)" and "pst_endpoint peer = Some ep"
  shows "emits (connected_event W stats peer) w [PeerConnected \<lparr>pc_network = nst_public_key stats,
     pc_peer = pst_public_key peer, pc_endpoint = ep\<rparr>]"
proof -
  have "connected_event W stats peer = wd_event W (PeerConnected \<lparr>pc_network = nst_public_key stats,
     pc_peer = pst_public_key peer, pc_endpoint = ep\<rparr>)"
    by (simp add: fun_eq_iff connected_event_def assms(2) bind_io_def run_simps)
  then show ?thesis using emits_event [OF assms(1)] by simp
qed

lemma emits_status:
  assumes "listening (wd_sys w)" and "reportable peer"
  shows "emits (case (pst_latest_handshake previous, pst_latest_handshake peer) of
        (Some _, None) \<Rightarrow> disconnected_event W stats (pst_public_key peer)
      | (None, Some _) \<Rightarrow> connected_event W stats peer
      | _ \<Rightarrow> ret ()) w (status_events (nst_public_key stats) (Some previous) peer)"
proof (cases "pst_latest_handshake peer")
  case None
  then show ?thesis
    using assms(1) by (cases "pst_latest_handshake previous")
      (simp_all add: status_events_def alive_def emits_ret emits_event disconnected_event_def)
next
  case (Some h)
  then obtain ep where "pst_endpoint peer = Some ep" using assms(2) by (auto simp: reportable_def)
  then show ?thesis
    using assms(1) Some by (cases "pst_latest_handshake previous")
      (simp_all add: status_events_def alive_def emits_ret emits_connected)
qed

lemma emits_endpoint:
  assumes "listening (wd_sys w)"
  shows "emits (when_io (pst_endpoint peer \<noteq> pst_endpoint previous)
        (case pst_endpoint peer of
           Some endpoint \<Rightarrow> wd_event W (Endpoint \<lparr>pe_network = nst_public_key stats,
             pe_peer = pst_public_key peer, pe_endpoint = endpoint\<rparr>)
         | None \<Rightarrow> ret ())) w (endpoint_events (nst_public_key stats) (Some previous) peer)"
  using assms
  by (cases "pst_endpoint peer"; cases "pst_endpoint previous = pst_endpoint peer")
    (simp_all add: endpoint_events_def when_io_def emits_ret emits_event)

lemma run_add_traffic:
  "f (wd_traffic w) = Ok ti \<Longrightarrow> add_traffic f w = (Ok (), w\<lparr>wd_traffic := ti\<rparr>)"
  by (simp add: add_traffic_def bind_io_def run_simps)

lemma emits_report:
  assumes "listening (wd_sys w)" and "reportable peer"
  shows "emits (report_peer W stats previous peer) w
     (endpoint_events (nst_public_key stats) (Some previous) peer @
      status_events (nst_public_key stats) (Some previous) peer)"
  unfolding report_peer_def using assms by (intro emits_then emits_endpoint emits_status) simp_all

lemma run_known_peer:
  assumes "listening (wd_sys w)" and "reportable peer"
    and rec: "\<And>time. \<exists>ti. record_traffic (wd_prof W) (nst_public_key stats) previous peer time (wd_traffic w) = Ok ti"
  shows "\<exists>s' time ti. known_peer W stats previous peer w = (Ok (), w\<lparr>wd_traffic := ti, wd_sys := s'\<rparr>) \<and>
     record_traffic (wd_prof W) (nst_public_key stats) previous peer time (wd_traffic w) = Ok ti \<and>
     events s' = events (wd_sys w) @ poll_events (nst_public_key stats) (Some previous) peer \<and>
     sent s' = sent (wd_sys w) \<and> listening s'"
proof -
  obtain t s1 where s1: "wd_do (now W) w = (Ok t, w\<lparr>wd_sys := s1\<rparr>)" "0 \<le> t"
      "events s1 = events (wd_sys w)" "sent s1 = sent (wd_sys w)" "listening s1"
    using run_now [of w] assms(1) by auto
  obtain time where time: "unix_time t = Ok time" using s1(2) by (simp add: unix_time_def duration_since_def)
  obtain ti where ti: "record_traffic (wd_prof W) (nst_public_key stats) previous peer time (wd_traffic w) = Ok ti"
    using rec by blast
  obtain s2 where s2: "report_peer W stats previous peer (w\<lparr>wd_sys := s1, wd_traffic := ti\<rparr>) =
        (Ok (), w\<lparr>wd_traffic := ti, wd_sys := s2\<rparr>)"
      "events s2 = events (wd_sys w) @ poll_events (nst_public_key stats) (Some previous) peer"
      "sent s2 = sent (wd_sys w)" "listening s2"
    using emits_report [of "w\<lparr>wd_sys := s1, wd_traffic := ti\<rparr>" peer stats previous] s1 assms(2)
    by (auto simp: emits_def poll_events_def)
  have "known_peer W stats previous peer w = (Ok (), w\<lparr>wd_traffic := ti, wd_sys := s2\<rparr>)"
    using s1(1) s2(1) time ti
    by (simp add: known_peer_def add_traffic_def then_io_def bind_io_def run_simps)
  then show ?thesis using s2 ti by auto
qed

lemma run_watchdog_peer:
  fixes w :: "'s wd" and stats :: network_stats and peer :: peer_stats
  assumes l: "listening (wd_sys w)" and r: "reportable peer" and rel: "wd_prof W = Release"
  defines "port \<equiv> nst_listen_port stats"
  defines "previous \<equiv> bt_get (net_cache_of port w) (pst_public_key peer)"
  shows "\<exists>s' t time ti. let peer' = peer\<lparr>pst_latest_handshake := expire_handshake t (pst_latest_handshake peer)\<rparr> in
     watchdog_peer W stats peer w = (Ok (), w\<lparr>wd_traffic := ti,
       wd_cache := bt_insert port (bt_insert (pst_public_key peer) peer' (net_cache_of port w)) (wd_cache w),
       wd_sys := s'\<rparr>) \<and>
     poll_traffic Release stats previous peer' time (wd_traffic w) = Ok ti \<and>
     events s' = events (wd_sys w) @ poll_events (nst_public_key stats) previous peer' \<and>
     sent s' = sent (wd_sys w) \<and> listening s'"
proof -
  obtain t s1 where s1: "check_handshake W peer w =
       (Ok (peer\<lparr>pst_latest_handshake := expire_handshake t (pst_latest_handshake peer)\<rparr>), w\<lparr>wd_sys := s1\<rparr>)"
     "events s1 = events (wd_sys w)" "sent s1 = sent (wd_sys w)" "listening s1"
    using run_check_handshake [of peer w] l by auto
  define peer' where "peer' = peer\<lparr>pst_latest_handshake := expire_handshake t (pst_latest_handshake peer)\<rparr>"
  have pk: "pst_public_key peer' = pst_public_key peer" by (simp add: peer'_def)
  have r': "reportable peer'"
    using r by (auto simp: reportable_def peer'_def expire_handshake_def split: option.splits)
  have nc: "net_cache_of port (w\<lparr>wd_sys := s, wd_traffic := ti\<rparr>) = net_cache_of port w"
    "net_cache_of port (w\<lparr>wd_sys := s\<rparr>) = net_cache_of port w"
    "net_cache_of port (w\<lparr>wd_traffic := ti, wd_sys := s\<rparr>) = net_cache_of port w" for s ti
    by (simp_all add: net_cache_of_def)
  have "\<exists>s' time ti. (case previous of
         Some previous \<Rightarrow> known_peer W stats previous peer'
       | None \<Rightarrow> when_io (pst_latest_handshake peer' \<noteq> None) (connected_event W stats peer')) (w\<lparr>wd_sys := s1\<rparr>) =
       (Ok (), w\<lparr>wd_traffic := ti, wd_sys := s'\<rparr>) \<and>
     poll_traffic Release stats previous peer' time (wd_traffic w) = Ok ti \<and>
     events s' = events (wd_sys w) @ poll_events (nst_public_key stats) previous peer' \<and>
     sent s' = sent (wd_sys w) \<and> listening s'"
  proof (cases previous)
    case None
    have "emits (when_io (pst_latest_handshake peer' \<noteq> None) (connected_event W stats peer')) (w\<lparr>wd_sys := s1\<rparr>)
        (poll_events (nst_public_key stats) None peer')"
      using r' s1(4) emits_connected [of "w\<lparr>wd_sys := s1\<rparr>" peer' _ stats]
      by (auto simp: when_io_def poll_events_def endpoint_events_def status_events_def alive_def
          reportable_def intro: emits_ret)
    with None s1 show ?thesis by (force simp: emits_def poll_traffic_def)
  next
    case (Some pr)
    have "\<exists>ti. record_traffic (wd_prof W) (nst_public_key stats) pr peer' time (wd_traffic w) = Ok ti" for time
      unfolding rel using traffic_info_add_Release
      by (auto simp: record_traffic_def traffic_difference_def)
    with Some show ?thesis
      using run_known_peer [of "w\<lparr>wd_sys := s1\<rparr>" peer' stats pr] r' s1
      by (auto simp: poll_traffic_def rel)
  qed
  then obtain s2 time ti where s2: "(case previous of
         Some previous \<Rightarrow> known_peer W stats previous peer'
       | None \<Rightarrow> when_io (pst_latest_handshake peer' \<noteq> None) (connected_event W stats peer')) (w\<lparr>wd_sys := s1\<rparr>) =
       (Ok (), w\<lparr>wd_traffic := ti, wd_sys := s2\<rparr>)"
     "poll_traffic Release stats previous peer' time (wd_traffic w) = Ok ti"
     "events s2 = events (wd_sys w) @ poll_events (nst_public_key stats) previous peer'"
     "sent s2 = sent (wd_sys w)" "listening s2"
    by blast
  have "watchdog_peer W stats peer w = (Ok (), w\<lparr>wd_traffic := ti,
       wd_cache := bt_insert port (bt_insert (pst_public_key peer) peer' (net_cache_of port w)) (wd_cache w),
       wd_sys := s2\<rparr>)"
    using s1(1) s2(1)
    by (simp add: watchdog_peer_def bind_io_def then_io_def run_simps cache_insert_def nc pk
        port_def [symmetric] previous_def [symmetric] peer'_def [symmetric])
  with s2 show ?thesis unfolding Let_def peer'_def by blast
qed

end

end
