(* ===== verification/Watchdog_Sync.thy ===== *)
theory Watchdog_Sync
  imports Watchdog_Events
begin

text \<open>
  What the manager learns: replaying the connected and disconnected events sent so far gives, for
  every network and peer, exactly the peers whose cached handshake is alive, and every run sends one
  traffic report.
\<close>

section \<open>The status a subscriber derives\<close>

definition upd_status :: "pubkey \<Rightarrow> pubkey \<Rightarrow> bool \<Rightarrow> gateway_event \<Rightarrow> bool" where
  "upd_status net d st e = (case e of
      PeerConnected c \<Rightarrow> if pc_network c = net \<and> pc_peer c = d then True else st
    | PeerDisconnected c \<Rightarrow> if pd_network c = net \<and> pd_peer c = d then False else st
    | Endpoint _ \<Rightarrow> st)"

definition status :: "gateway_event list \<Rightarrow> pubkey \<Rightarrow> pubkey \<Rightarrow> bool" where
  "status log net d = foldl (upd_status net d) False log"

lemma status_append: "status (log @ es) net d = foldl (upd_status net d) (status log net d) es"
  by (simp add: status_def)

lemma status_Nil [simp]: "\<not> status [] net d"
  by (simp add: status_def)

lemma status_poll:
  assumes "status log net (pst_public_key peer) = alive previous"
  shows "status (log @ poll_events net previous peer) net' d =
     (if net' = net \<and> d = pst_public_key peer then alive (Some peer) else status log net' d)"
  using assms
  by (auto simp: status_append poll_events_def endpoint_events_def status_events_def upd_status_def
      split: option.splits)

lemma status_disconnect:
  "status (log @ [PeerDisconnected \<lparr>pd_network = net, pd_peer = k\<rparr>]) net' d =
     (if net' = net \<and> d = k then False else status log net' d)"
  by (simp add: status_append upd_status_def)

text \<open>\<open>netkey\<close> gives each port the public key of the network behind it.\<close>

definition in_sync :: "(u16 \<Rightarrow> pubkey) \<Rightarrow> gateway_event list \<Rightarrow> peer_cache \<Rightarrow> bool" where
  "in_sync netkey log cache \<longleftrightarrow>
     (\<forall>port d. status log (netkey port) d = alive (bt_get (bt_or cache port bt_empty) d))"

lemma in_sync_start: "in_sync netkey [] bt_empty"
  by (simp add: in_sync_def alive_def bt_or_def)

lemma bt_or_insert: "bt_or (bt_insert k v m) k' d = (if k' = k then v else bt_or m k' d)"
  by (simp add: bt_or_def)

lemma in_sync_poll:
  assumes "in_sync netkey log cache" and "inj netkey" and "pst_public_key peer' = pst_public_key peer"
  shows "in_sync netkey (log @ poll_events (netkey port) (bt_get (bt_or cache port bt_empty) (pst_public_key peer)) peer')
     (bt_insert port (bt_insert (pst_public_key peer) peer' (bt_or cache port bt_empty)) cache)"
  using assms status_poll [of log "netkey port" peer' "bt_get (bt_or cache port bt_empty) (pst_public_key peer)"]
  by (auto simp: in_sync_def bt_or_insert dest: injD)

lemma in_sync_dead:
  assumes "in_sync netkey log cache" and "inj netkey"
  shows "in_sync netkey (log @ [PeerDisconnected \<lparr>pd_network = netkey port, pd_peer = k\<rparr>])
     (bt_insert port (bt_remove k (bt_or cache port bt_empty)) cache)"
  using assms by (auto simp: in_sync_def bt_or_insert status_disconnect alive_def dest: injD)

section \<open>Runs with a subscriber\<close>

locale attended_watchdog = watchdog_system W events sent listening watching
  for W :: "'s wd_env" and events :: "'s \<Rightarrow> gateway_event list" and sent :: "'s \<Rightarrow> traffic_info list"
    and listening :: "'s \<Rightarrow> bool" and watching :: "'s \<Rightarrow> bool" +
  fixes netkey :: "u16 \<Rightarrow> pubkey"
  assumes release: "wd_prof W = Release"
    and netkey_inj: "inj netkey"
    and stats_key: "wireguard_stats W ns wg s = (Ok stats, s') \<Longrightarrow> nst_public_key stats = netkey (nst_listen_port stats)"
    and stats_reportable: "wireguard_stats W ns wg s = (Ok stats, s') \<Longrightarrow> peer \<in> set (nst_peers stats) \<Longrightarrow> reportable peer"
begin

text \<open>Somebody is subscribed to both channels, and the events sent after \<open>older\<close> agree with the cache.\<close>

definition synced :: "gateway_event list \<Rightarrow> 's wd \<Rightarrow> bool" where
  "synced older w \<longleftrightarrow> listening (wd_sys w) \<and> watching (wd_sys w) \<and>
     (\<exists>log. events (wd_sys w) = older @ log \<and> in_sync netkey log (wd_cache w))"

text \<open>\<open>keeps_sync m\<close>: from a synchronised state the operation returns, synchronised, without a report.\<close>

definition keeps_sync :: "('s wd, unit) io \<Rightarrow> bool" where
  "keeps_sync m \<longleftrightarrow> (\<forall>older w. synced older w \<longrightarrow>
     (\<exists>w'. m w = (Ok (), w') \<and> synced older w' \<and> sent (wd_sys w') = sent (wd_sys w)))"

lemma keeps_sync_then: "keeps_sync m \<Longrightarrow> keeps_sync k \<Longrightarrow> keeps_sync (then_io m k)"
  by (fastforce simp: keeps_sync_def then_io_def bind_io_def)

lemma keeps_sync_ret: "keeps_sync (ret ())"
  by (simp add: keeps_sync_def run_simps)

lemma keeps_sync_for: "(\<And>x. x \<in> set xs \<Longrightarrow> keeps_sync (body x)) \<Longrightarrow> keeps_sync (for_io xs body)"
  by (induction xs) (simp_all add: keeps_sync_ret keeps_sync_then)

lemma keeps_sync_get:
  "(\<And>w. keeps_sync (f w)) \<Longrightarrow> keeps_sync (bind_io get_st f)"
  by (simp add: keeps_sync_def bind_io_def run_simps)

lemma keeps_sync_log: "keeps_sync m \<Longrightarrow> keeps_sync (log_errors m)"
  by (fastforce simp: keeps_sync_def log_errors_def)

lemma watchdog_peer_keeps_sync:
  assumes "reportable peer" and "nst_public_key stats = netkey (nst_listen_port stats)"
  shows "keeps_sync (watchdog_peer W stats peer)"
  unfolding keeps_sync_def
proof (intro allI impI)
  fix older w assume s: "synced older w"
  let ?port = "nst_listen_port stats"
  let ?prev = "bt_get (net_cache_of ?port w) (pst_public_key peer)"
  obtain log where log: "events (wd_sys w) = older @ log" "in_sync netkey log (wd_cache w)"
    using s by (auto simp: synced_def)
  obtain s' t ti where r: "watchdog_peer W stats peer w = (Ok (), w\<lparr>wd_traffic := ti,
       wd_cache := bt_insert ?port (bt_insert (pst_public_key peer)
         (peer\<lparr>pst_latest_handshake := expire_handshake t (pst_latest_handshake peer)\<rparr>) (net_cache_of ?port w)) (wd_cache w),
       wd_sys := s'\<rparr>)"
     "events s' = events (wd_sys w) @ poll_events (nst_public_key stats) ?prev
       (peer\<lparr>pst_latest_handshake := expire_handshake t (pst_latest_handshake peer)\<rparr>)"
     "sent s' = sent (wd_sys w)" "listening s'"
    using run_watchdog_peer [OF _ assms(1) release, of w stats] s by (auto simp: synced_def Let_def)
  have "in_sync netkey (log @ poll_events (netkey ?port) ?prev
       (peer\<lparr>pst_latest_handshake := expire_handshake t (pst_latest_handshake peer)\<rparr>))
     (bt_insert ?port (bt_insert (pst_public_key peer)
         (peer\<lparr>pst_latest_handshake := expire_handshake t (pst_latest_handshake peer)\<rparr>) (net_cache_of ?port w)) (wd_cache w))"
    using in_sync_poll [OF log(2) netkey_inj,
        of "peer\<lparr>pst_latest_handshake := expire_handshake t (pst_latest_handshake peer)\<rparr>" peer ?port]
    by (simp add: net_cache_of_def)
  moreover have "watching s'"
    using chan.framedD [OF chan.framed_peer r(1)] s by (simp add: channel_frame_def synced_def)
  ultimately show "\<exists>w'. watchdog_peer W stats peer w = (Ok (), w') \<and> synced older w' \<and> sent (wd_sys w') = sent (wd_sys w)"
    using r log(1) assms(2) by (simp add: synced_def)
qed

lemma dead_peer_keeps_sync:
  assumes "nst_public_key stats = netkey (nst_listen_port stats)"
  shows "keeps_sync (then_io (cache_remove (nst_listen_port stats) k) (disconnected_event W stats k))"
  unfolding keeps_sync_def
proof (intro allI impI)
  fix older w assume s: "synced older w"
  let ?port = "nst_listen_port stats"
  let ?w = "w\<lparr>wd_cache := bt_insert ?port (bt_remove k (net_cache_of ?port w)) (wd_cache w)\<rparr>"
  obtain log where log: "events (wd_sys w) = older @ log" "in_sync netkey log (wd_cache w)"
    using s by (auto simp: synced_def)
  obtain s' where s': "disconnected_event W stats k ?w = (Ok (), ?w\<lparr>wd_sys := s'\<rparr>)"
      "events s' = events (wd_sys w) @ [PeerDisconnected \<lparr>pd_network = netkey ?port, pd_peer = k\<rparr>]"
      "sent s' = sent (wd_sys w)" "listening s'"
    using emits_event [of ?w "PeerDisconnected \<lparr>pd_network = netkey ?port, pd_peer = k\<rparr>"] s
    by (auto simp: emits_def disconnected_event_def synced_def assms)
  have "in_sync netkey (log @ [PeerDisconnected \<lparr>pd_network = netkey ?port, pd_peer = k\<rparr>])
      (bt_insert ?port (bt_remove k (net_cache_of ?port w)) (wd_cache w))"
    using in_sync_dead [OF log(2) netkey_inj, of ?port k] by (simp add: net_cache_of_def)
  moreover have "watching s'"
    using chan.framedD [OF chan.framed_status_events(2) s'(1)] s by (simp add: channel_frame_def synced_def)
  ultimately show "\<exists>w'. then_io (cache_remove ?port k) (disconnected_event W stats k) w = (Ok (), w') \<and>
      synced older w' \<and> sent (wd_sys w') = sent (wd_sys w)"
    using s' log(1) by (simp add: then_io_def bind_io_def cache_remove_def synced_def)
qed

lemma cache_entry_keeps_sync:
  "keeps_sync (\<lambda>w. (Ok (), w\<lparr>wd_cache := bt_insert port (net_cache_of port w) (wd_cache w)\<rparr>))"
  by (auto simp: keeps_sync_def synced_def in_sync_def net_cache_of_def bt_or_insert)

lemma poll_network_keeps_sync:
  assumes "nst_public_key stats = netkey (nst_listen_port stats)"
    and "\<forall>peer \<in> set (nst_peers stats). reportable peer"
  shows "keeps_sync (poll_network W stats)"
  unfolding poll_network_def Let_def using assms
  by (intro keeps_sync_then keeps_sync_for keeps_sync_get cache_entry_keeps_sync keeps_sync_log
      watchdog_peer_keeps_sync dead_peer_keeps_sync) auto

lemma watchdog_netns_keeps_sync:
  assumes "8 \<le> length netns"
  shows "keeps_sync (log_errors (watchdog_netns W netns))"
  unfolding keeps_sync_def
proof (intro allI impI)
  fix older w assume s: "synced older w"
  let ?wg = "''wg'' @ drop 8 netns"
  obtain r s1 where r: "wireguard_stats W netns ?wg (wd_sys w) = (r, s1)" "r \<noteq> Panic"
     "events s1 = events (wd_sys w)" "sent s1 = sent (wd_sys w)" "listening s1 = listening (wd_sys w)"
     "watching s1 = watching (wd_sys w)"
    using law_stats [of netns ?wg "wd_sys w"] by blast
  have s1: "synced older (w\<lparr>wd_sys := s1\<rparr>)" using s r by (simp add: synced_def)
  have run: "watchdog_netns W netns w = (case r of
      Ok stats \<Rightarrow> poll_network W stats (w\<lparr>wd_sys := s1\<rparr>)
    | Err x \<Rightarrow> (Err (Context ''Fetching wireguard stats'' x), w\<lparr>wd_sys := s1\<rparr>)
    | Panic \<Rightarrow> (Panic, w\<lparr>wd_sys := s1\<rparr>))"
    using r(1) assms
    by (simp add: watchdog_netns_def Let_def bind_io_def context_io_def wd_do_def zoom_def split: res.splits)
  show "\<exists>w'. log_errors (watchdog_netns W netns) w = (Ok (), w') \<and> synced older w' \<and> sent (wd_sys w') = sent (wd_sys w)"
  proof (cases r)
    case (Err x)
    then show ?thesis using r s1 by (simp add: log_errors_def run)
  next
    case (Ok stats)
    have "keeps_sync (poll_network W stats)"
      using r(1) Ok stats_key stats_reportable by (intro poll_network_keeps_sync) blast+
    with s1 obtain w' where "poll_network W stats (w\<lparr>wd_sys := s1\<rparr>) = (Ok (), w')" "synced older w'"
        "sent (wd_sys w') = sent s1"
      unfolding keeps_sync_def by fastforce
    then show ?thesis using r Ok by (simp add: log_errors_def run)
  qed (use r in simp)
qed

lemma prefix_length: "starts_with NETNS_PREFIX s \<Longrightarrow> 8 \<le> length s"
  by (auto simp: starts_with_iff NETNS_PREFIX_def)

lemma watchdog_run_synced:
  assumes s: "synced older w" and l: "\<exists>items s'. list_netns W (wd_sys w) = (Ok items, s')"
  shows "\<exists>w' ti. watchdog_run W w = (Ok (), w') \<and> synced older w' \<and> sent (wd_sys w') = sent (wd_sys w) @ [ti]"
proof -
  obtain items s1 where i: "list_netns W (wd_sys w) = (Ok items, s1)"
     "events s1 = events (wd_sys w)" "sent s1 = sent (wd_sys w)" "listening s1" "watching s1"
    using l law_list [of "wd_sys w"] s by (auto simp: synced_def)
  let ?w = "w\<lparr>wd_sys := s1, wd_traffic := traffic_info_new 0\<rparr>"
  have "keeps_sync (for_io items (\<lambda>netns. when_io (starts_with NETNS_PREFIX (netns_item_name netns))
          (log_errors (watchdog_netns W (netns_item_name netns)))))"
    by (rule keeps_sync_for)
      (auto simp: when_io_def keeps_sync_ret intro: watchdog_netns_keeps_sync prefix_length)
  moreover have "synced older ?w" using s i by (simp add: synced_def)
  ultimately obtain w2 where w2: "for_io items (\<lambda>netns. when_io (starts_with NETNS_PREFIX (netns_item_name netns))
          (log_errors (watchdog_netns W (netns_item_name netns)))) ?w = (Ok (), w2)"
      "synced older w2" "sent (wd_sys w2) = sent (wd_sys w)"
    using i(3) unfolding keeps_sync_def by fastforce
  obtain s3 where s3: "send_traffic W (wd_traffic w2) (wd_sys w2) = (Ok (), s3)"
      "events s3 = events (wd_sys w2)" "sent s3 = sent (wd_sys w2) @ [wd_traffic w2]" "listening s3" "watching s3"
    using law_traffic_Ok [of "wd_sys w2" "wd_traffic w2"] w2(2) by (auto simp: synced_def)
  have "watchdog_run W w = (Ok (), w2\<lparr>wd_sys := s3\<rparr>)"
    using i(1) w2(1) s3(1)
    by (simp add: watchdog_run_def then_io_def bind_io_def context_io_def wd_do_def zoom_def run_simps)
  moreover have "synced older (w2\<lparr>wd_sys := s3\<rparr>)" using w2(2) s3 by (simp add: synced_def)
  ultimately show ?thesis using s3 w2(3) by auto
qed

lemma watchdog_ticks_synced:
  assumes "\<And>s. \<exists>items s'. list_netns W s = (Ok items, s')" and "synced older w"
  shows "\<exists>w' tis. watchdog_ticks W n w = (Ok (), w') \<and> synced older w' \<and>
     sent (wd_sys w') = sent (wd_sys w) @ tis \<and> length tis = n"
  using assms(2)
proof (induction n arbitrary: w)
  case 0
  then show ?case by (simp add: run_simps)
next
  case (Suc n)
  obtain w1 ti where w1: "watchdog_run W w = (Ok (), w1)" "synced older w1" "sent (wd_sys w1) = sent (wd_sys w) @ [ti]"
    using watchdog_run_synced [OF Suc.prems assms(1)] by blast
  obtain w2 tis where "watchdog_ticks W n w1 = (Ok (), w2)" "synced older w2" "sent (wd_sys w2) = sent (wd_sys w1) @ tis"
      "length tis = n"
    using Suc.IH [OF w1(2)] by blast
  with w1 show ?case by (intro exI [of _ w2] exI [of _ "ti # tis"]) (simp add: then_io_def bind_io_def)
qed

end

section \<open>Runs without a subscriber\<close>

context watchdog_system
begin

text \<open>
  Without a subscriber to the traffic channel a run fails at the latest when it sends its report, and it
  sends nothing on a channel nobody is subscribed to.
\<close>

lemma watchdog_run_channels:
  assumes "watchdog_run W w = (r, w')"
  shows "listening (wd_sys w') = listening (wd_sys w)" "watching (wd_sys w') = watching (wd_sys w)"
    "\<exists>es. events (wd_sys w') = events (wd_sys w) @ es \<and> (es \<noteq> [] \<longrightarrow> listening (wd_sys w))"
    "\<exists>tis. sent (wd_sys w') = sent (wd_sys w) @ tis \<and> (tis \<noteq> [] \<longrightarrow> watching (wd_sys w))"
  using chan.watchdog_run_frame [of w] assms by (auto simp: channel_frame_def)

lemma watchdog_run_unattended:
  assumes "\<not> watching (wd_sys w)"
  shows "fst (watchdog_run W w) \<noteq> Ok ()"
proof
  let ?each = "\<lambda>netns. when_io (starts_with NETNS_PREFIX (netns_item_name netns))
    (log_errors (watchdog_netns W (netns_item_name netns)))"
  assume "fst (watchdog_run W w) = Ok ()"
  then obtain w' where "watchdog_run W w = (Ok (), w')" by (cases "watchdog_run W w") simp
  then obtain items w1 w2 s3 where
      1: "context_io ''Listing network namespaces'' (wd_do (list_netns W)) w = (Ok items, w1)"
    and 2: "for_io items ?each (w1\<lparr>wd_traffic := traffic_info_new 0\<rparr>) = (Ok (), w2)"
    and 3: "send_traffic W (wd_traffic w2) (wd_sys w2) = (Ok (), s3)"
    by (auto simp: watchdog_run_def then_io_def bind_io_def run_simps wd_do_def zoom_def
        split: prod.splits res.splits)
  have "chan.framed (context_io ''Listing network namespaces'' (wd_do (list_netns W)))"
    by (intro chan.framed_intros)
  from chan.framedD [OF this 1] have "\<not> watching (wd_sys w1)" using assms by (simp add: channel_frame_def)
  moreover have framed: "chan.framed (for_io items ?each)" by (intro chan.framed_intros chan.framed_netns)
  ultimately have "\<not> watching (wd_sys w2)" using chan.framedD [OF framed 2] by (simp add: channel_frame_def)
  with law_traffic_Err [of "wd_sys w2" "wd_traffic w2"] 3 show False by auto
qed

end

end
