(* ===== verification/Watchdog_Task.thy ===== *)
theory Watchdog_Task
  imports Watchdog_Sync
begin

text \<open>
  The watchdog as a task that runs beside the rest of the program (\<open>Global::watchdog\<close>): its runs are
  interleaved with changes of the world (time, statistics, subscribers that come and go), and a failed
  run restarts it with an empty cache. In every reachable state the events sent since the last restart
  agree with the cache, and the task never ends.
\<close>

section \<open>Steps\<close>

text \<open>
  A state of the task is the watchdog's state together with a history variable: the number of events that
  had been sent when the watchdog was last started.
\<close>

inductive task_step ::
    "'s wd_env \<Rightarrow> ('s \<Rightarrow> gateway_event list) \<Rightarrow> ('s \<Rightarrow> 's \<Rightarrow> bool) \<Rightarrow> nat \<times> 's wd \<Rightarrow> nat \<times> 's wd \<Rightarrow> bool"
  for W :: "'s wd_env" and events :: "'s \<Rightarrow> gateway_event list" and world :: "'s \<Rightarrow> 's \<Rightarrow> bool" where
  run: "watchdog_run W w = (Ok (), w') \<Longrightarrow> task_step W events world (mark, w) (mark, w')"
| restart: "watchdog_run W w = (Err e, w') \<Longrightarrow>
    task_step W events world (mark, w) (length (events (wd_sys w')), w'\<lparr>wd_cache := bt_empty\<rparr>)"
| other: "world (wd_sys w) s' \<Longrightarrow> task_step W events world (mark, w) (mark, w\<lparr>wd_sys := s'\<rparr>)"

inductive_cases task_stepE: "task_step W events world (mark, w) (mark', w')"

text \<open>The steps of the task that are its own are those of \<open>task_run\<close>.\<close>

lemma task_run_step:
  "task_run W w = (Ok (), w') \<Longrightarrow> \<exists>mark'. task_step W events world (mark, w) (mark', w')"
  by (auto simp: task_run_def split: prod.splits res.splits intro: task_step.intros)

section \<open>No panics\<close>

definition calm :: "('s, 'a) io \<Rightarrow> bool" where
  "calm m \<longleftrightarrow> (\<forall>s s'. m s \<noteq> (Panic, s'))"

lemma calm_bind: "calm m \<Longrightarrow> (\<And>s x s'. m s = (Ok x, s') \<Longrightarrow> calm (f x)) \<Longrightarrow> calm (bind_io m f)"
  unfolding calm_def bind_io_def by (auto split: prod.splits res.splits)

lemma calm_then: "calm m \<Longrightarrow> calm k \<Longrightarrow> calm (then_io m k)"
  unfolding then_io_def by (rule calm_bind)

lemma calm_pure: "calm (ret x)" "calm get_st" "calm (\<lambda>s. (Ok y, f s))"
  by (simp_all add: calm_def run_simps)

lemma calm_lift: "r \<noteq> Panic \<Longrightarrow> calm (lift_res r)"
  by (simp add: calm_def run_simps)

lemma calm_when: "(b \<Longrightarrow> calm m) \<Longrightarrow> calm (when_io b m)"
  by (simp add: when_io_def calm_pure)

lemma calm_context: "calm m \<Longrightarrow> calm (context_io c m)" for m :: "('a, 'b) io"
proof -
  have "r = Panic" if "context_res c r = Panic" for r :: "'b res" using that by (cases r) simp_all
  then show "calm m \<Longrightarrow> calm (context_io c m)" by (force simp: calm_def context_io_def prod_eq_iff)
qed

lemma calm_log: "calm m \<Longrightarrow> calm (log_errors m)"
  unfolding calm_def log_errors_def by (auto split: prod.splits res.splits)

lemma calm_for: "(\<And>x. x \<in> set xs \<Longrightarrow> calm (body x)) \<Longrightarrow> calm (for_io xs body)"
  by (induction xs) (simp_all add: calm_pure calm_then)

lemma calm_do: "(\<And>s. \<exists>r s'. m s = (r, s') \<and> r \<noteq> Panic) \<Longrightarrow> calm (wd_do m)"
  by (auto simp: calm_def wd_do_def zoom_def split: prod.splits) (metis prod.inject)

lemmas calm_intros = calm_bind calm_then calm_pure calm_lift calm_when calm_context calm_log calm_for

context attended_watchdog
begin

lemma calm_event: "calm (wd_event W e)"
  unfolding wd_event_def
proof (rule calm_do)
  show "\<exists>r s'. send_event W e s = (r, s') \<and> r \<noteq> Panic" for s
    using law_event_Ok [of s e] law_event_Err [of s e] by (cases "listening s") auto
qed

lemma calm_connected: "pst_endpoint peer \<noteq> None \<Longrightarrow> calm (connected_event W stats peer)"
  unfolding connected_event_def by (auto intro!: calm_intros calm_event)

lemma calm_disconnected: "calm (disconnected_event W stats k)"
  unfolding disconnected_event_def by (rule calm_event)

lemma calm_now: "calm (wd_do (now W))"
  by (rule calm_do) (use law_now in blast)

lemma calm_report: "reportable peer \<Longrightarrow> calm (report_peer W stats previous peer)"
  unfolding report_peer_def
  by (auto intro!: calm_intros calm_event calm_connected calm_disconnected simp: reportable_def split: option.splits)

lemma record_traffic_no_panic: "record_traffic (wd_prof W) net previous peer time ti \<noteq> Panic"
  unfolding release using traffic_info_add_Release
  by (auto simp: record_traffic_def traffic_difference_def) (metis res.distinct(3))

lemma unix_time_no_panic: "unix_time t \<noteq> Panic"
  by (cases "duration_since t 0") (simp_all add: unix_time_def)

lemma calm_known: "reportable peer \<Longrightarrow> calm (known_peer W stats previous peer)"
  unfolding known_peer_def add_traffic_def
  by (intro calm_intros calm_now calm_report unix_time_no_panic record_traffic_no_panic)

lemma calm_check: "calm (check_handshake W peer)"
  unfolding check_handshake_def by (auto intro!: calm_intros calm_now split: option.splits)

lemma check_handshake_post:
  assumes "check_handshake W peer w = (Ok peer', w')" and "reportable peer"
  shows "reportable peer'"
  using run_check_handshake [of peer w] assms
  by (auto simp: reportable_def expire_handshake_def split: option.splits)

lemma calm_peer:
  assumes "reportable peer"
  shows "calm (watchdog_peer W stats peer)"
  unfolding watchdog_peer_def cache_insert_def
proof (rule calm_bind [OF calm_check])
  fix w peer' w' assume "check_handshake W peer w = (Ok peer', w')"
  then have r: "reportable peer'" using check_handshake_post assms by blast
  then have "calm (when_io (pst_latest_handshake peer' \<noteq> None) (connected_event W stats peer'))"
    by (auto intro!: calm_when calm_connected simp: reportable_def)
  with r show "calm (bind_io get_st (\<lambda>w. then_io
       (case bt_get (net_cache_of (nst_listen_port stats) w) (pst_public_key peer') of
          None \<Rightarrow> when_io (pst_latest_handshake peer' \<noteq> None) (connected_event W stats peer')
        | Some previous \<Rightarrow> known_peer W stats previous peer')
       (\<lambda>w. (Ok (), w\<lparr>wd_cache := bt_insert (nst_listen_port stats)
          (bt_insert (pst_public_key peer') peer' (net_cache_of (nst_listen_port stats) w)) (wd_cache w)\<rparr>))))"
    by (intro calm_bind calm_then calm_pure) (auto intro: calm_known split: option.splits)
qed

lemma calm_poll:
  "\<forall>peer \<in> set (nst_peers stats). reportable peer \<Longrightarrow> calm (poll_network W stats)"
  unfolding poll_network_def Let_def cache_remove_def
  by (intro calm_intros calm_peer calm_disconnected) simp_all

lemma calm_netns: "8 \<le> length netns \<Longrightarrow> calm (watchdog_netns W netns)"
proof -
  let ?m = "context_io ''Fetching wireguard stats'' (wd_do (wireguard_stats W netns (''wg'' @ drop 8 netns)))"
  assume "8 \<le> length netns"
  then have "watchdog_netns W netns = bind_io ?m (poll_network W)" by (simp add: watchdog_netns_def Let_def)
  moreover have "calm ?m" by (intro calm_context calm_do) (use law_stats in blast)
  moreover have "calm (poll_network W stats)" if "?m w = (Ok stats, w')" for stats w w'
    using that stats_reportable
    by (intro calm_poll) (fastforce simp: context_io_def wd_do_def zoom_def split: prod.splits)
  ultimately show ?thesis by (auto intro: calm_bind)
qed

lemma calm_run: "calm (watchdog_run W)"
proof -
  have "calm (wd_do (list_netns W))" by (rule calm_do) (use law_list in blast)
  moreover have "calm (wd_do (send_traffic W ti))" for ti
  proof (rule calm_do)
    show "\<exists>r s'. send_traffic W ti s = (r, s') \<and> r \<noteq> Panic" for s
      using law_traffic_Ok [of s ti] law_traffic_Err [of s ti] by (cases "watching s") auto
  qed
  ultimately show ?thesis
    unfolding watchdog_run_def by (intro calm_intros calm_netns prefix_length)
qed

lemma task_run_Ok: "\<exists>w'. task_run W w = (Ok (), w')"
  using calm_run by (auto simp: calm_def task_run_def split: prod.splits res.splits)

section \<open>The invariant\<close>

text \<open>The events sent since the last restart agree with the cache; subscribers come in pairs.\<close>

definition task_inv :: "nat \<times> 's wd \<Rightarrow> bool" where
  "task_inv = (\<lambda>(mark, w). (listening (wd_sys w) \<longleftrightarrow> watching (wd_sys w)) \<and>
     mark \<le> length (events (wd_sys w)) \<and> in_sync netkey (drop mark (events (wd_sys w))) (wd_cache w))"

lemma run_listed:
  assumes "watchdog_run W w = (Ok (), w')"
  shows "\<exists>items s'. list_netns W (wd_sys w) = (Ok items, s')"
  using assms law_list [of "wd_sys w"]
  by (auto simp: watchdog_run_def bind_io_def context_io_def wd_do_def zoom_def split: res.splits prod.splits)

lemma run_inv:
  assumes run: "watchdog_run W w = (Ok (), w')" and inv: "task_inv (mark, w)"
  shows "task_inv (mark, w')"
proof -
  let ?older = "take mark (events (wd_sys w))"
  have "watching (wd_sys w)" using watchdog_run_unattended [of w] run by auto
  with inv have "synced ?older w" by (auto simp: task_inv_def synced_def intro!: exI [of _ "drop mark (events (wd_sys w))"])
  from watchdog_run_synced [OF this run_listed [OF run]] run have "synced ?older w'" by auto
  then obtain log where log: "events (wd_sys w') = ?older @ log" "in_sync netkey log (wd_cache w')"
    and l: "listening (wd_sys w')" "watching (wd_sys w')" by (auto simp: synced_def)
  have "mark \<le> length (events (wd_sys w))" using inv by (simp add: task_inv_def)
  with log l show ?thesis by (simp add: task_inv_def)
qed

lemma restart_inv:
  assumes "watchdog_run W w = (Err e, w')" and "task_inv (mark, w)"
  shows "task_inv (length (events (wd_sys w')), w'\<lparr>wd_cache := bt_empty\<rparr>)"
  using watchdog_run_channels(1,2) [OF assms(1)] assms(2) in_sync_start by (simp add: task_inv_def)

end

text \<open>
  The world outside the task never writes to the channels, and who subscribes to or leaves one of them
  does so with the other.
\<close>

locale watchdog_task = attended_watchdog W events sent listening watching netkey
  for W :: "'s wd_env" and events and sent and listening and watching and netkey +
  fixes world :: "'s \<Rightarrow> 's \<Rightarrow> bool"
  assumes world_events: "world s s' \<Longrightarrow> events s' = events s"
    and world_pairs: "world s s' \<Longrightarrow> listening s \<longleftrightarrow> watching s \<Longrightarrow> listening s' \<longleftrightarrow> watching s'"
begin

lemma task_step_inv:
  assumes "task_step W events world x y" and "task_inv x"
  shows "task_inv y"
  using assms
proof (induction rule: task_step.induct)
  case (run w w' mark)
  then show ?case by (rule run_inv)
next
  case (restart w e w' mark)
  then show ?case by (rule restart_inv)
next
  case (other w s' mark)
  then show ?case using world_events [OF other(1)] world_pairs [OF other(1)] by (simp add: task_inv_def)
qed

lemma task_reachable_inv:
  "(task_step W events world)\<^sup>*\<^sup>* x y \<Longrightarrow> task_inv x \<Longrightarrow> task_inv y"
  by (induction rule: rtranclp_induct) (auto intro: task_step_inv)

end

end
