(* ===== verification/Broadcast.thy ===== *)
theory Broadcast
  imports Rust_Std
begin

text \<open>
  The broadcast channels of \<^verbatim>\<open>tokio\<close>, through which the watchdog reaches the connection. The crate is not
  part of the program: its operations are the record \<open>channel\<close>, and the locale \<open>broadcast\<close> states what its
  documentation promises. A channel keeps the last values sent, at least as many as asked for; every
  receiver reads on from where it subscribed; a receiver that has fallen behind by more than the channel
  keeps gets an error instead of a value; and sending without a receiver is an error.
\<close>

record ('b, 'a) channel =
  ch_new :: "nat \<Rightarrow> 'b"
  ch_send :: "'a \<Rightarrow> ('b, unit) io"
  ch_subscribe :: "'b \<Rightarrow> nat \<times> 'b"
  ch_recv :: "nat \<Rightarrow> 'b \<Rightarrow> 'a res option \<times> 'b"
  ch_drop :: "nat \<Rightarrow> 'b \<Rightarrow> 'b"

text \<open>
  \<open>hist\<close> is everything sent so far, \<open>cursor\<close> the position of each receiver in it and \<open>cap\<close> the number of
  values kept. \<open>ch_recv\<close> is one poll of the receiver; \<open>None\<close> says that there is nothing to read yet.
\<close>

locale broadcast =
  fixes Ch :: "('b, 'a) channel"
    and hist :: "'b \<Rightarrow> 'a list"
    and cursor :: "'b \<Rightarrow> nat \<Rightarrow> nat option"
    and cap :: "'b \<Rightarrow> nat"
  assumes new: "hist (ch_new Ch n) = []" "cursor (ch_new Ch n) = Map.empty" "n \<le> cap (ch_new Ch n)"
    and send_Ok: "cursor b \<noteq> Map.empty \<Longrightarrow> \<exists>b'. ch_send Ch v b = (Ok (), b') \<and>
      hist b' = hist b @ [v] \<and> cursor b' = cursor b \<and> cap b' = cap b"
    and send_Err: "cursor b = Map.empty \<Longrightarrow> \<exists>e b'. ch_send Ch v b = (Err e, b') \<and>
      hist b' = hist b \<and> cursor b' = cursor b \<and> cap b' = cap b"
    and subscribe: "ch_subscribe Ch b = (i, b') \<Longrightarrow> cursor b i = None \<and>
      hist b' = hist b \<and> cursor b' = (cursor b)(i \<mapsto> length (hist b)) \<and> cap b' = cap b"
    and recv_empty: "cursor b i = Some k \<Longrightarrow> length (hist b) \<le> k \<Longrightarrow> \<exists>b'. ch_recv Ch i b = (None, b') \<and>
      hist b' = hist b \<and> cursor b' = cursor b \<and> cap b' = cap b"
    and recv_Ok: "cursor b i = Some k \<Longrightarrow> k < length (hist b) \<Longrightarrow> length (hist b) \<le> k + cap b \<Longrightarrow>
      \<exists>b'. ch_recv Ch i b = (Some (Ok (hist b ! k)), b') \<and>
        hist b' = hist b \<and> cursor b' = (cursor b)(i \<mapsto> Suc k) \<and> cap b' = cap b"
    and recv_lagged: "cursor b i = Some k \<Longrightarrow> k + cap b < length (hist b) \<Longrightarrow>
      \<exists>e b'. ch_recv Ch i b = (Some (Err e), b') \<and>
        hist b' = hist b \<and> cursor b' = (cursor b)(i \<mapsto> length (hist b) - cap b) \<and> cap b' = cap b"
    and drop: "hist (ch_drop Ch i b) = hist b" "cursor (ch_drop Ch i b) = (cursor b)(i := None)"
      "cap (ch_drop Ch i b) = cap b"
begin

text \<open>What sending does to the view of the channel, whether there is a receiver or not.\<close>

lemma send_view:
  assumes "ch_send Ch v b = (r, b')"
  shows "cursor b' = cursor b" "cap b' = cap b" "r \<noteq> Panic"
    "hist b' = (if cursor b = Map.empty then hist b else hist b @ [v])"
    "r = Ok () \<longleftrightarrow> cursor b \<noteq> Map.empty"
  using send_Ok [of b v] send_Err [of b v] assms by (cases "cursor b = Map.empty"; auto)+

text \<open>
  One poll of the only receiver: it moves forward if there is anything to read, past one value, which it
  returns, or, when it has fallen behind, past those that are gone.
\<close>

lemma recv_sole:
  assumes "cursor b = [i \<mapsto> k]" and "k \<le> length (hist b)" and "ch_recv Ch i b = (r, b')"
  shows "\<exists>k'. cursor b' = [i \<mapsto> k'] \<and> k \<le> k' \<and> k' \<le> length (hist b) \<and> hist b' = hist b \<and> cap b' = cap b \<and>
     (case r of
        None \<Rightarrow> k = length (hist b)
      | Some (Ok v) \<Rightarrow> k' = Suc k \<and> take (k' - k) (drop k (hist b)) = [v]
      | Some (Err e) \<Rightarrow> k < k' \<and> k + cap b < length (hist b)
      | Some Panic \<Rightarrow> False)"
proof -
  have k: "cursor b i = Some k" using assms(1) by simp
  consider "k = length (hist b)" | "k < length (hist b)" "length (hist b) \<le> k + cap b"
    | "k + cap b < length (hist b)" using assms(2) by linarith
  then show ?thesis
  proof cases
    case 1
    then show ?thesis using recv_empty [OF k] assms by auto
  next
    case 2
    then show ?thesis
      using recv_Ok [OF k] assms by (auto simp: take_Suc Cons_nth_drop_Suc [symmetric] intro!: exI [of _ "Suc k"])
  next
    case 3
    then show ?thesis
      using recv_lagged [OF k] assms by (auto intro!: exI [of _ "length (hist b) - cap b"])
  qed
qed

lemma recv_ready:
  assumes "cursor b i = Some k" and "k < length (hist b)"
  shows "\<exists>r b'. ch_recv Ch i b = (Some r, b') \<and> (length (hist b) \<le> k + cap b \<longrightarrow> r = Ok (hist b ! k))"
  using recv_Ok [OF assms] recv_lagged [OF assms(1)] by (cases "length (hist b) \<le> k + cap b") fastforce+

end

section \<open>A channel\<close>

text \<open>
  A channel that satisfies the laws: it remembers everything and lets a receiver read only the last
  \<open>bc_cap\<close> values. A new receiver gets a number that is not in use.
\<close>

record 'a bc =
  bc_hist :: "'a list"
  bc_cursors :: "(nat \<times> nat) list"
  bc_cap :: nat

definition bc_cursor :: "'a bc \<Rightarrow> nat \<Rightarrow> nat option" where
  "bc_cursor b = map_of (bc_cursors b)"

definition fresh_id :: "(nat \<times> nat) list \<Rightarrow> nat" where
  "fresh_id cs = Suc (sum_list (map fst cs))"

definition bc_recv :: "nat \<Rightarrow> 'a bc \<Rightarrow> 'a res option \<times> 'a bc" where
  "bc_recv i b = (case bc_cursor b i of
      None \<Rightarrow> (None, b)
    | Some k \<Rightarrow>
        if length (bc_hist b) \<le> k then (None, b)
        else if length (bc_hist b) \<le> k + bc_cap b
        then (Some (Ok (bc_hist b ! k)), b\<lparr>bc_cursors := (i, Suc k) # bc_cursors b\<rparr>)
        else (Some (Err (Msg ''channel lagged'')),
          b\<lparr>bc_cursors := (i, length (bc_hist b) - bc_cap b) # bc_cursors b\<rparr>))"

definition bc_channel :: "('a bc, 'a) channel" where
  "bc_channel = \<lparr>
     ch_new = (\<lambda>n. \<lparr>bc_hist = [], bc_cursors = [], bc_cap = n\<rparr>),
     ch_send = (\<lambda>v b. if bc_cursors b = [] then (Err (Msg ''channel closed''), b)
       else (Ok (), b\<lparr>bc_hist := bc_hist b @ [v]\<rparr>)),
     ch_subscribe = (\<lambda>b. let i = fresh_id (bc_cursors b) in
       (i, b\<lparr>bc_cursors := (i, length (bc_hist b)) # bc_cursors b\<rparr>)),
     ch_recv = bc_recv,
     ch_drop = (\<lambda>i b. b\<lparr>bc_cursors := filter (\<lambda>c. fst c \<noteq> i) (bc_cursors b)\<rparr>)\<rparr>"

lemma fresh_id_unused: "map_of cs (fresh_id cs) = None"
proof -
  have "fst c < fresh_id cs" if "c \<in> set cs" for c
    using member_le_sum_list [of "fst c" "map fst cs"] that by (simp add: fresh_id_def)
  then show ?thesis by (force simp: map_of_eq_None_iff)
qed

lemma map_of_drop: "map_of (filter (\<lambda>c. fst c \<noteq> i) cs) = (map_of cs)(i := None)"
  by (induction cs) auto

interpretation bc: broadcast bc_channel bc_hist bc_cursor bc_cap
  by unfold_locales
    (auto simp: bc_channel_def bc_cursor_def bc_recv_def map_of_drop fresh_id_unused Let_def)

end
