(* ===== verification/Daemon_Model.thy ===== *)
theory Daemon_Model
  imports Broadcast Runtime Watchdog
begin

text \<open>
  The running program: the watchdog task and the connection to the manager beside each other, over one
  host and the two broadcast channels they share (\<open>Options::run\<close>, \<open>Options::global\<close>, \<open>Global::watchdog\<close>
  in \<^verbatim>\<open>src/lib.rs\<close>, \<open>connect\<close> and \<open>connect_run\<close> in \<^verbatim>\<open>src/websocket.rs\<close>). The operations of the tasks are
  those of \<open>Watchdog\<close> and \<open>Runtime\<close>; here the inputs of the connection come out of its receivers, and
  the watchdog's sends go into the channels.
\<close>

section \<open>State\<close>

text \<open>What the tasks share: the host and the channels of \<open>Global\<close>.\<close>

record ('h, 't, 'e) shared =
  sh_host :: 'h
  sh_traffic :: 't
  sh_events :: 'e

text \<open>What the program runs on: the parameters of the components, and the two channels.\<close>

record ('h, 't, 'e, 'c) parts =
  p_env :: "'h env"
  p_now :: "('h, system_time) io"
  p_stats :: "string \<Rightarrow> string \<Rightarrow> ('h, network_stats) io"
  p_ws :: "'c ws_env"
  p_traffic :: "('t, traffic_info) channel"
  p_events :: "('e, gateway_event) channel"

definition on_host :: "('h, 'a) io \<Rightarrow> (('h, 't, 'e) shared, 'a) io" where
  "on_host m = zoom sh_host (\<lambda>x s. s\<lparr>sh_host := x\<rparr>) m"

definition on_traffic :: "('t, 'a) io \<Rightarrow> (('h, 't, 'e) shared, 'a) io" where
  "on_traffic m = zoom sh_traffic (\<lambda>x s. s\<lparr>sh_traffic := x\<rparr>) m"

definition on_events :: "('e, 'a) io \<Rightarrow> (('h, 't, 'e) shared, 'a) io" where
  "on_events m = zoom sh_events (\<lambda>x s. s\<lparr>sh_events := x\<rparr>) m"

text \<open>The watchdog's environment: the host's statistics, and sending on the channels.\<close>

definition parts_wd :: "('h, 't, 'e, 'c) parts \<Rightarrow> ('h, 't, 'e) shared wd_env" where
  "parts_wd D = \<lparr>wd_prof = prof (p_env D),
     now = on_host (p_now D),
     list_netns = on_host (netns_list (p_env D)),
     wireguard_stats = (\<lambda>ns wg. on_host (p_stats D ns wg)),
     send_event = (\<lambda>e. on_events (ch_send (p_events D) e)),
     send_traffic = (\<lambda>ti. on_traffic (ch_send (p_traffic D) ti))\<rparr>"

text \<open>
  Where the main task is: starting up, between two connections, serving one with its two receivers, or
  at the end of the program.
\<close>

datatype link = Starting | Offline | Online nat nat | Ended

record ('h, 't, 'e, 'c) daemon =
  dm_wd :: "('h, 't, 'e) shared wd"
  dm_config :: gateway_config
  dm_sock :: 'c
  dm_link :: link

abbreviation dm_shared :: "('h, 't, 'e, 'c) daemon \<Rightarrow> ('h, 't, 'e) shared" where
  "dm_shared d \<equiv> wd_sys (dm_wd d)"

definition put_shared :: "('h, 't, 'e) shared \<Rightarrow> ('h, 't, 'e, 'c) daemon \<Rightarrow> ('h, 't, 'e, 'c) daemon" where
  "put_shared s d = d\<lparr>dm_wd := (dm_wd d)\<lparr>wd_sys := s\<rparr>\<rparr>"

text \<open>\<open>Options::global\<close>: new channels, and the empty configuration; the watchdog starts with no cache.\<close>

definition daemon_start :: "('h, 't, 'e, 'c) parts \<Rightarrow> 'h \<Rightarrow> 'c \<Rightarrow> ('h, 't, 'e, 'c) daemon" where
  "daemon_start D host sock = \<lparr>
     dm_wd = \<lparr>wd_traffic = traffic_info_new 0, wd_cache = bt_empty,
       wd_sys = \<lparr>sh_host = host, sh_traffic = ch_new (p_traffic D) BROADCAST_QUEUE_TRAFFIC,
         sh_events = ch_new (p_events D) BROADCAST_QUEUE_EVENTS\<rparr>\<rparr>,
     dm_config = bt_empty, dm_sock = sock, dm_link = Starting\<rparr>"

section \<open>The main task\<close>

text \<open>Initialising NGINX; the watchdog is running already.\<close>

definition daemon_startup :: "('h, 't, 'e, 'c) parts \<Rightarrow> ('h, 't, 'e, 'c) daemon \<Rightarrow> ('h, 't, 'e, 'c) daemon" where
  "daemon_startup D d = (case on_host (context_io ''Starting up gateway'' (startup (p_env D))) (dm_shared d) of
      (Ok _, s) \<Rightarrow> (put_shared s d)\<lparr>dm_link := Offline\<rparr>
    | (Err e, s) \<Rightarrow> (put_shared s d)\<lparr>dm_link := Ended\<rparr>
    | (Panic, s) \<Rightarrow> (put_shared s d)\<lparr>dm_link := Ended\<rparr>)"

text \<open>Opening a connection and subscribing to both channels; a failed attempt is made again later.\<close>

definition daemon_connect :: "('h, 't, 'e, 'c) parts \<Rightarrow> ('h, 't, 'e, 'c) daemon \<Rightarrow> ('h, 't, 'e, 'c) daemon" where
  "daemon_connect D d = (case open_socket (p_env D) (p_ws D) (dm_sock d) of
      (Ok _, sock) \<Rightarrow>
        (let s = dm_shared d;
             (traffic_sub, traffic) = ch_subscribe (p_traffic D) (sh_traffic s);
             (events_sub, events) = ch_subscribe (p_events D) (sh_events s)
         in (put_shared (s\<lparr>sh_traffic := traffic, sh_events := events\<rparr>) d)
              \<lparr>dm_sock := sock, dm_link := Online traffic_sub events_sub\<rparr>)
    | (Err e, sock) \<Rightarrow> d\<lparr>dm_sock := sock, dm_link := Offline\<rparr>
    | (Panic, sock) \<Rightarrow> d\<lparr>dm_sock := sock, dm_link := Ended\<rparr>)"

text \<open>Leaving \<open>connect_run\<close> drops both receivers.\<close>

definition daemon_close ::
  "('h, 't, 'e, 'c) parts \<Rightarrow> nat \<Rightarrow> nat \<Rightarrow> link \<Rightarrow> ('h, 't, 'e, 'c) daemon \<Rightarrow> ('h, 't, 'e, 'c) daemon" where
  "daemon_close D traffic_sub events_sub l d =
     (let s = dm_shared d in
      (put_shared (s\<lparr>sh_traffic := ch_drop (p_traffic D) traffic_sub (sh_traffic s),
         sh_events := ch_drop (p_events D) events_sub (sh_events s)\<rparr>) d)\<lparr>dm_link := l\<rparr>)"

text \<open>The branches of \<open>select!\<close>: a message of the socket, or what a receiver has; a branch may not be ready.\<close>

datatype branch = FromSocket ws_input | FromTraffic | FromEvents

fun from_socket :: "ws_input \<Rightarrow> bool" where
  "from_socket (TrafficRecv r) = False"
| "from_socket (EventRecv r) = False"
| "from_socket i = True"

definition select_input ::
  "('h, 't, 'e, 'c) parts \<Rightarrow> nat \<Rightarrow> nat \<Rightarrow> branch \<Rightarrow> ('h, 't, 'e) shared \<Rightarrow> ws_input option \<times> ('h, 't, 'e) shared" where
  "select_input D traffic_sub events_sub br s = (case br of
      FromSocket i \<Rightarrow> (if from_socket i then Some i else None, s)
    | FromTraffic \<Rightarrow> (case ch_recv (p_traffic D) traffic_sub (sh_traffic s) of
        (r, b) \<Rightarrow> (map_option TrafficRecv r, s\<lparr>sh_traffic := b\<rparr>))
    | FromEvents \<Rightarrow> (case ch_recv (p_events D) events_sub (sh_events s) of
        (r, b) \<Rightarrow> (map_option EventRecv r, s\<lparr>sh_events := b\<rparr>)))"

text \<open>The part of the state the connection's handlers work on.\<close>

definition conn_of :: "('h, 't, 'e, 'c) daemon \<Rightarrow> ('h, 'c) conn" where
  "conn_of d = \<lparr>cn_gw = \<lparr>gw_config = dm_config d, gw_sys = sh_host (dm_shared d)\<rparr>, cn_sock = dm_sock d\<rparr>"

definition put_conn :: "('h, 'c) conn \<Rightarrow> ('h, 't, 'e, 'c) daemon \<Rightarrow> ('h, 't, 'e, 'c) daemon" where
  "put_conn c d = (put_shared ((dm_shared d)\<lparr>sh_host := gw_sys (cn_gw c)\<rparr>) d)
     \<lparr>dm_config := gw_config (cn_gw c), dm_sock := cn_sock c\<rparr>"

text \<open>
  One turn of the loop: take an input and handle it. An error ends the connection and leads back to
  \<open>connect\<close>; a shutdown request and a panic end the program.
\<close>

definition daemon_turn ::
  "('h, 't, 'e, 'c) parts \<Rightarrow> nat \<Rightarrow> nat \<Rightarrow> branch \<Rightarrow> ('h, 't, 'e, 'c) daemon \<Rightarrow> ('h, 't, 'e, 'c) daemon option" where
  "daemon_turn D traffic_sub events_sub br d =
     (case select_input D traffic_sub events_sub br (dm_shared d) of
        (None, s) \<Rightarrow> None
      | (Some i, s) \<Rightarrow>
          (let d = put_shared s d in
           case handle_input (p_env D) (p_ws D) i (conn_of d) of
             (Ok False, c) \<Rightarrow> Some (put_conn c d)
           | (Ok True, c) \<Rightarrow> Some (daemon_close D traffic_sub events_sub Ended (put_conn c d))
           | (Err e, c) \<Rightarrow> Some (daemon_close D traffic_sub events_sub Offline (put_conn c d))
           | (Panic, c) \<Rightarrow> Some (daemon_close D traffic_sub events_sub Ended (put_conn c d))))"

section \<open>Steps of the program\<close>

text \<open>
  History variables: the number of events that had been sent when the watchdog was last started and when
  the present connection subscribed, and the connection's state then.
\<close>

record 'c history =
  h_mark :: nat
  h_start :: nat
  h_sock :: 'c

text \<open>
  The tasks take turns: runs of the watchdog (which is restarted when a run fails), the steps of the main
  task, and whatever happens on the host in between. When the main task ends, so does the program.
\<close>

inductive daemon_step ::
    "('h, 't, 'e, 'c) parts \<Rightarrow> ('e \<Rightarrow> gateway_event list) \<Rightarrow>
     'c history \<times> ('h, 't, 'e, 'c) daemon \<Rightarrow> 'c history \<times> ('h, 't, 'e, 'c) daemon \<Rightarrow> bool"
  for D :: "('h, 't, 'e, 'c) parts" and hist :: "'e \<Rightarrow> gateway_event list" where
  poll: "dm_link d \<noteq> Ended \<Longrightarrow> watchdog_run (parts_wd D) (dm_wd d) = (Ok (), w) \<Longrightarrow>
    daemon_step D hist (h, d) (h, d\<lparr>dm_wd := w\<rparr>)"
| restarted: "dm_link d \<noteq> Ended \<Longrightarrow> watchdog_run (parts_wd D) (dm_wd d) = (Err e, w) \<Longrightarrow>
    daemon_step D hist (h, d)
      (h\<lparr>h_mark := length (hist (sh_events (wd_sys w)))\<rparr>, d\<lparr>dm_wd := w\<lparr>wd_cache := bt_empty\<rparr>\<rparr>)"
| host: "daemon_step D hist (h, d) (h, put_shared ((dm_shared d)\<lparr>sh_host := x\<rparr>) d)"
| started: "dm_link d = Starting \<Longrightarrow> daemon_step D hist (h, d) (h, daemon_startup D d)"
| connected: "dm_link d = Offline \<Longrightarrow> d' = daemon_connect D d \<Longrightarrow>
    daemon_step D hist (h, d) (h\<lparr>h_start := length (hist (sh_events (dm_shared d))), h_sock := dm_sock d'\<rparr>, d')"
| turn: "dm_link d = Online traffic_sub events_sub \<Longrightarrow> daemon_turn D traffic_sub events_sub br d = Some d' \<Longrightarrow>
    daemon_step D hist (h, d) (h, d')"

inductive_cases daemon_stepE: "daemon_step D hist (h, d) (h', d')"

definition history_start :: "'c \<Rightarrow> 'c history" where
  "history_start sock = \<lparr>h_mark = 0, h_start = 0, h_sock = sock\<rparr>"

end
