(* ===== verification/Daemon.thy ===== *)
theory Daemon
  imports Watchdog_Task Runtime_Props Daemon_Model
begin

text \<open>
  The running program, in every interleaving of its tasks: the events sent since the watchdog's last
  restart agree with its cache, and the connection has passed on to the manager exactly the events from
  its subscription up to its receiver's position, in order.
\<close>

section \<open>Events among inputs and responses\<close>

text \<open>The events a connection took from its receiver, and those among the responses it sent.\<close>

definition received :: "ws_input list \<Rightarrow> gateway_event list" where
  "received inputs = concat (map (\<lambda>i. case i of EventRecv (Ok e) \<Rightarrow> [e] | _ \<Rightarrow> []) inputs)"

definition reported :: "gateway_response list \<Rightarrow> gateway_event list" where
  "reported rs = concat (map (\<lambda>r. case r of RespEvent e \<Rightarrow> [e] | _ \<Rightarrow> []) rs)"

lemma answered_event:
  "answered_by i r \<Longrightarrow> reported [r] = received [i]"
  by (cases i) (auto simp: answered_by_def received_def reported_def)

lemma unanswered_event: "\<not> calls_for_answer C i \<Longrightarrow> received [i] = []"
  by (cases i) (auto simp: calls_for_answer_def received_def)

lemma received_Cons: "received (i # is) = received [i] @ received is"
  by (simp add: received_def)

lemma reported_Cons: "reported (r # rs) = reported [r] @ reported rs"
  by (simp add: reported_def)

lemma answered_events:
  "list_all2 answered_by (filter (calls_for_answer C) is) rs \<Longrightarrow> reported rs = received is"
proof (induction "is" arbitrary: rs)
  case Nil
  then show ?case by (simp add: reported_def received_def)
next
  case (Cons i "is")
  show ?case
  proof (cases "calls_for_answer C i")
    case True
    with Cons.prems obtain r rs' where rs: "rs = r # rs'" "answered_by i r"
        "list_all2 answered_by (filter (calls_for_answer C) is) rs'"
      by (auto simp: list_all2_Cons1)
    have "reported (r # rs') = received [i] @ received is"
      using Cons.IH [OF rs(3)] answered_event [OF rs(2)] by (subst reported_Cons) simp
    then show ?thesis by (subst received_Cons) (simp add: rs(1))
  next
    case False
    with Cons have "reported rs = received is" by simp
    then show ?thesis by (subst received_Cons) (simp add: unanswered_event [OF False])
  qed
qed

section \<open>The program's laws\<close>

text \<open>
  The channels keep their laws, the socket can be written to, the clock and the statistics are read
  without a panic, and each port's statistics carry the key of its network.
\<close>

locale daemon_system =
  traffic: broadcast "p_traffic D" thist tcur tcap +
  event: broadcast "p_events D" ehist ecur ecap +
  open_connection "p_ws D" out
  for D :: "('h, 't, 'e, 'c) parts" and thist and tcur and tcap and ehist and ecur and ecap and out +
  fixes netkey :: "u16 \<Rightarrow> pubkey"
  assumes host_now: "\<exists>t x'. p_now D x = (Ok t, x') \<and> 0 \<le> t"
    and host_list: "fst (netns_list (p_env D) x) \<noteq> Panic"
    and host_stats: "fst (p_stats D ns wg x) \<noteq> Panic"
    and host_release: "prof (p_env D) = Release"
    and host_netkey: "inj netkey"
    and host_key: "p_stats D ns wg x = (Ok stats, x') \<Longrightarrow> nst_public_key stats = netkey (nst_listen_port stats)"
    and host_reportable: "p_stats D ns wg x = (Ok stats, x') \<Longrightarrow> peer \<in> set (nst_peers stats) \<Longrightarrow> reportable peer"

lemma run_on_host: "on_host m s = (case m (sh_host s) of (r, x) \<Rightarrow> (r, s\<lparr>sh_host := x\<rparr>))"
  by (simp add: on_host_def zoom_def)

lemma run_on_events: "on_events m s = (case m (sh_events s) of (r, x) \<Rightarrow> (r, s\<lparr>sh_events := x\<rparr>))"
  by (simp add: on_events_def zoom_def)

lemma run_on_traffic: "on_traffic m s = (case m (sh_traffic s) of (r, x) \<Rightarrow> (r, s\<lparr>sh_traffic := x\<rparr>))"
  by (simp add: on_traffic_def zoom_def)

lemmas parts_simps = parts_wd_def run_on_host run_on_events run_on_traffic

text \<open>The watchdog's laws follow from those of the channels and the host.\<close>

sublocale daemon_system \<subseteq> wd: watchdog_task "parts_wd D" "\<lambda>s. ehist (sh_events s)" "\<lambda>s. thist (sh_traffic s)"
  "\<lambda>s. ecur (sh_events s) \<noteq> Map.empty" "\<lambda>s. tcur (sh_traffic s) \<noteq> Map.empty" netkey
  "\<lambda>s s'. ehist (sh_events s') = ehist (sh_events s) \<and>
     (ecur (sh_events s') = Map.empty \<longleftrightarrow> tcur (sh_traffic s') = Map.empty)"
proof (unfold_locales, goal_cases)
  case (1 s)
  then show ?case using host_now [of "sh_host s"] by (auto simp: parts_simps)
next
  case (2 ns wg s)
  then show ?case using host_stats [of ns wg "sh_host s"] by (auto simp: parts_simps split: prod.splits)
next
  case (3 s)
  then show ?case using host_list [of "sh_host s"] by (auto simp: parts_simps split: prod.splits)
next
  case (4 s e)
  then show ?case using event.send_Ok [of "sh_events s" e] by (auto simp: parts_simps)
next
  case (5 s e)
  then show ?case using event.send_Err [of "sh_events s" e] by (auto simp: parts_simps)
next
  case (6 s ti)
  then show ?case using traffic.send_Ok [of "sh_traffic s" ti] by (auto simp: parts_simps)
next
  case (7 s ti)
  then show ?case using traffic.send_Err [of "sh_traffic s" ti] by (auto simp: parts_simps)
next
  case (10 ns wg s stats s')
  then show ?case using host_key by (fastforce simp: parts_simps split: prod.splits)
next
  case (11 ns wg s stats s' peer)
  then show ?case using host_reportable by (fastforce simp: parts_simps split: prod.splits)
qed (auto simp: parts_simps host_release host_netkey)

text \<open>A run of the watchdog moves no receiver.\<close>

sublocale daemon_system \<subseteq> cur: watchdog_frame "parts_wd D"
  "\<lambda>s s'. ecur (sh_events s') = ecur (sh_events s) \<and> tcur (sh_traffic s') = tcur (sh_traffic s) \<and>
     ecap (sh_events s') = ecap (sh_events s) \<and> tcap (sh_traffic s') = tcap (sh_traffic s)"
  by unfold_locales
    (auto simp: parts_simps event.send_view traffic.send_view split: prod.splits)

section \<open>The invariant\<close>

text \<open>\<open>told c rs c'\<close>: between the two states of the socket exactly the responses \<open>rs\<close> were sent.\<close>

definition told :: "'c ws_env \<Rightarrow> ('c \<Rightarrow> string list) \<Rightarrow> 'c \<Rightarrow> gateway_response list \<Rightarrow> 'c \<Rightarrow> bool" where
  "told C out c rs c' \<longleftrightarrow>
     (\<exists>ms. list_all2 (\<lambda>r m. response_to_string C r = Ok m) rs ms \<and> out c' = out c @ ms)"

lemma told_refl: "told C out c [] c"
  by (simp add: told_def)

lemma told_trans: "told C out c rs c1 \<Longrightarrow> told C out c1 rs' c2 \<Longrightarrow> told C out c (rs @ rs') c2"
  by (auto simp: told_def intro!: list_all2_appendI)

lemma reported_append: "reported (rs @ rs') = reported rs @ reported rs'"
  by (simp add: reported_def)

lemma put_shared_simps [simp]:
  "dm_shared (put_shared s d) = s" "wd_cache (dm_wd (put_shared s d)) = wd_cache (dm_wd d)"
  "dm_config (put_shared s d) = dm_config d" "dm_sock (put_shared s d) = dm_sock d"
  "dm_link (put_shared s d) = dm_link d"
  by (simp_all add: put_shared_def)

lemma put_conn_simps [simp]:
  "sh_events (dm_shared (put_conn c d)) = sh_events (dm_shared d)"
  "sh_traffic (dm_shared (put_conn c d)) = sh_traffic (dm_shared d)"
  "wd_cache (dm_wd (put_conn c d)) = wd_cache (dm_wd d)" "dm_sock (put_conn c d) = cn_sock c"
  "dm_link (put_conn c d) = dm_link d" "dm_config (put_conn c d) = gw_config (cn_gw c)"
  by (simp_all add: put_conn_def)

lemma daemon_close_simps [simp]:
  "sh_events (dm_shared (daemon_close D rt re l d)) = ch_drop (p_events D) re (sh_events (dm_shared d))"
  "sh_traffic (dm_shared (daemon_close D rt re l d)) = ch_drop (p_traffic D) rt (sh_traffic (dm_shared d))"
  "wd_cache (dm_wd (daemon_close D rt re l d)) = wd_cache (dm_wd d)"
  "dm_sock (daemon_close D rt re l d) = dm_sock d" "dm_link (daemon_close D rt re l d) = l"
  by (simp_all add: daemon_close_def Let_def)

lemma conn_of_sock [simp]: "cn_sock (conn_of d) = dm_sock d"
  by (simp add: conn_of_def)

context daemon_system
begin

text \<open>Where the receivers stand in a state of the channels.\<close>

definition reading :: "nat \<Rightarrow> nat \<Rightarrow> nat \<Rightarrow> nat \<Rightarrow> ('h, 't, 'e) shared \<Rightarrow> bool" where
  "reading rt re j k s \<longleftrightarrow> tcur (sh_traffic s) = [rt \<mapsto> j] \<and> ecur (sh_events s) = [re \<mapsto> k] \<and>
     j \<le> length (thist (sh_traffic s)) \<and> k \<le> length (ehist (sh_events s))"

lemma reading_nonempty:
  "reading rt re j k s \<Longrightarrow> tcur (sh_traffic s) \<noteq> Map.empty \<and> ecur (sh_events s) \<noteq> Map.empty"
  by (simp add: reading_def)

definition roomy :: "('h, 't, 'e) shared \<Rightarrow> bool" where
  "roomy s \<longleftrightarrow> BROADCAST_QUEUE_TRAFFIC \<le> tcap (sh_traffic s) \<and> BROADCAST_QUEUE_EVENTS \<le> ecap (sh_events s)"

text \<open>The receivers belong to the connection, which has passed on the events up to their position.\<close>

definition link_inv :: "'c history \<Rightarrow> ('h, 't, 'e, 'c) daemon \<Rightarrow> bool" where
  "link_inv h d \<longleftrightarrow> roomy (dm_shared d) \<and> (case dm_link d of
      Online rt re \<Rightarrow> \<exists>j k rs. reading rt re j k (dm_shared d) \<and> h_start h \<le> k \<and>
        told (p_ws D) out (h_sock h) rs (dm_sock d) \<and>
        reported rs = take (k - h_start h) (drop (h_start h) (ehist (sh_events (dm_shared d))))
    | _ \<Rightarrow> tcur (sh_traffic (dm_shared d)) = Map.empty \<and> ecur (sh_events (dm_shared d)) = Map.empty)"

definition daemon_inv :: "'c history \<times> ('h, 't, 'e, 'c) daemon \<Rightarrow> bool" where
  "daemon_inv = (\<lambda>(h, d). wd.task_inv (h_mark h, dm_wd d) \<and> link_inv h d)"

text \<open>Taking an input moves at most one receiver, by one value unless it lags.\<close>

lemma select_view:
  assumes "select_input D rt re br s = (Some i, s')" and "reading rt re j k s"
  shows "\<exists>j' k'. reading rt re j' k' s' \<and> j \<le> j' \<and> k \<le> k' \<and>
     ehist (sh_events s') = ehist (sh_events s) \<and> thist (sh_traffic s') = thist (sh_traffic s) \<and>
     (roomy s \<longrightarrow> roomy s') \<and> (br = FromTraffic \<longrightarrow> j < j') \<and> (br = FromEvents \<longrightarrow> k < k') \<and>
     ((\<exists>e. i = EventRecv (Err e)) \<or> received [i] = take (k' - k) (drop k (ehist (sh_events s))))"
proof (cases br)
  case (FromSocket x)
  then have "s' = s" "received [i] = []"
    using assms(1) by (auto simp: select_input_def received_def split: if_splits ws_input.splits)
  then show ?thesis using assms(2) FromSocket by (intro exI [of _ j] exI [of _ k]) simp
next
  case FromTraffic
  then obtain r b where r: "ch_recv (p_traffic D) rt (sh_traffic s) = (Some r, b)"
      "i = TrafficRecv r" "s' = s\<lparr>sh_traffic := b\<rparr>"
    using assms(1) by (auto simp: select_input_def split: prod.splits)
  from assms(2) have "tcur (sh_traffic s) = [rt \<mapsto> j]" "j \<le> length (thist (sh_traffic s))"
    by (simp_all add: reading_def)
  from traffic.recv_sole [OF this r(1)] obtain j' where "tcur b = [rt \<mapsto> j']" "j < j'"
      "j' \<le> length (thist (sh_traffic s))" "thist b = thist (sh_traffic s)" "tcap b = tcap (sh_traffic s)"
    by (cases r) auto
  then show ?thesis
    using r(2,3) assms(2) FromTraffic
    by (intro exI [of _ j'] exI [of _ k]) (simp add: reading_def roomy_def received_def)
next
  case FromEvents
  then obtain r b where r: "ch_recv (p_events D) re (sh_events s) = (Some r, b)"
      "i = EventRecv r" "s' = s\<lparr>sh_events := b\<rparr>"
    using assms(1) by (auto simp: select_input_def split: prod.splits)
  from assms(2) have "ecur (sh_events s) = [re \<mapsto> k]" "k \<le> length (ehist (sh_events s))"
    by (simp_all add: reading_def)
  from event.recv_sole [OF this r(1)] obtain k' where "ecur b = [re \<mapsto> k']" "k < k'"
      "k' \<le> length (ehist (sh_events s))" "ehist b = ehist (sh_events s)" "ecap b = ecap (sh_events s)"
      "(\<exists>e. r = Err e) \<or> received [EventRecv r] = take (k' - k) (drop k (ehist (sh_events s)))"
    by (cases r) (auto simp: received_def)
  then show ?thesis
    using r(2,3) assms(2) FromEvents
    by (intro exI [of _ j] exI [of _ k']) (auto simp: reading_def roomy_def)
qed

text \<open>Every step keeps the invariant.\<close>

lemma task_inv_other:
  assumes "wd.task_inv (mark, w)" and "wd_cache w' = wd_cache w"
    and "ehist (sh_events (wd_sys w')) = ehist (sh_events (wd_sys w))"
    and "ecur (sh_events (wd_sys w')) = Map.empty \<longleftrightarrow> tcur (sh_traffic (wd_sys w')) = Map.empty"
  shows "wd.task_inv (mark, w')"
  using assms by (simp add: wd.task_inv_def)

lemma link_inv_pairs:
  "link_inv h d \<Longrightarrow> ecur (sh_events (dm_shared d)) = Map.empty \<longleftrightarrow> tcur (sh_traffic (dm_shared d)) = Map.empty"
  by (auto simp: link_inv_def dest: reading_nonempty split: link.splits)

lemma daemon_invI:
  assumes "link_inv h' d'" and "wd.task_inv (h_mark h', w)" and "wd_cache (dm_wd d') = wd_cache w"
    and "ehist (sh_events (dm_shared d')) = ehist (sh_events (wd_sys w))"
  shows "daemon_inv (h', d')"
  using assms task_inv_other [OF assms(2-4) link_inv_pairs [OF assms(1)]] by (simp add: daemon_inv_def)

lemma link_inv_run:
  assumes "watchdog_run (parts_wd D) (dm_wd d) = (r, w)" and "link_inv h d"
    and "wd_sys w' = wd_sys w" and "h_start h' = h_start h" and "h_sock h' = h_sock h"
  shows "link_inv h' (d\<lparr>dm_wd := w'\<rparr>)"
proof -
  have same: "ecur (sh_events (wd_sys w)) = ecur (sh_events (dm_shared d))"
      "tcur (sh_traffic (wd_sys w)) = tcur (sh_traffic (dm_shared d))"
      "ecap (sh_events (wd_sys w)) = ecap (sh_events (dm_shared d))"
      "tcap (sh_traffic (wd_sys w)) = tcap (sh_traffic (dm_shared d))"
    using cur.watchdog_run_frame [of "dm_wd d"] assms(1) by simp_all
  moreover obtain es where "ehist (sh_events (wd_sys w)) = ehist (sh_events (dm_shared d)) @ es"
    using wd.watchdog_run_channels(3) [OF assms(1)] by blast
  moreover obtain tis where "thist (sh_traffic (wd_sys w)) = thist (sh_traffic (dm_shared d)) @ tis"
    using wd.watchdog_run_channels(4) [OF assms(1)] by blast
  ultimately show ?thesis
    using assms(2-) by (cases "dm_link d") (force simp: link_inv_def roomy_def reading_def)+
qed

lemma turn_cases:
  assumes "daemon_turn D rt re br d = Some d'"
  obtains i s b c where "select_input D rt re br (dm_shared d) = (Some i, s)"
      "handle_input (p_env D) (p_ws D) i (conn_of (put_shared s d)) = (Ok b, c)" "\<not> b"
      "d' = put_conn c (put_shared s d)"
  | i s c l where "select_input D rt re br (dm_shared d) = (Some i, s)" "l = Offline \<or> l = Ended"
      "d' = daemon_close D rt re l (put_conn c (put_shared s d))"
proof -
  obtain i s where sel: "select_input D rt re br (dm_shared d) = (Some i, s)"
    using assms by (auto simp: daemon_turn_def split: prod.splits option.splits)
  obtain r c where h: "handle_input (p_env D) (p_ws D) i (conn_of (put_shared s d)) = (r, c)" by fastforce
  have "d' = (case r of
      Ok False \<Rightarrow> put_conn c (put_shared s d)
    | Ok True \<Rightarrow> daemon_close D rt re Ended (put_conn c (put_shared s d))
    | Err e \<Rightarrow> daemon_close D rt re Offline (put_conn c (put_shared s d))
    | Panic \<Rightarrow> daemon_close D rt re Ended (put_conn c (put_shared s d)))"
    using assms sel h by (auto simp: daemon_turn_def Let_def split: res.splits bool.splits)
  with that(1) [OF sel, of False c] that(2) [OF sel, of _ c] h show thesis
    by (cases r) (auto split: bool.splits)
qed

lemma handled_told:
  assumes "handle_input (p_env D) (p_ws D) i s = (Ok b, s')"
  shows "(\<nexists>e. i = EventRecv (Err e)) \<and>
     (\<exists>rs. told (p_ws D) out (cn_sock s) rs (cn_sock s') \<and> reported rs = received [i])"
proof
  show "\<nexists>e. i = EventRecv (Err e)" using assms by (auto simp: handle_input_def bind_io_def run_simps)
  obtain rs where "says s rs s'" "list_all2 answered_by (filter (calls_for_answer (p_ws D)) [i]) rs"
    using handle_input_answers [OF assms] by blast
  with answered_events show "\<exists>rs. told (p_ws D) out (cn_sock s) rs (cn_sock s') \<and> reported rs = received [i]"
    unfolding says_def told_def by blast
qed

lemma turn_inv:
  assumes "dm_link d = Online rt re" and "daemon_turn D rt re br d = Some d'" and "daemon_inv (h, d)"
  shows "daemon_inv (h, d')"
proof -
  obtain j k rs where inv: "reading rt re j k (dm_shared d)" "h_start h \<le> k"
      "told (p_ws D) out (h_sock h) rs (dm_sock d)"
      "reported rs = take (k - h_start h) (drop (h_start h) (ehist (sh_events (dm_shared d))))"
    and roomy: "roomy (dm_shared d)" and task: "wd.task_inv (h_mark h, dm_wd d)"
    using assms(1,3) by (auto simp: daemon_inv_def link_inv_def)
  from assms(2) show ?thesis
  proof (cases rule: turn_cases)
    case (1 i s b c)
    obtain j' k' where v: "reading rt re j' k' s" "k \<le> k'" "roomy s"
        "ehist (sh_events s) = ehist (sh_events (dm_shared d))"
        "received [i] = take (k' - k) (drop k (ehist (sh_events s)))"
      using select_view [OF 1(1) inv(1)] handled_told [OF 1(2)] roomy by auto
    obtain rs' where rs': "told (p_ws D) out (dm_sock d) rs' (cn_sock c)" "reported rs' = received [i]"
      using handled_told [OF 1(2)] by auto
    have "reported (rs @ rs') = take (k' - h_start h) (drop (h_start h) (ehist (sh_events s)))"
      using inv(2,4) v(2,4,5) rs'(2)
        take_add [of "k - h_start h" "k' - k" "drop (h_start h) (ehist (sh_events s))"]
      by (simp add: reported_append)
    moreover have "reading rt re j' k' (dm_shared d')" "roomy (dm_shared d')"
      using v(1,3) 1(4) by (simp_all add: reading_def roomy_def)
    moreover have "h_start h \<le> k'" using inv(2) v(2) by simp
    ultimately have "link_inv h d'"
      using told_trans [OF inv(3) rs'(1)] 1(4) assms(1) unfolding link_inv_def by auto
    then show ?thesis by (rule daemon_invI [OF _ task]) (use v(4) 1(4) in simp_all)
  next
    case (2 i s c l)
    obtain j' k' where v: "reading rt re j' k' s" "roomy s" "ehist (sh_events s) = ehist (sh_events (dm_shared d))"
      using select_view [OF 2(1) inv(1)] roomy by auto
    have "link_inv h d'"
      using v 2(2,3) by (auto simp: link_inv_def reading_def roomy_def event.drop traffic.drop)
    then show ?thesis by (rule daemon_invI [OF _ task]) (use v(3) 2(3) in \<open>simp_all add: event.drop\<close>)
  qed
qed

lemma connect_inv:
  assumes "dm_link d = Offline" and "daemon_inv (h, d)" and "d' = daemon_connect D d"
  shows "daemon_inv (h\<lparr>h_start := length (ehist (sh_events (dm_shared d))), h_sock := dm_sock d'\<rparr>, d')"
proof -
  let ?s = "dm_shared d" and ?h = "h\<lparr>h_start := length (ehist (sh_events (dm_shared d))), h_sock := dm_sock d'\<rparr>"
  have inv: "roomy ?s" "tcur (sh_traffic ?s) = Map.empty" "ecur (sh_events ?s) = Map.empty"
    and task: "wd.task_inv (h_mark h, dm_wd d)"
    using assms(1,2) by (simp_all add: daemon_inv_def link_inv_def)
  obtain rt t where t: "ch_subscribe (p_traffic D) (sh_traffic ?s) = (rt, t)" by fastforce
  obtain re e where e: "ch_subscribe (p_events D) (sh_events ?s) = (re, e)" by fastforce
  note sub = traffic.subscribe [OF t] event.subscribe [OF e]
  obtain r sock where o: "open_socket (p_env D) (p_ws D) (dm_sock d) = (r, sock)" by fastforce
  have "link_inv ?h d' \<and> wd_cache (dm_wd d') = wd_cache (dm_wd d) \<and>
      ehist (sh_events (dm_shared d')) = ehist (sh_events ?s)"
  proof (cases r)
    case (Ok u)
    then have d'': "d' = (put_shared (?s\<lparr>sh_traffic := t, sh_events := e\<rparr>) d)\<lparr>dm_sock := sock, dm_link := Online rt re\<rparr>"
      using o by (simp add: assms(3) daemon_connect_def t e Let_def)
    have "\<exists>j k rs. reading rt re j k (dm_shared d') \<and> h_start ?h \<le> k \<and>
        told (p_ws D) out (h_sock ?h) rs (dm_sock d') \<and>
        reported rs = take (k - h_start ?h) (drop (h_start ?h) (ehist (sh_events (dm_shared d'))))"
      by (intro exI [of _ "length (thist t)"] exI [of _ "length (ehist e)"] exI [of _ "[]"])
        (use sub inv in \<open>simp add: d'' reading_def reported_def told_refl\<close>)
    moreover have "roomy (dm_shared d')" using sub inv(1) by (simp add: d'' roomy_def)
    ultimately show ?thesis using sub by (simp add: link_inv_def d'')
  qed (use o inv in \<open>simp_all add: assms(3) daemon_connect_def link_inv_def\<close>)
  then show ?thesis using task by (intro daemon_invI [of ?h d' "dm_wd d"]) simp_all
qed

lemma quiet_inv:
  assumes "daemon_inv (h, d)" and "wd_cache (dm_wd d') = wd_cache (dm_wd d)"
    and "sh_events (dm_shared d') = sh_events (dm_shared d)" and "sh_traffic (dm_shared d') = sh_traffic (dm_shared d)"
    and "dm_sock d' = dm_sock d" and "dm_link d' = dm_link d \<or> dm_link d = Starting \<and> dm_link d' \<in> {Offline, Ended}"
  shows "daemon_inv (h, d')"
proof -
  have "roomy (dm_shared d') = roomy (dm_shared d)"
      "reading rt re j k (dm_shared d') = reading rt re j k (dm_shared d)" for rt re j k
    using assms(3,4) by (simp_all add: roomy_def reading_def)
  then have "link_inv h d'"
    using assms(1,3-) by (cases "dm_link d") (auto simp: daemon_inv_def link_inv_def)
  moreover have "wd.task_inv (h_mark h, dm_wd d)" using assms(1) by (simp add: daemon_inv_def)
  ultimately show ?thesis using assms(2,3) by (intro daemon_invI) simp_all
qed

lemma daemon_step_inv:
  assumes "daemon_step D ehist x y" and "daemon_inv x"
  shows "daemon_inv y"
  using assms
proof (induction rule: daemon_step.induct)
  case (poll d w h)
  then have inv: "wd.task_inv (h_mark h, dm_wd d)" "link_inv h d" by (simp_all add: daemon_inv_def)
  show ?case
    using wd.run_inv [OF poll(2) inv(1)] link_inv_run [OF poll(2) inv(2)] by (simp add: daemon_inv_def)
next
  case (restarted d e w h)
  then have inv: "wd.task_inv (h_mark h, dm_wd d)" "link_inv h d" by (simp_all add: daemon_inv_def)
  show ?case
    using wd.restart_inv [OF restarted(2) inv(1)] link_inv_run [OF restarted(2) inv(2)] by (simp add: daemon_inv_def)
next
  case (host h d x)
  then show ?case by (rule quiet_inv) simp_all
next
  case (started d h)
  obtain r x where r: "context_io ''Starting up gateway'' (startup (p_env D)) (sh_host (dm_shared d)) = (r, x)"
    by fastforce
  have "daemon_startup D d = (put_shared ((dm_shared d)\<lparr>sh_host := x\<rparr>) d)
      \<lparr>dm_link := (case r of Ok _ \<Rightarrow> Offline | _ \<Rightarrow> Ended)\<rparr>"
    using r by (cases r) (simp_all add: daemon_startup_def run_on_host)
  with started show ?case by (intro quiet_inv [OF started(2)]) (simp_all split: res.splits)
next
  case (connected d d' h)
  show ?case by (rule connect_inv [OF connected(1,3,2)])
next
  case (turn d rt re br d' h)
  then show ?case by (rule turn_inv)
qed

lemma daemon_start_inv: "daemon_inv (history_start sock, daemon_start D x sock)"
  by (simp add: daemon_inv_def history_start_def daemon_start_def link_inv_def roomy_def wd.task_inv_def
      event.new traffic.new in_sync_start)

lemma daemon_reachable_inv:
  assumes "(daemon_step D ehist)\<^sup>*\<^sup>* (history_start sock, daemon_start D x sock) (h, d)"
  shows "daemon_inv (h, d)"
  using assms by (induction rule: rtranclp_induct) (auto intro: daemon_start_inv daemon_step_inv)

end

end
