(* ===== verification/Daemon_Props.thy ===== *)
theory Daemon_Props
  imports Daemon
begin

text \<open>
  Consequences of the invariant. A manager whose connection has caught up knows which peers are
  connected. A turn of the connection on a channel reports the next value, or ends the connection if it
  has fallen behind by more than the channel keeps; without new values the turns come to an end, and a
  connection that has not fallen behind catches up.
\<close>

section \<open>Turns that read the channels\<close>

text \<open>The values waiting for the connection, and the turns that take one of them.\<close>

definition waiting ::
  "('t \<Rightarrow> traffic_info list) \<Rightarrow> ('t \<Rightarrow> nat \<Rightarrow> nat option) \<Rightarrow> ('e \<Rightarrow> gateway_event list) \<Rightarrow> ('e \<Rightarrow> nat \<Rightarrow> nat option) \<Rightarrow>
   ('h, 't, 'e, 'c) daemon \<Rightarrow> nat" where
  "waiting thist tcur ehist ecur d = (case dm_link d of
      Online rt re \<Rightarrow> (length (thist (sh_traffic (dm_shared d))) - the (tcur (sh_traffic (dm_shared d)) rt)) +
        (length (ehist (sh_events (dm_shared d))) - the (ecur (sh_events (dm_shared d)) re))
    | _ \<Rightarrow> 0)"

inductive channel_turn :: "('h, 't, 'e, 'c) parts \<Rightarrow> ('h, 't, 'e, 'c) daemon \<Rightarrow> ('h, 't, 'e, 'c) daemon \<Rightarrow> bool"
  for D :: "('h, 't, 'e, 'c) parts" where
  "dm_link d = Online rt re \<Longrightarrow> br = FromTraffic \<or> br = FromEvents \<Longrightarrow> daemon_turn D rt re br d = Some d' \<Longrightarrow>
     channel_turn D d d'"

inductive_cases channel_turnE: "channel_turn D d d'"

lemma channel_turn_step: "channel_turn D d d' \<Longrightarrow> daemon_step D hist (h, d) (h, d')"
  by (auto elim!: channel_turnE intro: daemon_step.turn)

context daemon_system
begin

lemma reachable_consistent:
  assumes "(daemon_step D ehist)\<^sup>*\<^sup>* (history_start sock, daemon_start D x sock) (h, d)"
  defines "es \<equiv> ehist (sh_events (dm_shared d))"
  shows "h_mark h \<le> length es \<and> in_sync netkey (drop (h_mark h) es) (wd_cache (dm_wd d))"
    and "dm_link d = Online rt re \<Longrightarrow> \<exists>k rs. ecur (sh_events (dm_shared d)) = [re \<mapsto> k] \<and>
       h_start h \<le> k \<and> k \<le> length es \<and> told (p_ws D) out (h_sock h) rs (dm_sock d) \<and>
       reported rs = take (k - h_start h) (drop (h_start h) es)"
proof -
  have inv: "wd.task_inv (h_mark h, dm_wd d)" "link_inv h d"
    using daemon_reachable_inv [OF assms(1)] by (simp_all add: daemon_inv_def)
  show "h_mark h \<le> length es \<and> in_sync netkey (drop (h_mark h) es) (wd_cache (dm_wd d))"
    using inv(1) by (simp add: wd.task_inv_def es_def)
  assume "dm_link d = Online rt re"
  with inv(2) show "\<exists>k rs. ecur (sh_events (dm_shared d)) = [re \<mapsto> k] \<and>
       h_start h \<le> k \<and> k \<le> length es \<and> told (p_ws D) out (h_sock h) rs (dm_sock d) \<and>
       reported rs = take (k - h_start h) (drop (h_start h) es)"
    unfolding link_inv_def reading_def es_def by auto
qed

text \<open>In a reachable state with an open connection the receivers are where the channels say.\<close>

lemma reachable_reading:
  assumes "(daemon_step D ehist)\<^sup>*\<^sup>* (history_start sock, daemon_start D x sock) (h, d)"
    and "dm_link d = Online rt re" and "ecur (sh_events (dm_shared d)) re = Some k"
  shows "(\<exists>j. reading rt re j k (dm_shared d)) \<and> BROADCAST_QUEUE_EVENTS \<le> ecap (sh_events (dm_shared d)) \<and>
     BROADCAST_QUEUE_TRAFFIC \<le> tcap (sh_traffic (dm_shared d))"
  using daemon_reachable_inv [OF assms(1)] assms(2,3)
  by (auto simp: daemon_inv_def link_inv_def roomy_def reading_def)

section \<open>What the manager knows\<close>

text \<open>A connection that has read everything has told the manager all that was sent since it subscribed.\<close>

lemma caught_up_in_sync:
  assumes "daemon_inv (h, d)" and "dm_link d = Online rt re"
    and "ecur (sh_events (dm_shared d)) re = Some (length (ehist (sh_events (dm_shared d))))"
    and "h_start h \<le> h_mark h"
  shows "\<exists>rs. told (p_ws D) out (h_sock h) rs (dm_sock d) \<and>
     in_sync netkey (drop (h_mark h - h_start h) (reported rs)) (wd_cache (dm_wd d))"
proof -
  let ?es = "ehist (sh_events (dm_shared d))"
  obtain j k rs where "reading rt re j k (dm_shared d)" and rs: "told (p_ws D) out (h_sock h) rs (dm_sock d)"
      "reported rs = take (k - h_start h) (drop (h_start h) ?es)"
    using assms(1,2) by (auto simp: daemon_inv_def link_inv_def)
  then have "k = length ?es" using assms(3) by (simp add: reading_def)
  then have "drop (h_mark h - h_start h) (reported rs) = drop (h_mark h) ?es" using rs(2) assms(4) by simp
  moreover have "in_sync netkey (drop (h_mark h) ?es) (wd_cache (dm_wd d))"
    using assms(1) by (simp add: daemon_inv_def wd.task_inv_def)
  ultimately show ?thesis using rs(1) by auto
qed

text \<open>While no connection is open every run of the watchdog fails.\<close>

lemma offline_run_fails:
  assumes "daemon_inv (h, d)" and "\<nexists>rt re. dm_link d = Online rt re"
  shows "fst (watchdog_run (parts_wd D) (dm_wd d)) \<noteq> Ok ()"
  using assms by (intro wd.watchdog_run_unattended) (auto simp: daemon_inv_def link_inv_def split: link.splits)

section \<open>Reading the channels\<close>

lemma run_event_input:
  "\<exists>sock. handle_input (p_env D) (p_ws D) (EventRecv (Ok e)) c = (Ok False, c\<lparr>cn_sock := sock\<rparr>) \<and>
     told (p_ws D) out (cn_sock c) [RespEvent e] sock"
  using run_send_response [of "RespEvent e" c]
  by (auto simp: handle_input_def bind_io_def then_io_def run_simps says_def told_def)

lemma run_traffic_input:
  "\<exists>sock. handle_input (p_env D) (p_ws D) (TrafficRecv (Ok ti)) c = (Ok False, c\<lparr>cn_sock := sock\<rparr>)"
  using run_send_response [of "RespTraffic ti" c]
  by (auto simp: handle_input_def bind_io_def then_io_def run_simps)

lemma event_turn:
  assumes "reading rt re j k (dm_shared d)" and "k < length (ehist (sh_events (dm_shared d)))"
    and "length (ehist (sh_events (dm_shared d))) \<le> k + ecap (sh_events (dm_shared d))"
  shows "\<exists>d'. daemon_turn D rt re FromEvents d = Some d' \<and> dm_link d' = dm_link d \<and>
     reading rt re j (Suc k) (dm_shared d') \<and> sh_traffic (dm_shared d') = sh_traffic (dm_shared d) \<and>
     ehist (sh_events (dm_shared d')) = ehist (sh_events (dm_shared d)) \<and>
     ecap (sh_events (dm_shared d')) = ecap (sh_events (dm_shared d)) \<and>
     told (p_ws D) out (dm_sock d) [RespEvent (ehist (sh_events (dm_shared d)) ! k)] (dm_sock d')"
proof -
  let ?s = "dm_shared d" and ?e = "ehist (sh_events (dm_shared d)) ! k"
  have "ecur (sh_events ?s) re = Some k" using assms(1) by (simp add: reading_def)
  from event.recv_Ok [OF this assms(2,3)] obtain b where
    b: "ch_recv (p_events D) re (sh_events ?s) = (Some (Ok ?e), b)" "ehist b = ehist (sh_events ?s)"
      "ecur b = (ecur (sh_events ?s))(re \<mapsto> Suc k)" "ecap b = ecap (sh_events ?s)" by blast
  let ?d = "put_shared (?s\<lparr>sh_events := b\<rparr>) d"
  obtain sock where sock: "handle_input (p_env D) (p_ws D) (EventRecv (Ok ?e)) (conn_of ?d) =
        (Ok False, (conn_of ?d)\<lparr>cn_sock := sock\<rparr>)" "told (p_ws D) out (dm_sock d) [RespEvent ?e] sock"
    using run_event_input [of ?e "conn_of ?d"] by auto
  have "daemon_turn D rt re FromEvents d = Some (put_conn ((conn_of ?d)\<lparr>cn_sock := sock\<rparr>) ?d)"
    by (simp add: daemon_turn_def Let_def select_input_def b(1) sock(1))
  then show ?thesis using assms b sock(2) by (auto simp: reading_def)
qed

lemma traffic_turn:
  assumes "reading rt re j k (dm_shared d)" and "j < length (thist (sh_traffic (dm_shared d)))"
    and "length (thist (sh_traffic (dm_shared d))) \<le> j + tcap (sh_traffic (dm_shared d))"
  shows "\<exists>d'. daemon_turn D rt re FromTraffic d = Some d' \<and> dm_link d' = dm_link d \<and>
     reading rt re (Suc j) k (dm_shared d') \<and> sh_events (dm_shared d') = sh_events (dm_shared d) \<and>
     thist (sh_traffic (dm_shared d')) = thist (sh_traffic (dm_shared d)) \<and>
     tcap (sh_traffic (dm_shared d')) = tcap (sh_traffic (dm_shared d))"
proof -
  let ?s = "dm_shared d" and ?ti = "thist (sh_traffic (dm_shared d)) ! j"
  have "tcur (sh_traffic ?s) rt = Some j" using assms(1) by (simp add: reading_def)
  from traffic.recv_Ok [OF this assms(2,3)] obtain b where
    b: "ch_recv (p_traffic D) rt (sh_traffic ?s) = (Some (Ok ?ti), b)" "thist b = thist (sh_traffic ?s)"
      "tcur b = (tcur (sh_traffic ?s))(rt \<mapsto> Suc j)" "tcap b = tcap (sh_traffic ?s)" by blast
  let ?d = "put_shared (?s\<lparr>sh_traffic := b\<rparr>) d"
  obtain sock where sock: "handle_input (p_env D) (p_ws D) (TrafficRecv (Ok ?ti)) (conn_of ?d) =
        (Ok False, (conn_of ?d)\<lparr>cn_sock := sock\<rparr>)"
    using run_traffic_input [of ?ti "conn_of ?d"] by auto
  have "daemon_turn D rt re FromTraffic d = Some (put_conn ((conn_of ?d)\<lparr>cn_sock := sock\<rparr>) ?d)"
    by (simp add: daemon_turn_def Let_def select_input_def b(1) sock)
  then show ?thesis using assms b by (auto simp: reading_def)
qed

text \<open>Falling behind by more than the channel keeps ends the connection before anything more is sent.\<close>

lemma lagged_turn:
  assumes "reading rt re j k (dm_shared d)"
    and "k + ecap (sh_events (dm_shared d)) < length (ehist (sh_events (dm_shared d)))"
  shows "\<exists>d'. daemon_turn D rt re FromEvents d = Some d' \<and> dm_link d' = Offline \<and> dm_sock d' = dm_sock d \<and>
     ehist (sh_events (dm_shared d')) = ehist (sh_events (dm_shared d)) \<and>
     ecur (sh_events (dm_shared d')) = Map.empty"
proof -
  have "ecur (sh_events (dm_shared d)) re = Some k" using assms(1) by (simp add: reading_def)
  from event.recv_lagged [OF this assms(2)] obtain e b where
    b: "ch_recv (p_events D) re (sh_events (dm_shared d)) = (Some (Err e), b)"
      "ehist b = ehist (sh_events (dm_shared d))" "ecur b re \<noteq> None" "dom (ecur b) = {re}"
    using assms(1) by (auto simp: reading_def)
  let ?d = "put_shared ((dm_shared d)\<lparr>sh_events := b\<rparr>) d"
  have "daemon_turn D rt re FromEvents d = Some (daemon_close D rt re Offline (put_conn (conn_of ?d) ?d))"
    by (simp add: daemon_turn_def Let_def select_input_def b(1) handle_input_def bind_io_def run_simps)
  moreover have "(ecur b)(re := None) = Map.empty" using b(4) by (auto simp: dom_def fun_eq_iff)
  ultimately show ?thesis using b by (simp add: event.drop)
qed

lemma drained_turn:
  assumes "reading rt re j (length (ehist (sh_events (dm_shared d)))) (dm_shared d)"
  shows "daemon_turn D rt re FromEvents d = None"
proof -
  have "ecur (sh_events (dm_shared d)) re = Some (length (ehist (sh_events (dm_shared d))))"
    using assms by (simp add: reading_def)
  from event.recv_empty [OF this] show ?thesis by (auto simp: daemon_turn_def select_input_def)
qed

text \<open>Every such turn leaves fewer values waiting, so without new ones they come to an end.\<close>

lemma waiting_reading:
  "dm_link d = Online rt re \<Longrightarrow> reading rt re j k (dm_shared d) \<Longrightarrow>
   waiting thist tcur ehist ecur d = (length (thist (sh_traffic (dm_shared d))) - j) + (length (ehist (sh_events (dm_shared d))) - k)"
  by (simp add: waiting_def reading_def)

lemma channel_turn_waiting:
  assumes "daemon_inv (h, d)" and "channel_turn D d d'"
  shows "waiting thist tcur ehist ecur d' < waiting thist tcur ehist ecur d"
proof -
  obtain rt re br where t: "dm_link d = Online rt re" "br = FromTraffic \<or> br = FromEvents"
      "daemon_turn D rt re br d = Some d'" using assms(2) by (rule channel_turnE)
  obtain j k where r: "reading rt re j k (dm_shared d)"
    using assms(1) t(1) by (auto simp: daemon_inv_def link_inv_def)
  obtain i s where i: "select_input D rt re br (dm_shared d) = (Some i, s)"
    and d': "dm_link d' = dm_link d \<and> sh_events (dm_shared d') = sh_events s \<and> sh_traffic (dm_shared d') = sh_traffic s \<or>
      (\<nexists>rt re. dm_link d' = Online rt re)"
    using t(3) by (cases rule: turn_cases) (auto simp: daemon_close_def Let_def)
  obtain j' k' where v: "reading rt re j' k' s" "j + k < j' + k'" "j \<le> j'" "k \<le> k'"
      "ehist (sh_events s) = ehist (sh_events (dm_shared d))" "thist (sh_traffic s) = thist (sh_traffic (dm_shared d))"
    using select_view [OF i r] t(2) by fastforce
  have le: "j' \<le> length (thist (sh_traffic (dm_shared d)))" "k' \<le> length (ehist (sh_events (dm_shared d)))"
    using v(1,5,6) by (auto simp: reading_def)
  from d' show ?thesis
  proof
    assume "\<nexists>rt re. dm_link d' = Online rt re"
    then have "waiting thist tcur ehist ecur d' = 0" by (simp add: waiting_def split: link.splits)
    then show ?thesis using waiting_reading [OF t(1) r] le v(2) by linarith
  next
    assume "dm_link d' = dm_link d \<and> sh_events (dm_shared d') = sh_events s \<and> sh_traffic (dm_shared d') = sh_traffic s"
    then have "dm_link d' = Online rt re" "reading rt re j' k' (dm_shared d')"
        "ehist (sh_events (dm_shared d')) = ehist (sh_events s)" "thist (sh_traffic (dm_shared d')) = thist (sh_traffic s)"
      using t(1) v(1) by (simp_all add: reading_def)
    then show ?thesis
      using waiting_reading [OF t(1) r] waiting_reading [of d' rt re j' k'] le v(2-6) by simp
  qed
qed

lemma channel_turns_bound:
  "(channel_turn D ^^ n) d d' \<Longrightarrow> daemon_inv (h, d) \<Longrightarrow>
   n + waiting thist tcur ehist ecur d' \<le> waiting thist tcur ehist ecur d"
proof (induction n arbitrary: d')
  case (Suc n)
  then obtain d1 where d1: "(channel_turn D ^^ n) d d1" "channel_turn D d1 d'" by auto
  have "(channel_turn D ^^ m) d x \<Longrightarrow> daemon_inv (h, x)" for m x
    using Suc.prems(2) channel_turn_step daemon_step_inv by (induction m arbitrary: x) fastforce+
  with d1 have "waiting thist tcur ehist ecur d' < waiting thist tcur ehist ecur d1"
    by (intro channel_turn_waiting) blast+
  then show ?case using Suc.IH [OF d1(1) Suc.prems(2)] by simp
qed simp

lemma channel_turns_catch_up:
  assumes "dm_link d = Online rt re" and "reading rt re j k (dm_shared d)"
    and "length (thist (sh_traffic (dm_shared d))) \<le> j + tcap (sh_traffic (dm_shared d))"
    and "length (ehist (sh_events (dm_shared d))) \<le> k + ecap (sh_events (dm_shared d))"
  shows "\<exists>d'. (channel_turn D ^^ waiting thist tcur ehist ecur d) d d' \<and> dm_link d' = Online rt re \<and>
     waiting thist tcur ehist ecur d' = 0"
  using assms
proof (induction "waiting thist tcur ehist ecur d" arbitrary: d j k)
  case 0
  then show ?case by (intro exI [of _ d]) simp
next
  case (Suc n)
  note w = waiting_reading [OF Suc.prems(1,2)]
  have "\<exists>d1 j1 k1. channel_turn D d d1 \<and> dm_link d1 = Online rt re \<and> reading rt re j1 k1 (dm_shared d1) \<and>
      n = waiting thist tcur ehist ecur d1 \<and>
      length (thist (sh_traffic (dm_shared d1))) \<le> j1 + tcap (sh_traffic (dm_shared d1)) \<and>
      length (ehist (sh_events (dm_shared d1))) \<le> k1 + ecap (sh_events (dm_shared d1))"
  proof (cases "k < length (ehist (sh_events (dm_shared d)))")
    case True
    from event_turn [OF Suc.prems(2) True Suc.prems(4)] obtain d1 where d1:
      "daemon_turn D rt re FromEvents d = Some d1" "dm_link d1 = Online rt re" "reading rt re j (Suc k) (dm_shared d1)"
      "sh_traffic (dm_shared d1) = sh_traffic (dm_shared d)"
      "ehist (sh_events (dm_shared d1)) = ehist (sh_events (dm_shared d))"
      "ecap (sh_events (dm_shared d1)) = ecap (sh_events (dm_shared d))"
      using Suc.prems(1) by auto
    have "channel_turn D d d1" using Suc.prems(1) d1(1) by (auto intro: channel_turn.intros)
    moreover have "n = waiting thist tcur ehist ecur d1"
      using Suc.hyps(2) w waiting_reading [OF d1(2,3)] True d1(4,5) by simp
    ultimately show ?thesis using d1 Suc.prems by (intro exI [of _ d1] exI [of _ j] exI [of _ "Suc k"]) simp
  next
    case False
    with Suc.hyps(2) w have "j < length (thist (sh_traffic (dm_shared d)))" by simp
    from traffic_turn [OF Suc.prems(2) this Suc.prems(3)] obtain d1 where d1:
      "daemon_turn D rt re FromTraffic d = Some d1" "dm_link d1 = Online rt re" "reading rt re (Suc j) k (dm_shared d1)"
      "sh_events (dm_shared d1) = sh_events (dm_shared d)"
      "thist (sh_traffic (dm_shared d1)) = thist (sh_traffic (dm_shared d))"
      "tcap (sh_traffic (dm_shared d1)) = tcap (sh_traffic (dm_shared d))"
      using Suc.prems(1) by auto
    have "channel_turn D d d1" using Suc.prems(1) d1(1) by (auto intro: channel_turn.intros)
    moreover have "n = waiting thist tcur ehist ecur d1"
      using Suc.hyps(2) w waiting_reading [OF d1(2,3)] \<open>j < _\<close> d1(4,5) by simp
    ultimately show ?thesis using d1 Suc.prems by (intro exI [of _ d1] exI [of _ "Suc j"] exI [of _ k]) simp
  qed
  then obtain d1 j1 k1 where d1: "channel_turn D d d1" "dm_link d1 = Online rt re" "reading rt re j1 k1 (dm_shared d1)"
      "n = waiting thist tcur ehist ecur d1"
      "length (thist (sh_traffic (dm_shared d1))) \<le> j1 + tcap (sh_traffic (dm_shared d1))"
      "length (ehist (sh_events (dm_shared d1))) \<le> k1 + ecap (sh_events (dm_shared d1))" by blast
  from Suc.hyps(1) [OF d1(4,2,3,5,6)] d1(1,4) Suc.hyps(2) show ?case
    by (metis relpowp_Suc_I2)
qed

end

end
