(* ===== verification/Runtime_Instance.thy ===== *)
theory Runtime_Instance
  imports Kernel_Instance Daemon_Props
begin

text \<open>
  Concrete environments for the watchdog and for the connection to the manager: a clock, channels and a
  script of WireGuard statistics kept in one record, and a connection that collects the messages sent.
  They satisfy the laws of \<open>watchdog_system\<close>, \<open>attended_watchdog\<close> and \<open>open_connection\<close>.
\<close>

section \<open>A watchdog environment\<close>

record wsim =
  w_clock :: nat
  w_events :: "gateway_event list"
  w_sent :: "traffic_info list"
  w_listening :: bool
  w_netns :: "string list"

text \<open>The statistics read at time \<open>t\<close> of the namespace are given by a script.\<close>

definition wsim_env :: "(string \<Rightarrow> nat \<Rightarrow> network_stats option) \<Rightarrow> wsim wd_env" where
  "wsim_env script = \<lparr>wd_prof = Release,
     now = (\<lambda>s. (Ok (int (w_clock s) * ns_per_sec), s)),
     list_netns = (\<lambda>s. (Ok (map (\<lambda>n. \<lparr>netns_item_name = n, netns_item_id = None\<rparr>) (w_netns s)), s)),
     wireguard_stats = (\<lambda>ns wg s. case script ns (w_clock s) of
         None \<Rightarrow> (Err (Msg ''Unable to access interface''), s)
       | Some st \<Rightarrow> (Ok st, s)),
     send_event = (\<lambda>e s. if w_listening s then (Ok (), s\<lparr>w_events := w_events s @ [e]\<rparr>)
       else (Err (Msg ''channel closed''), s)),
     send_traffic = (\<lambda>ti s. if w_listening s
       then (Ok (), s\<lparr>w_sent := w_sent s @ [ti], w_clock := w_clock s + 60\<rparr>)
       else (Err (Msg ''channel closed''), s))\<rparr>"

interpretation wsim: watchdog_system "wsim_env script" w_events w_sent w_listening w_listening
  by unfold_locales (auto simp: wsim_env_def ns_per_sec_def split: option.splits)

text \<open>One network with one peer, which shakes hands at second 1000 and sends 500 bytes a minute.\<close>

definition ex_netkey :: "u16 \<Rightarrow> pubkey" where
  "ex_netkey port = Pubkey (as_bytes (word_to_dec port))"

definition ex_peer_key :: pubkey where
  "ex_peer_key = Pubkey (replicate 32 9)"

definition ex_peer :: "nat \<Rightarrow> peer_stats" where
  "ex_peer t = \<lparr>pst_public_key = ex_peer_key, pst_preshared_key = None,
     pst_endpoint = Some (SockV4 0xC0A80001 51820), pst_allowed_ips = [],
     pst_latest_handshake = (if t < 1000 then None else Some (1000 * ns_per_sec)),
     pst_transfer_rx = of_nat (500 * (t div 60)), pst_transfer_tx = of_nat (t div 60),
     pst_persistent_keepalive = None\<rparr>"

definition ex_script :: "string \<Rightarrow> nat \<Rightarrow> network_stats option" where
  "ex_script ns t = (if ns = ''network-5000''
     then Some \<lparr>nst_private_key = Privkey (replicate 32 7), nst_public_key = ex_netkey 5000,
       nst_listen_port = 5000, nst_fwmark = None, nst_peers = [ex_peer t]\<rparr>
     else None)"

lemma ex_netkey_inj: "inj ex_netkey"
  by (simp add: inj_def ex_netkey_def as_bytes_inject word_unat_eq_iff)

interpretation ex_watchdog: attended_watchdog "wsim_env ex_script" w_events w_sent w_listening w_listening ex_netkey
proof
  fix ns wg :: string and s s' :: wsim and stats :: network_stats and peer :: peer_stats
  assume *: "wireguard_stats (wsim_env ex_script) ns wg s = (Ok stats, s')"
  then have st: "ex_script ns (w_clock s) = Some stats"
    by (auto simp: wsim_env_def split: option.splits)
  then show "nst_public_key stats = ex_netkey (nst_listen_port stats)"
    by (auto simp: ex_script_def split: if_splits)
  show "peer \<in> set (nst_peers stats) \<Longrightarrow> reportable peer"
    using st by (auto simp: ex_script_def ex_peer_def reportable_def split: if_splits)
qed (simp_all add: wsim_env_def ex_netkey_inj)

text \<open>Beside the task anything may change but what was sent on the channels.\<close>

definition wsim_world :: "wsim \<Rightarrow> wsim \<Rightarrow> bool" where
  "wsim_world s s' \<longleftrightarrow> w_events s' = w_events s \<and> w_sent s' = w_sent s"

interpretation ex_task: watchdog_task "wsim_env ex_script" w_events w_sent w_listening w_listening ex_netkey wsim_world
  by unfold_locales (simp_all add: wsim_world_def)

definition wsim_start :: "bool \<Rightarrow> wsim wd" where
  "wsim_start l = \<lparr>wd_traffic = traffic_info_new 0, wd_cache = bt_empty,
     wd_sys = \<lparr>w_clock = 1020, w_events = [], w_sent = [], w_listening = l, w_netns = [''network-5000'']\<rparr>\<rparr>"

section \<open>A connection\<close>

definition response_text :: "gateway_response \<Rightarrow> string" where
  "response_text r = (case r of
      RespTraffic _ \<Rightarrow> ''Traffic''
    | RespEvent _ \<Rightarrow> ''Event''
    | RespApply (Inr ()) \<Rightarrow> ''Apply: Ok''
    | RespApply (Inl e) \<Rightarrow> ''Apply: Err '' @ e)"

text \<open>Messages the example manager sends: the empty configuration and the shutdown.\<close>

definition request_parse :: "string \<Rightarrow> gateway_request res" where
  "request_parse s = (if s = ''Shutdown'' then Ok ReqShutdown
     else if s = ''Apply: {}'' then Ok (ReqApply bt_empty)
     else Err (Msg ''expected value''))"

definition mem_conn :: "string list ws_env" where
  "mem_conn = \<lparr>build_request = (\<lambda>u auth ident. Ok (u @ auth @ ident)),
     ws_connect = (\<lambda>_ c. (Ok (), c)),
     ws_send = (\<lambda>m c. (Ok (), c @ [m])),
     request_from_str = request_parse,
     response_to_string = (\<lambda>r. Ok (response_text r))\<rparr>"

interpretation mem: open_connection mem_conn "\<lambda>c. c"
  by unfold_locales (simp_all add: mem_conn_def)

section \<open>A gateway\<close>

definition ex_opts :: options where
  "ex_opts = \<lparr>opt_token = ''secret'', opt_watchdog = 60000000000,
     opt_custom_forwarding = [(Url ''https://custom.example.com/'', SockV4 0x7F000001 8000)],
     opt_manager = Url ''wss://manager.example.com/'', opt_identity = ''gw''\<rparr>"

definition ex_env :: "sim env" where
  "ex_env = sim_env Release ex_opts"

definition ex_url :: url where
  "ex_url = Url ''https://app.example.com/''"

definition ex_net :: "u16 \<Rightarrow> network_state" where
  "ex_net port = \<lparr>ns_private_key = Privkey (replicate 32 7), ns_listen_port = port, ns_mtu = 1420,
     ns_address = [IpNetV4 (Ipv4Net 0x0A000001 8)], ns_peers = bt_empty,
     ns_proxy = bt_insert ex_url [SockV4 0x0A000002 8443, SockV4 0x0A000003 8443] bt_empty\<rparr>"

definition ex_config :: gateway_config where
  "ex_config = bt_insert 5000 (ex_net 5000) bt_empty"

definition ex_gateway :: "sim gateway" where
  "ex_gateway = global_start sim_empty"

lemma ex_networks: "networks_of ex_config = [ex_net 5000]"
  by (simp add: networks_of_def ex_config_def ex_net_def)

lemma ex_targets: "proxy_targets (ex_net p) = [(ex_url, SockV4 0x0A000002 8443), (ex_url, SockV4 0x0A000003 8443)]"
  by (simp add: proxy_targets_def ex_net_def)

lemma ex_mappings: "port_mappings p (ex_net q) = Ok (mapped (ex_net q))"
  by (rule port_mappings_Ok) (simp add: ex_targets)

lemma ex_env_simps [simp]: "lib ex_env = std_libs" "prof ex_env = Release" "opts ex_env = ex_opts"
  "render_iptables ex_env c = Ok (iptables_save_tera std_libs c)"
  "render_nginx ex_env f = Ok (nginx_conf_tera std_libs f)"
  "render_sites ex_env f = Ok (sites_nginx_conf_tera std_libs f)"
  by (simp_all add: ex_env_def sim_env_def)

lemma ex_valid: "net_valid ex_env (\<lambda>_. True) (ex_net q)"
proof -
  have "ns_address (ex_net q) = [IpNetV4 (Ipv4Net 0x0A000001 8)]" "ns_mtu (ex_net q) = 1420"
    by (simp_all add: ex_net_def)
  then show ?thesis by (simp add: net_valid_def net_savefile_def port_config_def ex_mappings valid_mtu_def)
qed

lemma ex_nginx: "\<exists>m st. nginx_config ex_env [ex_net q] = Ok (m, st)"
proof -
  obtain f where "build_forwarding std_libs Release [ex_net q] (opt_custom_forwarding ex_opts) = Ok f"
    using std_fwd.build_forwarding_step [of "[ex_net q]" Release "opt_custom_forwarding ex_opts"] ex_mappings
    by auto
  then show ?thesis by (simp add: nginx_config_def)
qed

lemma sim_empty_links: "links_ok (sim_view sim_empty)"
  by (simp add: links_ok_def wg_unpaired_def veth_paired_def pair_at_def peers_def sim_view_def sim_empty_def)

lemma ex_system: "gateway_system ex_env sim_view 1500 [NL] (clean_iptables std_libs) (\<lambda>_. True) (\<lambda>_. True)"
  unfolding ex_env_def by (rule sim.gateway_system_axioms)

text \<open>The example configuration, and a partial one that replaces its network, meet the conditions.\<close>

definition ex_partial :: gateway_config_partial where
  "ex_partial = bt_insert 5000 None (bt_insert 6000 (Some (ex_net 6000)) bt_empty)"

lemma ex_ready:
  obtains m st where "\<forall>n \<in> set (networks_of ex_config). net_valid ex_env (\<lambda>_. True) n"
    and "nginx_config ex_env (networks_of ex_config) = Ok (m, st)"
    and "links_ok (sim_view (gw_sys ex_gateway))"
proof -
  obtain m st where "nginx_config ex_env [ex_net 5000] = Ok (m, st)" using ex_nginx [of 5000] by blast
  then show thesis
    using that by (simp add: ex_networks ex_valid ex_gateway_def global_start_def sim_empty_links)
qed

lemma ex_partial_merge: "config_apply_partial ex_config ex_partial = bt_insert 6000 (ex_net 6000) bt_empty"
  by (rule bt.get_ext) (simp add: ex_config_def ex_partial_def overlay_def)

lemma ex_partial_ready:
  obtains m st where "well_keyed ex_config" and "well_keyed_partial ex_partial"
    and "\<forall>p n. bt_get ex_partial p = Some (Some n) \<longrightarrow> net_valid ex_env (\<lambda>_. True) n"
    and "nginx_config ex_env (networks_of (config_apply_partial ex_config ex_partial)) = Ok (m, st)"
proof -
  have "networks_of (config_apply_partial ex_config ex_partial) = [ex_net 6000]"
    unfolding ex_partial_merge by (simp add: networks_of_def ex_net_def)
  moreover obtain m st where "nginx_config ex_env [ex_net 6000] = Ok (m, st)" using ex_nginx [of 6000] by blast
  moreover have "well_keyed ex_config" "well_keyed_partial ex_partial"
    by (simp_all add: well_keyed_def well_keyed_partial_def ex_config_def ex_partial_def ex_net_def)
  moreover have "\<forall>p n. bt_get ex_partial p = Some (Some n) \<longrightarrow> net_valid ex_env (\<lambda>_. True) n"
    by (simp add: ex_partial_def ex_valid)
  ultimately show thesis using that by simp
qed

text \<open>The gateway that has applied the example configuration, and applies the partial one.\<close>

lemma ex_applied:
  obtains g :: "sim gateway" and m st where "gw_config g = ex_config"
    and "all_applied ex_env (clean_iptables std_libs) m st (networks_of (gw_config g)) (sim_view (gw_sys g))"
    and "links_ok (sim_view (gw_sys g))"
proof (rule ex_ready)
  fix m st
  assume v: "\<forall>n \<in> set (networks_of ex_config). net_valid ex_env (\<lambda>_. True) n"
    and cfg: "nginx_config ex_env (networks_of ex_config) = Ok (m, st)"
    and l: "links_ok (sim_view (gw_sys ex_gateway))"
  have p: "veth_paired (sim_view (gw_sys ex_gateway))" using l by (simp add: links_ok_def)
  obtain s1 where s1: "sim_view s1 = spec_nginx m st (spec_networks ex_env 1500 [NL] (clean_iptables std_libs)
      (networks_of ex_config) (sim_view (gw_sys ex_gateway)))"
    using gateway_system.gateway_apply_moves [OF ex_system v cfg TrueI p] by blast
  show thesis
    by (rule that [of "\<lparr>gw_config = ex_config, gw_sys = s1\<rparr>" m st])
      (simp_all add: s1 all_applied_spec [OF p networks_of_distinct] links_ok_networks [OF l])
qed

lemma ex_partial_applied:
  obtains g :: "sim gateway" and g' where "gw_config g = ex_config" and "apply_partial ex_env ex_partial g = (Ok (), g')"
proof (rule ex_applied, rule ex_partial_ready)
  fix g :: "sim gateway" and m0 st0 m st
  assume g: "gw_config g = ex_config"
      "all_applied ex_env (clean_iptables std_libs) m0 st0 (networks_of (gw_config g)) (sim_view (gw_sys g))"
      "links_ok (sim_view (gw_sys g))"
    and k: "well_keyed ex_config" "well_keyed_partial ex_partial"
    and v: "\<forall>p n. bt_get ex_partial p = Some (Some n) \<longrightarrow> net_valid ex_env (\<lambda>_. True) n"
    and cfg: "nginx_config ex_env (networks_of (config_apply_partial ex_config ex_partial)) = Ok (m, st)"
  from k(1) cfg have "well_keyed (gw_config g)"
      "nginx_config ex_env (networks_of (config_apply_partial (gw_config g) ex_partial)) = Ok (m, st)"
    by (simp_all add: g(1))
  from gateway_system.apply_partial_all_applied [OF ex_system this(1) k(2) g(2,3) v this(2) TrueI] that [OF g(1)]
  show thesis by auto
qed

text \<open>A host on which only the bridge exists.\<close>

definition ex_bridged :: sim where
  "ex_bridged = sim_empty\<lparr>s_ifs := [(None, BRIDGE_INTERFACE) \<mapsto> new_if None]\<rparr>"

lemma ex_bridged_ok: "veth_paired (sim_view ex_bridged)" "bridge_ready (sim_view ex_bridged)"
  by (simp_all add: veth_paired_def pair_at_def peers_def bridge_ready_def sim_view_def ex_bridged_def
      sim_empty_def view_if_def new_if_def)

text \<open>A gateway on a host where NGINX has been set up before: start-up changes nothing.\<close>

definition ex_running :: "(sim, string list) conn" where
  "ex_running = \<lparr>cn_gw = global_start (sim_empty\<lparr>s_files := [NGINX_MODULE_PATH \<mapsto> []]\<rparr>), cn_sock = []\<rparr>"

lemma ex_running_startup: "on_gw (on_sys (context_io c (startup (ex_env\<lparr>opts := os\<rparr>)))) ex_running = (Ok (), ex_running)"
  by (simp add: on_gw_def on_sys_def zoom_def context_io_def startup_def bind_io_def run_simps ex_env_def sim_env_def
      query_def ex_running_def global_start_def)

text \<open>A command line that gives the example's options.\<close>

definition ex_clap :: clap where
  "ex_clap specs args = Ok \<lparr>m_token = ''secret'', m_watchdog = ''60s'',
     m_custom_forwarding = [], m_manager = ''wss://manager.example.com/'', m_identity = ''gw''\<rparr>"

lemma ex_main:
  "gateway_main ex_clap (\<lambda>_. Ok d) ex_env C args attempts s =
     options_run (ex_env\<lparr>opts := \<lparr>opt_token = ''secret'', opt_watchdog = d, opt_custom_forwarding = [],
       opt_manager = Url ''wss://manager.example.com/'', opt_identity = ''gw''\<rparr>\<rparr>) C attempts s"
  by (simp add: gateway_main_def options_from_args_def ex_clap_def bind_io_def run_simps std_libs_def parse_url_def
      starts_with_def)

end
