(* ===== verification/Integration_Instance.thy ===== *)
theory Integration_Instance
  imports Integration_Verify Runtime_Instance
begin

text \<open>
  A concrete environment for the integration test on the simulated host: a generator that takes the upper
  end of every range, a fixed key, \<^verbatim>\<open>ping\<close> with a given outcome, and a manager's socket that accepts
  everything. It satisfies the laws of \<open>test_laws\<close> and \<open>test_host\<close>.
\<close>

definition ex_key :: privkey where
  "ex_key = Privkey (replicate 32 5)"

definition response_parse :: "string \<Rightarrow> gateway_response res" where
  "response_parse v = (if v = ''Apply: Ok'' then Ok (RespApply (Inr ()))
     else if v = ''Apply: Err'' then Ok (RespApply (Inl ''failed''))
     else if v = ''Traffic'' then Ok (RespTraffic (traffic_info_new 0))
     else Err (Msg ''expected value''))"

definition sim_test :: "bool \<Rightarrow> sim test_env" where
  "sim_test up = \<lparr>gen_range_u16 = (\<lambda>(a, b) s. (Ok (b - 1), s)),
     gen_range_usize = (\<lambda>(a, b) s. (Ok (b - 1), s)),
     choose_multiple = (\<lambda>xs k s. (Ok (take k xs), s)),
     generate_key = (\<lambda>s. (Ok ex_key, s)),
     privkey_pubkey = (\<lambda>k. Pubkey (privkey_bytes k)),
     pubkey_to_hex = (\<lambda>k. concat (map word_to_dec (pubkey_bytes k))),
     ipv6_saturating_add = (\<lambda>a n. a + n),
     ipnet_new = (\<lambda>a p. case a of IpV4 u \<Rightarrow> if p \<le> 32 then Some (IpNetV4 (Ipv4Net u p)) else None
       | IpV6 u \<Rightarrow> if p \<le> 128 then Some (IpNetV6 u p) else None),
     test_send = (\<lambda>_ s. (Ok (), s)),
     request_to_string = (\<lambda>_. Ok ''{}''),
     response_from_str = response_parse,
     run_command = (\<lambda>_ _ s. (Ok \<lparr>out_success = up, out_debug = []\<rparr>, s)),
     test_sleep = (\<lambda>_ s. (Ok (), s)),
     lookup_host = (\<lambda>_ s. (Ok [SockV4 0 8000], s)),
     tcp_bind = (\<lambda>_ s. (Ok (), s)), tcp_accept = (\<lambda>s. (Ok (), s)), accept_async = (\<lambda>s. (Ok (), s))\<rparr>"

lemma pred_in_range: "a < b \<Longrightarrow> a \<le> b - 1 \<and> b - 1 < b" for a b :: u16
  by unat_arith

lemma own_net_text: "net_text own_net = ''10.0.0.1/8''"
proof -
  have "nat_to_dec 10 = ''10''" "nat_to_dec 0 = ''0''" "nat_to_dec 1 = ''1''" "nat_to_dec 8 = ''8''"
    by (simp_all add: nat_to_dec.simps [of 10] nat_to_dec.simps [of 0] nat_to_dec.simps [of "Suc 0"]
        nat_to_dec.simps [of 8] digit_char_def char_of_def bit_0)
  then show ?thesis by (simp add: own_net_def ipv4_to_string_def octet_def)
qed

lemma own_net_parses: "net_parse ''10.0.0.1/8'' = Ok own_net"
  using net_parse_text [of own_net] by (simp add: own_net_text)

interpretation sim_tests: test_laws std_libs "sim_test up"
proof
  show "ipnet_from_str std_libs ''10.0.0.1/8'' = Ok own_net"
    by (simp add: std_libs_def own_net_parses)
qed (auto simp: sim_test_def pred_in_range dest: in_set_takeD)

interpretation sim_host: test_host "sim_env p os" sim_view 1500 "[NL]" "clean_iptables std_libs"
  "\<lambda>_. True" "\<lambda>_. True" "sim_test up" "\<lambda>_ _. up"
proof -
  have "ipnet_laws (lib (sim_env p os))" by (simp add: sim_env_def std_ipnet.ipnet_laws_axioms)
  moreover have "test_host_axioms (sim_env p os) sim_view (sim_test up) (\<lambda>_ _. up)"
    by unfold_locales (simp add: sim_test_def)
  ultimately show "test_host (sim_env p os) sim_view 1500 [NL] (clean_iptables std_libs) (\<lambda>_. True) (\<lambda>_. True)
      (sim_test up) (\<lambda>_ _. up)"
    using sim_linux by (simp add: test_host_def)
qed

text \<open>A test configuration with one network and one peer, and a run of the test in which all goes well.\<close>

definition ex_test_net :: network_state where
  "ex_test_net = \<lparr>ns_private_key = ex_key, ns_listen_port = 50000, ns_mtu = 1420, ns_address = [own_net],
     ns_peers = bt_insert (Pubkey [1]) \<lparr>ps_preshared_key = None,
       ps_allowed_ips = [IpNetV4 (Ipv4Net 0x0A000002 32)], ps_endpoint = None\<rparr> bt_empty,
     ns_proxy = bt_empty\<rparr>"

definition ex_test_config :: gateway_config where
  "ex_test_config = bt_insert 50000 ex_test_net bt_empty"

definition ex_test_keys :: "(pubkey, privkey) btreemap" where
  "ex_test_keys = bt_insert (Pubkey [1]) ex_key bt_empty"

lemma ex_test_config_ok: "test_config_ok ex_test_keys ex_test_config"
  by (auto simp: test_config_ok_def test_network_ok_def ex_test_config_def ex_test_net_def ex_test_keys_def
      NETWORK_MTU_def split: if_splits)

lemma sim_empty_unused: "unused_ns ns (sim_view sim_empty)"
  by (simp add: unused_ns_def sim_view_def sim_empty_def)

section \<open>A passing run\<close>

text \<open>With a generator that makes one network without peers every check passes.\<close>

definition idle_test :: "sim test_env" where
  "idle_test = (sim_test True)\<lparr>gen_range_usize := (\<lambda>(a, b) s. (Ok a, s))\<rparr>"

definition idle_net :: network_state where
  "idle_net = \<lparr>ns_private_key = ex_key, ns_listen_port = 59999, ns_mtu = NETWORK_MTU, ns_address = [own_net],
     ns_peers = bt_empty, ns_proxy = bt_empty\<rparr>"

definition idle_config :: gateway_config where
  "idle_config = bt_insert 59999 idle_net bt_empty"

lemma idle_ops: "choose_multiple idle_test xs k s = (Ok (take k xs), s)" "test_sleep idle_test n s = (Ok (), s)"
  by (simp_all add: idle_test_def sim_test_def)

lemma idle_generate: "generate_config std_libs p idle_test 10 (0, 3) t = (Ok idle_config, t)"
proof -
  have one: "generate_network std_libs p idle_test (0, 3) c t = (Ok (bt_insert 59999 idle_net c), t)" for c
    by (simp add: generate_network_def bind_io_def run_simps on_test_def zoom_def idle_test_def sim_test_def
        PORT_RANGE_def std_libs_def own_net_parses unwrap_res_def idle_net_def)
  have twice: "bt_insert 59999 idle_net idle_config = idle_config"
    by (rule bt.get_ext) (simp add: idle_config_def)
  have "generate_networks std_libs p idle_test (0, 3) k idle_config t = (Ok idle_config, t)" for k
    by (induction k) (simp_all add: run_simps bind_io_def one twice)
  then have "generate_config std_libs p idle_test (Suc 9) (0, 3) t = (Ok idle_config, t)"
    unfolding generate_config_def generate_networks.simps bind_io_def by (simp add: one flip: idle_config_def)
  then show ?thesis by simp
qed

lemma idle_partial_add:
  "generate_partial_config std_libs p idle_test 10 0 (0, 3) [] t = (Ok (bt_insert 59999 (Some idle_net) bt_empty), t)"
  by (simp add: generate_partial_config_def idle_generate bind_io_def run_simps on_test_def zoom_def idle_ops idle_config_def)

lemma idle_partial_remove:
  "generate_partial_config std_libs p idle_test 0 k (0, 3) ports t =
     (Ok (foldl (\<lambda>c port. bt_insert port None c) bt_empty (take k ports)), t)"
  by (simp add: generate_partial_config_def generate_config_def bind_io_def run_simps on_test_def zoom_def
      idle_ops)

lemma idle_apply:
  assumes "inbox t = MsgText ''Apply: Ok'' # ms"
  shows "apply_ok (apply_config idle_test c) t = (Ok (), t\<lparr>inbox := ms\<rparr>)"
    and "apply_ok (apply_partial_config idle_test d) t = (Ok (), t\<lparr>inbox := ms\<rparr>)"
  using assms
  by (simp_all add: apply_ok_def apply_config_def apply_partial_config_def bind_io_def then_io_def run_simps
      on_test_def zoom_def idle_test_def sim_test_def receive_status_def response_parse_def assert_ok_def)

lemma idle_verify:
  "verify_config E T gateway idle_config keys s = (Ok (), s)"
  "verify_config E T gateway bt_empty keys s = (Ok (), s)"
  "verify_old_config E T gateway idle_config keys s = (Ok (), s)"
  by (simp_all add: verify_config_def verify_old_config_def idle_config_def idle_net_def run_simps then_io_def bind_io_def)

lemma idle_merge:
  "config_apply_partial idle_config (bt_insert 59999 (Some idle_net) bt_empty) = idle_config"
  "config_apply_partial idle_config (bt_insert 59999 None bt_empty) = bt_empty"
  "config_apply_partial bt_empty bt_empty = bt_empty"
  by (rule bt.get_ext; simp add: idle_config_def overlay_def)+

definition ex_test_start :: "sim test_state" where
  "ex_test_start = \<lparr>peer_keys = bt_empty,
     inbox = replicate 14 (MsgText ''Apply: Ok'') @ [MsgOther], test_sys = sim_empty\<rparr>"

lemma idle_rounds:
  assumes "inbox t = MsgText ''Apply: Ok'' # ms"
  shows "round_config ex_env idle_test gateway c t = (Ok idle_config, t\<lparr>inbox := ms\<rparr>)"
    and "round_old_config ex_env idle_test gateway idle_config t = (Ok idle_config, t\<lparr>inbox := ms\<rparr>)"
    and "round_partial ex_env idle_test gateway 10 0 (\<lambda>_. []) idle_config t = (Ok idle_config, t\<lparr>inbox := ms\<rparr>)"
    and "round_partial ex_env idle_test gateway 0 10 (\<lambda>c. map fst (bt_iter c)) idle_config t = (Ok bt_empty, t\<lparr>inbox := ms\<rparr>)"
    and "round_partial ex_env idle_test gateway 0 10 (\<lambda>c. map fst (bt_iter c)) bt_empty t = (Ok bt_empty, t\<lparr>inbox := ms\<rparr>)"
proof -
  have keys: "map fst (bt_iter idle_config) = [59999]" by (simp add: idle_config_def)
  note run = bind_io_def then_io_def run_simps verify_with_def on_test_def zoom_def idle_apply [OF assms] idle_verify idle_ops
  show "round_config ex_env idle_test gateway c t = (Ok idle_config, t\<lparr>inbox := ms\<rparr>)"
    by (simp add: round_config_def idle_generate run)
  show "round_old_config ex_env idle_test gateway idle_config t = (Ok idle_config, t\<lparr>inbox := ms\<rparr>)"
    by (simp add: round_old_config_def idle_generate run)
  show "round_partial ex_env idle_test gateway 10 0 (\<lambda>_. []) idle_config t = (Ok idle_config, t\<lparr>inbox := ms\<rparr>)"
    by (simp add: round_partial_def idle_partial_add idle_merge run)
  show "round_partial ex_env idle_test gateway 0 10 (\<lambda>c. map fst (bt_iter c)) idle_config t = (Ok bt_empty, t\<lparr>inbox := ms\<rparr>)"
    by (simp add: round_partial_def keys idle_partial_remove idle_merge run)
  show "round_partial ex_env idle_test gateway 0 10 (\<lambda>c. map fst (bt_iter c)) bt_empty t = (Ok bt_empty, t\<lparr>inbox := ms\<rparr>)"
    by (simp add: round_partial_def idle_partial_remove idle_merge run)
qed

lemma rounds_3: "rounds 3 body x = bind_io (body x) (\<lambda>x. bind_io (body x) (\<lambda>x. bind_io (body x) ret))"
proof -
  have "rounds 0 body = ret" "rounds (Suc k) body = (\<lambda>x. bind_io (body x) (rounds k body))" for k
    by (simp_all add: fun_eq_iff)
  then show ?thesis by (simp add: numeral_3_eq_3)
qed

lemma idle_run_tests:
  "run_tests ex_env idle_test gateway ex_test_start = (Ok (), ex_test_start\<lparr>inbox := [MsgOther]\<rparr>)"
proof -
  have 14: "replicate 14 x = [x, x, x, x, x, x, x, x, x, x, x, x, x, x]" for x :: test_msg
    by (simp add: numeral_eq_Suc)
  show ?thesis
    unfolding run_tests_def rounds_3 ex_test_start_def 14
    by (simp add: then_io_def bind_io_def run_simps idle_apply idle_rounds)
qed

end
