(* ===== verification/Daemon_Instance.thy ===== *)
theory Daemon_Instance
  imports Runtime_Instance
begin

text \<open>
  A running program: the simulated host of \<open>Kernel_Instance\<close> with the example statistics, channels that
  keep their laws and a connection that collects the messages. It has a run in which start-up succeeds, a
  connection is opened and the watchdog polls.
\<close>

definition ex_parts :: "(sim, traffic_info bc, gateway_event bc, string list) parts" where
  "ex_parts = \<lparr>p_env = ex_env,
     p_now = (\<lambda>x. (Ok (1020 * ns_per_sec), x)),
     p_stats = (\<lambda>ns wg x. case ex_script ns 1020 of
         None \<Rightarrow> (Err (Msg ''Unable to access interface''), x)
       | Some st \<Rightarrow> (Ok st, x)),
     p_ws = mem_conn, p_traffic = bc_channel, p_events = bc_channel\<rparr>"

lemma ex_parts_simps [simp]: "p_env ex_parts = ex_env" "p_ws ex_parts = mem_conn"
  "p_traffic ex_parts = bc_channel" "p_events ex_parts = bc_channel"
  by (simp_all add: ex_parts_def)

lemma ex_netns_list: "netns_list ex_env x = (Ok (map (\<lambda>n. \<lparr>netns_item_name = n, netns_item_id = None\<rparr>) (s_netns x)), x)"
  by (simp add: ex_env_def sim_env_def query_def)

interpretation ex_daemon: daemon_system ex_parts bc_hist bc_cursor bc_cap bc_hist bc_cursor bc_cap "\<lambda>c. c" ex_netkey
proof (intro daemon_system.intro daemon_system_axioms.intro)
  show "broadcast (p_traffic ex_parts) bc_hist bc_cursor bc_cap" "broadcast (p_events ex_parts) bc_hist bc_cursor bc_cap"
    by (simp_all add: bc.broadcast_axioms)
  show "open_connection (p_ws ex_parts) (\<lambda>c. c)" by (simp add: mem.open_connection_axioms)
  fix ns wg :: string and x x' :: sim and stats :: network_stats and peer :: peer_stats
  show "\<exists>t x'. p_now ex_parts x = (Ok t, x') \<and> 0 \<le> t" by (simp add: ex_parts_def ns_per_sec_def)
  show "fst (netns_list (p_env ex_parts) x) \<noteq> Panic" by (simp add: ex_netns_list)
  show "fst (p_stats ex_parts ns wg x) \<noteq> Panic" by (simp add: ex_parts_def split: option.splits)
  show "prof (p_env ex_parts) = Release" "inj ex_netkey" by (simp_all add: ex_netkey_inj)
  assume "p_stats ex_parts ns wg x = (Ok stats, x')"
  then have st: "ex_script ns 1020 = Some stats" by (simp add: ex_parts_def split: option.splits)
  then show "nst_public_key stats = ex_netkey (nst_listen_port stats)" by (auto simp: ex_script_def split: if_splits)
  show "peer \<in> set (nst_peers stats) \<Longrightarrow> reportable peer"
    using st by (auto simp: ex_script_def ex_peer_def reportable_def split: if_splits)
qed

text \<open>The states of the run: started, connected, and after a poll of a host without networks.\<close>

definition ex_host :: sim where
  "ex_host = sim_empty\<lparr>s_files := [NGINX_MODULE_PATH \<mapsto> []]\<rparr>"

abbreviation ex_begin :: "(sim, traffic_info bc, gateway_event bc, string list) daemon" where
  "ex_begin \<equiv> daemon_start ex_parts ex_host []"

definition ex_online :: "(sim, traffic_info bc, gateway_event bc, string list) daemon" where
  "ex_online = daemon_connect ex_parts (daemon_startup ex_parts ex_begin)"

lemma ex_startup: "daemon_startup ex_parts ex_begin = ex_begin\<lparr>dm_link := Offline\<rparr>"
proof -
  have "startup ex_env ex_host = (Ok (), ex_host)"
    by (simp add: startup_def bind_io_def run_simps when_io_def ex_env_def sim_env_def query_def ex_host_def)
  then show ?thesis
    by (simp add: daemon_startup_def run_on_host context_io_def daemon_start_def put_shared_def)
qed

lemma ex_online_simps: "dm_link ex_online = Online 1 1" "dm_sock ex_online = []"
  "wd_cache (dm_wd ex_online) = bt_empty"
  "dm_shared ex_online = \<lparr>sh_host = ex_host,
     sh_traffic = \<lparr>bc_hist = [], bc_cursors = [(1, 0)], bc_cap = 16\<rparr>,
     sh_events = \<lparr>bc_hist = [], bc_cursors = [(1, 0)], bc_cap = 16\<rparr>\<rparr>"
  unfolding ex_online_def ex_startup
  by (simp_all add: daemon_connect_def open_socket_def options_global_def mem_conn_def
      bind_io_def run_simps daemon_start_def bc_channel_def fresh_id_def Let_def
      BROADCAST_QUEUE_EVENTS_def BROADCAST_QUEUE_TRAFFIC_def)

lemma ex_reach_online: "(daemon_step ex_parts bc_hist)\<^sup>*\<^sup>* (history_start [], ex_begin) (history_start [], ex_online)"
proof -
  have 1: "daemon_step ex_parts bc_hist (history_start [], ex_begin) (history_start [], daemon_startup ex_parts ex_begin)"
    by (rule daemon_step.started) (simp add: daemon_start_def)
  have 2: "daemon_step ex_parts bc_hist (history_start [], daemon_startup ex_parts ex_begin)
      ((history_start [])\<lparr>h_start := length (bc_hist (sh_events (dm_shared (daemon_startup ex_parts ex_begin)))),
         h_sock := dm_sock ex_online\<rparr>, ex_online)"
    by (rule daemon_step.connected) (simp_all add: ex_startup ex_online_def)
  have 3: "(history_start [])\<lparr>h_start := length (bc_hist (sh_events (dm_shared (daemon_startup ex_parts ex_begin)))),
      h_sock := dm_sock ex_online\<rparr> = history_start []"
    unfolding ex_startup by (simp add: ex_online_simps history_start_def daemon_start_def bc_channel_def)
  let ?step = "daemon_step ex_parts bc_hist"
  show ?thesis
    using converse_rtranclp_into_rtranclp [of ?step, OF 1 r_into_rtranclp [of ?step, OF 2]] unfolding 3 .
qed

text \<open>The watchdog's next run succeeds and leaves one traffic report waiting.\<close>

lemma ex_poll:
  obtains w where "watchdog_run (parts_wd ex_parts) (dm_wd ex_online) = (Ok (), w)"
    and "sh_events (wd_sys w) = sh_events (dm_shared ex_online)"
    and "bc_cursors (sh_traffic (wd_sys w)) = [(1, 0)]" and "length (bc_hist (sh_traffic (wd_sys w))) = 1"
proof -
  have "netns_list ex_env ex_host = (Ok [], ex_host)" by (simp add: ex_netns_list ex_host_def sim_empty_def)
  then have "\<exists>w. watchdog_run (parts_wd ex_parts) (dm_wd ex_online) = (Ok (), w) \<and>
      sh_events (wd_sys w) = sh_events (dm_shared ex_online) \<and>
      bc_cursors (sh_traffic (wd_sys w)) = [(1, 0)] \<and> length (bc_hist (sh_traffic (wd_sys w))) = 1"
    by (simp add: watchdog_run_def context_io_def wd_do_def zoom_def parts_simps bind_io_def then_io_def run_simps
        ex_online_simps bc_channel_def)
  then show thesis using that by blast
qed

end
