(* ===== verification/Spec2Isabelle.thy ===== *)
theory Spec2Isabelle
  imports Integration_Instance Daemon_Instance
begin

text \<open>
  \<^bold>\<open>A verification development for the gateway daemon.\<close>

  \<^bold>\<open>The program.\<close> The gateway runs WireGuard networks for a manager. It connects to the manager over a
  WebSocket (\<^verbatim>\<open>src/websocket.rs\<close>), receives configurations and partial configurations, and brings the host
  into the configured state (\<^verbatim>\<open>src/gateway.rs\<close>): per network a namespace, a WireGuard interface, a veth
  pair on a common bridge and a table of packet filter rules, and one NGINX configuration for all. Names,
  addresses, rule contexts, forwarding tables and the parsers of WireGuard's statistics are in
  \<^verbatim>\<open>src/types.rs\<close>; the data exchanged with the manager and the traffic accounting in the client crate
  (\<^verbatim>\<open>client/src/lib.rs\<close>). A watchdog task (\<^verbatim>\<open>src/watchdog.rs\<close>) polls the statistics and sends events and
  traffic reports over broadcast channels, which the connection passes on. \<^verbatim>\<open>src/lib.rs\<close> holds the options
  and starts everything. \<^verbatim>\<open>integration/src/main.rs\<close> is a test program that plays the manager.

  \<^bold>\<open>How it is modelled.\<close> Results are values of \<open>'a res\<close> (\<open>Ok\<close>, \<open>Err\<close>, and \<open>Panic\<close> for \<open>unwrap\<close>, \<open>assert!\<close>, slicing
  out of range and overflow in builds with checks). An operation on a state \<open>'s\<close> is an \<open>('s, 'a) io\<close>, a
  function from the state to a result and the state after it; it keeps the changes made before an error. Machine
  integers are words; arithmetic takes the build profile (\<open>Debug\<close> checks overflow, \<open>Release\<close> wraps).
  \<open>BTreeMap\<close> is a sorted map type. Code that is not in the repository is a parameter: the crates the
  code computes with (record \<open>libs\<close>), the networking wrappers, file system and template engine (record
  \<open>env\<close>), the clock, statistics and channels of the watchdog (\<open>wd_env\<close>), the WebSocket and JSON codec
  (\<open>ws_env\<close>), the broadcast channels (\<open>channel\<close>), the command-line parser (\<open>clap\<close>), and the test's random generator, sockets and commands (\<open>test_env\<close>). What the theorems need of
  them is stated as locales, each interpreted on a concrete instance.

  \<^bold>\<open>Theories.\<close>
  \<^item> \<open>Prelude\<close>, \<open>Rust_Std\<close>, \<open>BTreeMap\<close>: results, effects and loops with their rules; checked arithmetic,
    decimal text, string splitting; the map interface (locale) and its implementation by sorted lists.
  \<^item> \<open>Libs\<close>, \<open>Net_Text\<close>, \<open>Libs_Instance\<close>: the value types and functions of the third-party crates, their laws,
    IPv4 text, and one instance (\<open>std_libs\<close>) that satisfies all laws.
  \<^item> \<open>Client\<close>, \<open>Client_Props\<close>: \<^verbatim>\<open>client/src/lib.rs\<close>; merging partial configurations, and the traffic report
    against the log of samples (sums, consistency, overflow).
  \<^item> \<open>Types\<close>, \<open>Types_Props\<close>, \<open>Stats_Props\<close>, \<open>Wg_Config\<close>, \<open>Forwarding\<close>: \<^verbatim>\<open>src/types.rs\<close>; distinct names and
    addresses, port numbering, forwarding tables, the statistics parser against \<^verbatim>\<open>wg\<close>'s dump format, and the
    WireGuard configuration text against a reader of its format.
  \<^item> \<open>Gateway\<close>: \<^verbatim>\<open>src/gateway.rs\<close>, every function with its calls in order. \<open>Iptables\<close>, \<open>Templates\<close>: what
    \<open>clean_iptables\<close> compares, and the three templates of \<^verbatim>\<open>templates/\<close> as text.
  \<^item> \<open>Kernel\<close>: the observable configuration of a host (\<open>kern\<close>), the laws of the wrappers (locale \<open>linux\<close>) and
    the specification of each step. \<open>Gateway_Refine\<close>: every function refines its specification.
    \<open>Gateway_Converge\<close>, \<open>Gateway_Apply\<close>, \<open>Gateway_Partial\<close>: whole configurations and partial ones.
    \<open>Kernel_Instance\<close>: a simulated host that satisfies the laws.
  \<^item> \<open>Watchdog\<close>, \<open>Watchdog_Props\<close>, \<open>Watchdog_Frame\<close>, \<open>Watchdog_Events\<close>, \<open>Watchdog_Sync\<close>: \<^verbatim>\<open>src/watchdog.rs\<close>; what a
    run leaves alone, timeout, traffic and events of a poll, and that the events sent agree with the cache.
    \<open>Watchdog_Task\<close>: the task that restarts the watchdog, as a step relation interleaved with changes of the
    world, its invariant and progress.
  \<^item> \<open>Runtime\<close>, \<open>Runtime_Props\<close>, \<open>Runtime_Instance\<close>: \<^verbatim>\<open>src/lib.rs\<close>, \<^verbatim>\<open>src/main.rs\<close> and \<^verbatim>\<open>src/websocket.rs\<close>;
    command line, answers, shutdown, start-up, and example environments for the watchdog and the connection.
  \<^item> \<open>Broadcast\<close>: the broadcast channels between the tasks, their laws (locale \<open>broadcast\<close>) and an instance.
    \<open>Daemon_Model\<close>: the running program, a step relation over the shared host and channels in which the
    watchdog's runs and the turns of the connection interleave. \<open>Daemon\<close>: its invariant. \<open>Daemon_Props\<close>: what
    the manager knows, falling behind and catching up. \<open>Daemon_Instance\<close>: an example run.
  \<^item> \<open>Integration\<close>, \<open>Integration_Props\<close>, \<open>Integration_Verify\<close>, \<open>Integration_Instance\<close>:
    \<^verbatim>\<open>integration/src/main.rs\<close>; the generated configurations are valid, the connectivity checks decide what they
    claim, and what a passing run has seen; an example test host.

  \<^bold>\<open>Loops.\<close> Loops over collections are structural recursion. The endless loops of the program are given the
  part of their input they have consumed: \<open>watchdog_ticks\<close> the number of ticks, \<open>serve\<close> the inputs \<open>select!\<close>
  took (in whatever order the run-time chose), \<open>connect\<close> the inputs of each attempt. The theorems hold for every
  such number or sequence, so no bound is chosen.

  In the running program (\<open>daemon_step\<close>) a run of the watchdog, a turn of the connection's loop and the opening
  of a connection are each one step: the two tasks share nothing but the channels and the host, and the
  host may change between any two steps.

  \<^bold>\<open>Not modelled.\<close> Logging; how \<^verbatim>\<open>structopt\<close> collects the values of the command line, which is a
  parameter; the serde encodings, which are the parameters \<open>request_from_str\<close> and \<open>response_to_string\<close>; the
  schema feature of the client crate; build scripts and container files. The mutexes are not a state of
  their own: the configuration lock makes \<open>apply\<close> and \<open>apply_partial\<close> exclusive, which is what running them
  as one operation on the gateway's state says, and only the connection's task ever takes the locks.
\<close>

section \<open>Applying a configuration\<close>

text \<open>
  C1. \<open>apply\<close> brings a lawful system into the configured state. From any state in which the gateway's
  veth interfaces come in pairs, and for any configuration whose networks the system accepts, it
  returns without error, stores the configuration, leaves every network fully set up (namespace,
  WireGuard interface with its MTU, addresses and configuration, veth pair on the bridge, packet
  filter rules), exactly these namespaces of the gateway, the bridge up, and NGINX running on the
  rendered files; and the pairing holds again, so the next application may rely on it.
\<close>

theorem gateway_apply_converges:
  assumes "gateway_system E view mtu0 ipt0 canon accepts nginx_ok"
    and "\<forall>n \<in> set (networks_of config). net_valid E accepts n"
    and "nginx_config E (networks_of config) = Ok (m, st)" and "nginx_ok (Some m, Some st)"
    and "links_ok (view (gw_sys g))"
  shows "\<exists>s'. gateway_apply E config g = (Ok (), g\<lparr>gw_config := config, gw_sys := s'\<rparr>) \<and>
     all_applied E canon m st (networks_of config) (view s') \<and> links_ok (view s')"
proof -
  have paired: "veth_paired (view (gw_sys g))" using assms(5) by (simp add: links_ok_def)
  obtain s' where "gateway_apply E config g = (Ok (), g\<lparr>gw_config := config, gw_sys := s'\<rparr>)"
    "view s' = spec_nginx m st (spec_networks E mtu0 ipt0 canon (networks_of config) (view (gw_sys g)))"
    using gateway_system.gateway_apply_moves [OF assms(1-4) paired] by blast
  then show ?thesis
    by (intro exI [of _ s'])
      (simp add: all_applied_spec [OF paired networks_of_distinct] links_ok_networks [OF assms(5)])
qed

theorem gateway_apply_converges_witness:
  "\<exists>s' m st. gateway_apply ex_env ex_config ex_gateway = (Ok (), ex_gateway\<lparr>gw_config := ex_config, gw_sys := s'\<rparr>) \<and>
     all_applied ex_env (clean_iptables std_libs) m st (networks_of ex_config) (sim_view s')"
  by (rule ex_ready) (use gateway_apply_converges [OF ex_system] in blast)

text \<open>
  C2. Applying the same configuration twice changes nothing: the second application succeeds and
  leaves the observable configuration of the system as the first one left it.
\<close>

theorem gateway_apply_idempotent:
  assumes "gateway_system E view mtu0 ipt0 canon accepts nginx_ok"
    and "\<forall>n \<in> set (networks_of config). net_valid E accepts n"
    and "nginx_config E (networks_of config) = Ok (m, st)" and "nginx_ok (Some m, Some st)"
    and "veth_paired (view (gw_sys g))"
    and "gateway_apply E config g = (Ok (), g')"
  shows "\<exists>s''. gateway_apply E config g' = (Ok (), g'\<lparr>gw_sys := s''\<rparr>) \<and> view s'' = view (gw_sys g')"
proof -
  let ?spec = "\<lambda>K. spec_nginx m st (spec_networks E mtu0 ipt0 canon (networks_of config) K)"
  note run = gateway_system.gateway_apply_moves [OF assms(1-4)]
  have g': "gw_config g' = config" "view (gw_sys g') = ?spec (view (gw_sys g))"
    using run [OF assms(5)] assms(6) by auto
  have paired: "veth_paired (view (gw_sys g'))" using veth_paired_networks [OF assms(5)] by (simp add: g')
  have stable: "?spec (view (gw_sys g')) = view (gw_sys g')"
    unfolding g'(2) by (rule spec_fix [OF all_applied_spec [OF assms(5) networks_of_distinct]])
  obtain s'' where s'': "gateway_apply E config g' = (Ok (), g'\<lparr>gw_config := config, gw_sys := s''\<rparr>)"
      "view s'' = ?spec (view (gw_sys g'))"
    using run [OF paired] by blast
  have "gateway_apply E config g' = (Ok (), g'\<lparr>gw_sys := s''\<rparr>)" using s''(1) g'(1) by (cases g') simp
  then show ?thesis using s''(2) stable by auto
qed

theorem gateway_apply_idempotent_witness:
  "\<exists>g' s''. gateway_apply ex_env ex_config ex_gateway = (Ok (), g') \<and>
     gateway_apply ex_env ex_config g' = (Ok (), g'\<lparr>gw_sys := s''\<rparr>) \<and> sim_view s'' = sim_view (gw_sys g')"
proof (rule ex_ready)
  fix m st
  assume v: "\<forall>n \<in> set (networks_of ex_config). net_valid ex_env (\<lambda>_. True) n"
    and cfg: "nginx_config ex_env (networks_of ex_config) = Ok (m, st)"
    and l: "links_ok (sim_view (gw_sys ex_gateway))"
  then have p: "veth_paired (sim_view (gw_sys ex_gateway))" by (simp add: links_ok_def)
  obtain g' where g': "gateway_apply ex_env ex_config ex_gateway = (Ok (), g')"
    using gateway_system.gateway_apply_moves [OF ex_system v cfg TrueI p] by blast
  with gateway_apply_idempotent [OF ex_system v cfg TrueI p g'] show ?thesis by blast
qed

text \<open>
  C3. \<open>apply\<close> removes exactly the namespaces of the gateway that the configuration does not name:
  every namespace without the gateway's prefix stays, with its packet filter rules and files.
\<close>

theorem gateway_apply_foreign:
  assumes "gateway_system E view mtu0 ipt0 canon accepts nginx_ok"
    and "\<forall>n \<in> set (networks_of config). net_valid E accepts n"
    and "nginx_config E (networks_of config) = Ok (m, st)" and "nginx_ok (Some m, Some st)"
    and "veth_paired (view (gw_sys g))"
  shows "\<exists>s'. gateway_apply E config g = (Ok (), g\<lparr>gw_config := config, gw_sys := s'\<rparr>) \<and>
     k_netns (view s') = {ns \<in> k_netns (view (gw_sys g)). \<not> starts_with NETNS_PREFIX ns} \<union>
       netns_name ` set (networks_of config) \<and>
     (\<forall>ns. \<not> starts_with NETNS_PREFIX ns \<longrightarrow> k_ipt (view s') ns = k_ipt (view (gw_sys g)) ns \<and>
       (\<forall>f. k_nsfiles (view s') (ns, f) = k_nsfiles (view (gw_sys g)) (ns, f)))"
proof -
  obtain s' where "gateway_apply E config g = (Ok (), g\<lparr>gw_config := config, gw_sys := s'\<rparr>)"
    "view s' = spec_nginx m st (spec_networks E mtu0 ipt0 canon (networks_of config) (view (gw_sys g)))"
    using gateway_system.gateway_apply_moves [OF assms] by blast
  then show ?thesis by (auto simp: spec_networks_netns spec_networks_foreign)
qed

theorem gateway_apply_foreign_witness:
  "\<exists>s'. gateway_apply ex_env ex_config ex_gateway = (Ok (), ex_gateway\<lparr>gw_config := ex_config, gw_sys := s'\<rparr>) \<and>
     k_netns (sim_view s') = {netns_name (ex_net 5000)}"
proof (rule ex_ready)
  fix m st
  assume v: "\<forall>n \<in> set (networks_of ex_config). net_valid ex_env (\<lambda>_. True) n"
    and cfg: "nginx_config ex_env (networks_of ex_config) = Ok (m, st)"
    and l: "links_ok (sim_view (gw_sys ex_gateway))"
  then have p: "veth_paired (sim_view (gw_sys ex_gateway))" by (simp add: links_ok_def)
  show ?thesis
    using gateway_apply_foreign [OF ex_system v cfg TrueI p]
    by (auto simp: ex_networks ex_gateway_def global_start_def sim_empty_def)
qed

text \<open>
  C4. \<open>apply_partial\<close>, for networks filed under their own ports: on a system that is set up for the
  stored configuration it succeeds, stores the merge of the stored and the partial configuration
  (the merge the client crate computes), and leaves the system set up for the merged configuration.
\<close>

theorem apply_partial_converges:
  assumes "gateway_system E view mtu0 ipt0 canon accepts nginx_ok"
    and "well_keyed (gw_config g)" and "well_keyed_partial d"
    and "all_applied E canon m0 st0 (networks_of (gw_config g)) (view (gw_sys g))" and "links_ok (view (gw_sys g))"
    and "\<forall>p n. bt_get d p = Some (Some n) \<longrightarrow> net_valid E accepts n"
    and "nginx_config E (networks_of (config_apply_partial (gw_config g) d)) = Ok (m, st)"
    and "nginx_ok (Some m, Some st)"
  shows "\<exists>s'. apply_partial E d g =
       (Ok (), g\<lparr>gw_config := config_apply_partial (gw_config g) d, gw_sys := s'\<rparr>) \<and>
     all_applied E canon m st (networks_of (config_apply_partial (gw_config g) d)) (view s') \<and> links_ok (view s')"
  by (rule gateway_system.apply_partial_all_applied [OF assms])

theorem apply_partial_converges_witness:
  "\<exists>g s' m st. gw_config g = ex_config \<and> apply_partial ex_env ex_partial g =
       (Ok (), g\<lparr>gw_config := bt_insert 6000 (ex_net 6000) bt_empty, gw_sys := s'\<rparr>) \<and>
     all_applied ex_env (clean_iptables std_libs) m st (networks_of (bt_insert 6000 (ex_net 6000) bt_empty)) (sim_view s')"
proof (rule ex_applied, rule ex_partial_ready)
  fix g :: "sim gateway" and m0 st0 m st
  assume g: "gw_config g = ex_config"
      "all_applied ex_env (clean_iptables std_libs) m0 st0 (networks_of (gw_config g)) (sim_view (gw_sys g))"
      "links_ok (sim_view (gw_sys g))"
    and k: "well_keyed ex_config" "well_keyed_partial ex_partial"
    and v: "\<forall>p n. bt_get ex_partial p = Some (Some n) \<longrightarrow> net_valid ex_env (\<lambda>_. True) n"
    and cfg: "nginx_config ex_env (networks_of (config_apply_partial ex_config ex_partial)) = Ok (m, st)"
  from k(1) cfg have "well_keyed (gw_config g)"
      "nginx_config ex_env (networks_of (config_apply_partial (gw_config g) ex_partial)) = Ok (m, st)"
    by (simp_all add: g(1))
  from apply_partial_converges [OF ex_system this(1) k(2) g(2,3) v this(2) TrueI] show ?thesis
    by (intro exI [of _ g]) (auto simp: g(1) ex_partial_merge)
qed

section \<open>The watchdog\<close>





text \<open>
  C7. The traffic reported for a peer over a series of polls in a release build, each poll in its own
  report, adds up to the growth of its counters from the first to the last poll, as long as the
  counters do not shrink and no single growth of both together reaches \<open>2 ^ 64\<close>.
\<close>

theorem traffic_reports_telescope:
  assumes "monotone_polls d previous polls"
  shows "\<exists>tis. poll_reports net previous polls = Ok tis \<and>
     sum_list (map (\<lambda>ti. rx (report_of ti net d)) tis) =
       pst_transfer_rx (last (previous # map snd polls)) - pst_transfer_rx previous \<and>
     sum_list (map (\<lambda>ti. tx (report_of ti net d)) tis) =
       pst_transfer_tx (last (previous # map snd polls)) - pst_transfer_tx previous"
  using poll_reports_telescope [OF assms] .

theorem traffic_reports_telescope_witness:
  "\<exists>tis. poll_reports (ex_netkey 5000) (ex_peer 1020) [(1080, ex_peer 1080), (1140, ex_peer 1140)] = Ok tis \<and>
     sum_list (map (\<lambda>ti. rx (report_of ti (ex_netkey 5000) ex_peer_key)) tis) = 1000"
  using traffic_reports_telescope [of ex_peer_key "ex_peer 1020" "[(1080, ex_peer 1080), (1140, ex_peer 1140)]"
      "ex_netkey 5000"]
  by (auto simp: ex_peer_def grows_def visible_growth_def)

text \<open>
  C8. In a build with overflow checks the watchdog panics as soon as a counter of a known peer has
  grown: it subtracts the new counters from the old ones to decide whether there was traffic.
  Otherwise it records nothing.
\<close>

theorem record_traffic_debug_panics:
  "record_traffic Debug net previous peer time ti =
     (if grows previous peer \<and>
         (pst_transfer_rx previous < pst_transfer_rx peer \<or> pst_transfer_tx previous < pst_transfer_tx peer)
      then Panic else Ok ti)"
  by (rule record_traffic_Debug)

text \<open>
  C9. Without a subscriber to the traffic channel every run of the watchdog fails, after which \<open>watchdog\<close>
  returns and its cache is lost; and nothing is ever sent on a channel without a subscriber.
\<close>

theorem watchdog_unattended:
  assumes "watchdog_system W events sent listening watching" and "\<not> watching (wd_sys w)"
  shows "fst (watchdog W (Suc n) w) \<noteq> Ok () \<and>
     (\<not> listening (wd_sys w) \<longrightarrow> events (wd_sys (snd (watchdog W (Suc n) w))) = events (wd_sys w)) \<and>
     sent (wd_sys (snd (watchdog W (Suc n) w))) = sent (wd_sys w)"
proof -
  let ?w = "w\<lparr>wd_cache := bt_empty\<rparr>"
  have "fst (watchdog_run W ?w) \<noteq> Ok ()"
    using assms(2) by (intro watchdog_system.watchdog_run_unattended [OF assms(1)]) simp
  moreover obtain r w' where run: "watchdog_run W ?w = (r, w')" by fastforce
  moreover have "watchdog W (Suc n) w = then_io (watchdog_run W) (watchdog_ticks W n) ?w"
    by (simp add: watchdog_def then_io_def bind_io_def)
  ultimately have "watchdog W (Suc n) w = (r, w')" "r \<noteq> Ok ()"
    by (cases r; simp add: then_io_def bind_io_def)+
  then show ?thesis using watchdog_system.watchdog_run_channels(3,4) [OF assms(1) run] assms(2) by auto
qed

theorem watchdog_unattended_witness:
  "fst (watchdog (wsim_env ex_script) 1 (wsim_start False)) \<noteq> Ok () \<and>
     w_events (wd_sys (snd (watchdog (wsim_env ex_script) 1 (wsim_start False)))) = []"
  using watchdog_unattended [OF wsim.watchdog_system_axioms, of "wsim_start False" ex_script 0]
  by (simp add: wsim_start_def)

text \<open>
  C10. A handshake counts as alive exactly while it is not in the future and less than 181 seconds old:
  the age is compared in whole seconds with a timeout of 180.
\<close>

theorem handshake_timeout:
  "expire_handshake t h = Some h' \<longleftrightarrow> h = Some h' \<and> h' \<le> t \<and> t < h' + 181 * ns_per_sec"
  by (rule expire_handshake_Some)

section \<open>Traffic accounting\<close>

text \<open>
  C11. The traffic report is right for the samples it was fed: as long as the total of each direction
  stays below \<open>2 ^ 64\<close>, adding any samples succeeds in both build profiles, and afterwards the totals
  of the report, of every network and of every device are the sums of their samples, exactly the
  sampled networks and devices have an entry, and every time has the last sample recorded for it.
\<close>

theorem traffic_report_correct:
  assumes "fits (map sample_traffic log)"
  shows "\<exists>ti. add_samples p (traffic_info_new start) log = Ok ti \<and> info_ok ti log"
proof -
  obtain ti where "add_samples p (traffic_info_new start) log = Ok ti"
    using add_samples_fits [OF info_ok_new, of log p start] assms by auto
  with info_ok_add_samples [OF info_ok_new this] show ?thesis by auto
qed

theorem traffic_report_correct_witness:
  "\<exists>ti. add_samples Debug (traffic_info_new 0) [(ex_netkey 1, ex_peer_key, 7, traffic_new 5 6),
       (ex_netkey 1, ex_peer_key, 9, traffic_new 1 1)] = Ok ti \<and>
     info_ok ti [(ex_netkey 1, ex_peer_key, 7, traffic_new 5 6), (ex_netkey 1, ex_peer_key, 9, traffic_new 1 1)]"
  by (rule traffic_report_correct) (simp add: fits_def traffic_new_def)

text \<open>
  C12. With overflow checks adding samples panics exactly when a total would reach \<open>2 ^ 64\<close>; without
  them it never fails, and the totals are the sums modulo \<open>2 ^ 64\<close>.
\<close>

theorem traffic_report_overflow:
  "(add_samples Debug (traffic_info_new start) log = Panic \<longleftrightarrow> \<not> fits (map sample_traffic log)) \<and>
   (\<exists>ti. add_samples Release (traffic_info_new start) log = Ok ti \<and> info_ok ti log)"
proof (intro conjI iffI)
  assume "add_samples Debug (traffic_info_new start) log = Panic"
  then show "\<not> fits (map sample_traffic log)"
    using add_samples_fits [OF info_ok_new, of log Debug start] by auto
next
  assume "\<not> fits (map sample_traffic log)"
  then show "add_samples Debug (traffic_info_new start) log = Panic"
    using add_samples_Debug_Panic [OF info_ok_new, of log start] by (simp add: fits_def)
next
  show "\<exists>ti. add_samples Release (traffic_info_new start) log = Ok ti \<and> info_ok ti log"
    using add_samples_Release [of "traffic_info_new start" log] info_ok_add_samples [OF info_ok_new]
    by fastforce
qed

text \<open>
  C13. In every report the total is the sum over its networks and every network's total the sum over
  its devices: a new report is consistent and every addition keeps it so.
\<close>

theorem traffic_report_consistent:
  "info_consistent (traffic_info_new start) \<and>
   (info_consistent ti \<longrightarrow> traffic_info_add p ti n d time t = Ok ti' \<longrightarrow> info_consistent ti')"
  using info_consistent_new traffic_info_add_consistent by blast

theorem traffic_report_consistent_witness:
  "info_consistent (traffic_info_new 0) \<and>
   (\<exists>ti'. traffic_info_add Debug (traffic_info_new 0) (ex_netkey 1) ex_peer_key 7 (traffic_new 5 6) = Ok ti' \<and>
     info_consistent ti')"
proof -
  obtain ti' where "traffic_info_add Debug (traffic_info_new 0) (ex_netkey 1) ex_peer_key 7 (traffic_new 5 6) = Ok ti'"
    by (simp add: traffic_info_add_def network_traffic_add_def device_traffic_add_def traffic_info_new_def
        traffic_add_assign_def traffic_default_def traffic_new_def add_ck_def bt_or_def network_traffic_default_def
        device_traffic_default_def)
  then show ?thesis using traffic_report_consistent by blast
qed

section \<open>Configuration and forwarding\<close>

text \<open>
  C14. Merging a partial configuration replaces or removes exactly the ports it names, keeps all
  others, and merging it again changes nothing.
\<close>

theorem config_merge:
  "bt_get (config_apply_partial c d) port =
     (case bt_get d port of None \<Rightarrow> bt_get c port | Some entry \<Rightarrow> entry) \<and>
   config_apply_partial (config_apply_partial c d) d = config_apply_partial c d"
  by (simp add: overlay_def config_apply_partial_idem)

text \<open>
  C15. The forwarding tables built for NGINX: whenever the networks' port mappings do not overflow,
  building succeeds; the tables are well formed (every forwarded host has an upstream of its own with
  a server, and every upstream a host), and every host gets, under each scheme, exactly the sockets of
  the networks' mappings in order, reached over the network's own bridge address, followed by those
  of the custom forwardings.
\<close>

theorem forwarding_routes:
  assumes "fwd_net_laws L" and "\<forall>n \<in> set networks. length (proxy_targets n) \<le> 63536"
  shows "\<exists>f. build_forwarding L p networks custom = Ok f \<and> fwd_ok L f \<and>
     (\<forall>h. https_servers f h = routed L ''https'' h (all_routes networks custom) \<and>
          http_servers f h = routed L ''http'' h (all_routes networks custom))"
proof -
  have "\<forall>n \<in> set networks. port_mappings p n = Ok (mapped n)" using assms(2) port_mappings_Ok by blast
  from fwd_net_laws.build_forwarding_step [OF assms(1) this, of custom] show ?thesis
    by (auto simp: fwd_step_def)
qed

theorem forwarding_routes_witness:
  "\<exists>f. build_forwarding std_libs Debug [ex_net 5000] (opt_custom_forwarding ex_opts) = Ok f \<and>
     https_servers f ''app.example.com'' = [SockV4 0xAC631388 2000, SockV4 0xAC631388 2001] \<and>
     https_servers f ''custom.example.com'' = [SockV4 0x7F000001 8000]"
proof -
  have net: "network_routes (ex_net 5000) = [(ex_url, SockV4 0xAC631388 2000), (ex_url, SockV4 0xAC631388 2001)]"
    by (simp add: network_routes_def mapped_def ex_targets mapping_port_def PORT_MAPPING_START_def)
      (simp add: ex_net_def)
  have "\<forall>n \<in> set [ex_net 5000]. length (proxy_targets n) \<le> 63536" by (simp add: ex_targets)
  from forwarding_routes [OF std_fwd.fwd_net_laws_axioms this, of Debug "opt_custom_forwarding ex_opts"]
  show ?thesis
    by (auto simp: routed_def all_routes_def net ex_opts_def ex_url_def std_libs_def scheme_of_def host_of_def)
qed

text \<open>
  C16. Port mappings: the targets of a network's URLs are numbered from 2000 in the order of the
  configuration, and the ports are distinct up to 65536 targets. With overflow checks more than 63536
  targets panic; without them the numbering wraps.
\<close>

theorem port_mappings_numbering:
  "port_mappings Release n = Ok (mapped n) \<and>
   port_mappings Debug n = (if length (proxy_targets n) \<le> 63536 then Ok (mapped n) else Panic) \<and>
   map (\<lambda>(url, _, addr). (url, addr)) (mapped n) = proxy_targets n \<and>
   map (fst \<circ> snd) (mapped n) = map (\<lambda>i. 2000 + of_nat i) [0..<length (proxy_targets n)] \<and>
   (distinct (map (fst \<circ> snd) (mapped n)) \<longleftrightarrow> length (proxy_targets n) \<le> 65536)"
proof -
  have "length (proxy_targets n) \<le> 65536" if d: "distinct (map (fst \<circ> snd) (mapped n))"
  proof -
    have "length (proxy_targets n) = card (set (map (fst \<circ> snd) (mapped n)))"
      using distinct_card [OF d] by (simp add: mapped_def)
    also have "\<dots> \<le> card (UNIV :: u16 set)" by (intro card_mono) simp_all
    finally show ?thesis by (simp add: card_word)
  qed
  then show ?thesis
    using mapped_ports_distinct [of n] mapped_ports [of n]
    by (auto simp: port_mappings_Release port_mappings_Ok port_mappings_Panic mapped_targets
        mapping_port_def PORT_MAPPING_START_def)
qed

text \<open>
  C17. Networks on different ports never share a namespace, an interface name or an address on the
  bridge; every address is in the bridge's subnet, and it is the bridge's own address exactly for
  port 1.
\<close>

theorem network_names_distinct:
  assumes "ipnet_laws L"
  shows "(netns_name n = netns_name n' \<longleftrightarrow> ns_listen_port n = ns_listen_port n') \<and>
     (wgif_name n = wgif_name n' \<longleftrightarrow> ns_listen_port n = ns_listen_port n') \<and>
     (veth_name n = veth_name n' \<longleftrightarrow> ns_listen_port n = ns_listen_port n') \<and>
     wgif_name n \<noteq> veth_name n' \<and>
     (veth_ipv4net L n = veth_ipv4net L n' \<longleftrightarrow> ns_listen_port n = ns_listen_port n') \<and>
     (veth_ipv4net L n = BRIDGE_NET L \<longleftrightarrow> ns_listen_port n = 1) \<and>
     (\<exists>a. veth_ipv4net L n = Ok (Ipv4Net a 16) \<and> ipv4net_network L (Ipv4Net a 16) = 0xAC630000)"
proof -
  note eq = ipnet_laws.veth_ipv4net_eq [OF assms] ipnet_laws.bridge_net [OF assms]
  have "veth_ipv4net L n = BRIDGE_NET L \<longleftrightarrow> (ucast (ns_listen_port n) :: u32) = ucast (1 :: u16)"
    by (auto simp: eq)
  moreover have "ipv4net_network L (Ipv4Net (0xAC630000 + ucast (ns_listen_port n)) 16) = 0xAC630000"
    by (simp add: ipnet_laws.net_network [OF assms] veth_subnet)
  ultimately show ?thesis
    using ipnet_laws.veth_addr_inject [OF assms] ucast_port_inject [of "ns_listen_port n" 1]
    by (simp add: eq ucast_port_inject)
qed

theorem network_names_distinct_witness:
  "netns_name (ex_net 5000) \<noteq> netns_name (ex_net 6000) \<and> veth_ipv4net std_libs (ex_net 1) = BRIDGE_NET std_libs"
  using network_names_distinct [OF std_ipnet.ipnet_laws_axioms, of "ex_net 5000" "ex_net 6000"]
    network_names_distinct [OF std_ipnet.ipnet_laws_axioms, of "ex_net 1"]
  by (simp add: ex_net_def)

section \<open>Packet filter rules\<close>

text \<open>
  C18. What \<open>apply_forwarding\<close> compares: two ASCII rule dumps are equal after \<open>clean_iptables\<close> exactly
  when, leaving out comments and blank lines, they agree line by line up to a packet counter at the
  end of a line. So changing counters never causes a restore and a changed rule always does.
\<close>

theorem clean_iptables_compares_rules:
  assumes "regex_laws L" and "ascii s" and "ascii t"
  shows "clean_iptables L s = clean_iptables L t \<longleftrightarrow> list_all2 same_rule (rule_lines s) (rule_lines t)"
  using regex_laws.clean_iptables_eq_iff [OF assms] .

theorem clean_iptables_compares_rules_witness:
  "clean_iptables std_libs (unlines [''# today'', '':INPUT ACCEPT [12:345]'']) =
   clean_iptables std_libs (unlines ['':INPUT ACCEPT [0:0]''])"
proof -
  let ?s = "unlines [''# today'', '':INPUT ACCEPT [12:345]'']" and ?t = "unlines ['':INPUT ACCEPT [0:0]'']"
  have r: "rule_lines ?s = ['':INPUT ACCEPT '' @ counter ''12'' ''345'']"
      "rule_lines ?t = ['':INPUT ACCEPT '' @ counter ''0'' ''0'']"
    by (simp_all add: rule_lines_def lines_def strip_cr_def counter_def)
  have "same_rule ('':INPUT ACCEPT '' @ counter ''12'' ''345'') ('':INPUT ACCEPT '' @ counter ''0'' ''0'')"
    by (rule same_rule_counter) (simp_all add: digits_only_def digit_val_def)
  then have "list_all2 same_rule (rule_lines ?s) (rule_lines ?t)" unfolding r by simp
  moreover have "ascii ?s" "ascii ?t" by (simp_all add: ascii_def)
  ultimately show ?thesis
    using clean_iptables_compares_rules [OF std_regex.regex_laws_axioms, of ?s ?t] by blast
qed

section \<open>WireGuard statistics\<close>



section \<open>The command line\<close>

text \<open>
  C21. Exactly these command-line texts are accepted as a custom forwarding: the part before the first
  equals sign is a URL and the part from there to the next equals sign, or to the end, a socket address;
  whatever follows a second equals sign is ignored. In particular a URL that contains an equals sign is
  never read as a whole, and \<open>url=address\<close> is read back for every other URL and IPv4 socket address.
\<close>

theorem custom_forwarding_accepts:
  "(parse_custom_forwarding L txt = Ok (url, socket) \<longleftrightarrow>
     (\<exists>a b rest. txt = a @ ''='' @ b @ rest \<and> CHR ''='' \<notin> set (a @ b) \<and> (rest = [] \<or> hd rest = CHR ''='') \<and>
        url_parse L a = Ok url \<and> sock_from_str L b = Ok socket)) \<and>
   (CHR ''='' \<notin> set u \<longrightarrow> url_parse L u = Ok url \<longrightarrow>
     parse_custom_forwarding L (u @ ''='' @ sock_to_string L (SockV4 a p)) = Ok (url, SockV4 a p))"
  using parse_custom_forwarding_Ok [OF _ _ sockv4_no_equals sockv4_roundtrip]
  unfolding parse_custom_forwarding_pieces split_on_two by auto

theorem custom_forwarding_accepts_witness:
  "parse_custom_forwarding std_libs (''https://a.b'' @ ''='' @ sock_to_string std_libs (SockV4 0x7F000001 8000)) =
     Ok (Url ''https://a.b'', SockV4 0x7F000001 8000)"
proof -
  have "CHR ''='' \<notin> set ''https://a.b''" "url_parse std_libs ''https://a.b'' = Ok (Url ''https://a.b'')"
    by (simp_all add: std_libs_def parse_url_def starts_with_def)
  then show ?thesis using custom_forwarding_accepts by blast
qed

section \<open>The manager's connection\<close>



text \<open>
  C23. Only a shutdown request ends the program: \<open>connect\<close> never returns an error, whatever happens to its
  connections; \<open>main\<close> fails only when the command line cannot be parsed or starting up fails, and when it
  has returned, some connection received a shutdown request.
\<close>

theorem run_until_shutdown:
  "fst (connect E C attempts s) \<noteq> Err e \<and>
   (fst (gateway_main clap parse_duration E C args attempts s) = Err e \<longrightarrow>
     options_from_args (lib E) clap parse_duration args = Err e \<or>
     (\<exists>os e'. options_from_args (lib E) clap parse_duration args = Ok os \<and> e = Context ''Starting up gateway'' e' \<and>
        fst (startup (E\<lparr>opts := os\<rparr>) (gw_sys (cn_gw s))) = Err e')) \<and>
   (fst (gateway_main clap parse_duration E C args attempts s) = Ok True \<longrightarrow>
     (\<exists>inputs \<in> set attempts. \<exists>i \<in> set inputs. shutdown_input C i))"
  using connect_no_error gateway_main_outcome [of clap parse_duration E C args attempts s] by blast

theorem run_until_shutdown_witness:
  "fst (gateway_main ex_clap (\<lambda>_. Ok 60000000000) ex_env mem_conn [] [[SockClosed], [SockText ''Shutdown'']] ex_running) = Ok True \<and>
   (\<exists>inputs \<in> set [[SockClosed], [SockText ''Shutdown'']]. \<exists>i \<in> set inputs. shutdown_input mem_conn i)"
proof -
  have "fst (gateway_main ex_clap (\<lambda>_. Ok 60000000000) ex_env mem_conn [] [[SockClosed], [SockText ''Shutdown'']] ex_running) = Ok True"
    by (simp add: ex_main options_run_def ex_running_startup connect_run_def open_socket_def handle_input_def
        handle_request_def bind_io_def then_io_def run_simps mem_conn_def on_sock_def zoom_def request_parse_def)
  then show ?thesis using run_until_shutdown by blast
qed

text \<open>
  C24. A shutdown request does end the program: however many attempts to connect have failed before,
  once the loop of a connection takes a shutdown request, \<open>connect\<close> returns, whatever other inputs are
  waiting, and leaves the state as the inputs before the request left it.
\<close>

theorem shutdown_ends_connect:
  assumes "after_failures E C failed s = Some s1" and "connect_run E C pre s1 = (Ok False, s2)"
    and "shutdown_input C i"
  shows "connect E C (failed @ (pre @ i # post) # later) s = (Ok True, s2)"
  using connect_returns [OF assms] .

theorem shutdown_ends_connect_witness:
  "connect ex_env mem_conn ([[SockClosed]] @ ([SockOther] @ SockText ''Shutdown'' # [SockClosed]) # []) ex_running =
     (Ok True, ex_running)"
proof (rule shutdown_ends_connect)
  show "after_failures ex_env mem_conn [[SockClosed]] ex_running = Some ex_running"
    "connect_run ex_env mem_conn [SockOther] ex_running = (Ok False, ex_running)"
    by (simp_all add: connect_run_def open_socket_def handle_input_def bind_io_def then_io_def run_simps
        mem_conn_def on_sock_def zoom_def ex_running_def)
  show "shutdown_input mem_conn (SockText ''Shutdown'')"
    by (simp add: shutdown_input_def mem_conn_def request_parse_def)
qed

text \<open>
  C25. On start-up a gateway whose NGINX module file exists changes nothing; otherwise it writes the
  files for the custom forwardings alone and reloads NGINX.
\<close>

theorem startup_initialises:
  assumes "gateway_system E view mtu0 ipt0 canon accepts nginx_ok"
    and "nginx_config E [] = Ok (m, st)" and "nginx_ok (Some m, Some st)"
  shows "\<exists>s'. startup E s = (Ok (), s') \<and>
     view s' = (if k_files (view s) NGINX_MODULE_PATH = None then spec_nginx m st (view s) else view s)"
proof (cases "k_files (view s) NGINX_MODULE_PATH = None")
  case True
  then show ?thesis
    using gateway_system.startup_missing [OF assms(1) True assms(2,3)] by (auto simp: moves_def)
next
  case False
  then show ?thesis using gateway_system.startup_present [OF assms(1) False] by (auto simp: moves_def)
qed

theorem startup_initialises_witness:
  "\<exists>s' m st. startup ex_env sim_empty = (Ok (), s') \<and> nginx_config ex_env [] = Ok (m, st) \<and>
     k_nginx (sim_view s') = (Some m, Some st)"
proof -
  obtain f where "build_forwarding std_libs Release [] (opt_custom_forwarding ex_opts) = Ok f"
    using std_fwd.build_forwarding_step [of "[]" Release "opt_custom_forwarding ex_opts"] by auto
  then obtain m st where cfg: "nginx_config ex_env [] = Ok (m, st)" by (simp add: nginx_config_def)
  from startup_initialises [OF ex_system cfg TrueI, of sim_empty] cfg show ?thesis
    by (auto simp: sim_empty_def spec_nginx_def)
qed

section \<open>Error paths\<close>

text \<open>
  C26. What is stored, on every path and whatever the system does: \<open>apply\<close> stores the new configuration
  before it touches the system, also when it fails; \<open>apply_partial\<close> has merged its entries up to some
  point, in the order of the ports, into the stored configuration, and all of them if it succeeds.
\<close>

theorem configs_stored:
  "gw_config (snd (gateway_apply E config g)) = config \<and>
   (\<exists>k \<le> length (bt_iter d).
      gw_config (snd (apply_partial E d g)) = fold upd_entry (take k (bt_iter d)) (gw_config g)) \<and>
   (fst (apply_partial E d g) = Ok () \<longrightarrow>
      gw_config (snd (apply_partial E d g)) = config_apply_partial (gw_config g) d)"
  using apply_partial_stores_prefix [of d E g]
  by (auto simp: run_gateway_apply config_apply_partial_fold split: prod.splits)

theorem configs_stored_witness:
  "\<exists>g g'. apply_partial ex_env ex_partial g = (Ok (), g') \<and>
     gw_config g' = config_apply_partial ex_config ex_partial"
proof (rule ex_partial_applied)
  fix g g' assume "gw_config g = ex_config" "apply_partial ex_env ex_partial g = (Ok (), g')"
  then show ?thesis using configs_stored [where E = ex_env and d = ex_partial and g = g] by auto
qed

text \<open>
  C27. \<open>apply_partial\<close> works on the port inside a network but files the network under the key of its
  entry. When the two differ it sets up the namespace of the inner port, and the namespace of the port
  the network is filed under does not come into being.
\<close>

theorem apply_partial_misfiles:
  assumes "gateway_system E view mtu0 ipt0 canon accepts nginx_ok"
    and "veth_paired (view (gw_sys g))" and "bridge_ready (view (gw_sys g))" and "net_valid E accepts n"
    and "ns_listen_port n \<noteq> port" and "port_netns port \<notin> k_netns (view (gw_sys g))"
    and "port_netns port \<notin> set existing"
  shows "\<exists>s'. apply_partial_entry E existing (port, Some n) g =
       (Ok (), g\<lparr>gw_config := bt_insert port n (gw_config g), gw_sys := s'\<rparr>) \<and>
     netns_name n \<in> k_netns (view s') \<and> port_netns port \<notin> k_netns (view s')"
  using gateway_system.apply_partial_entry_moves [OF assms(1-3), of "(port, Some n)" existing] assms(4-7)
  by (auto simp: upd_entry_def spec_entry_def spec_network_frame port_netns_name)

theorem apply_partial_misfiles_witness:
  "\<exists>s'. apply_partial_entry ex_env [] (6000, Some (ex_net 0)) (global_start ex_bridged) =
       (Ok (), (global_start ex_bridged)\<lparr>gw_config := bt_insert 6000 (ex_net 0) bt_empty, gw_sys := s'\<rparr>) \<and>
     netns_name (ex_net 0) \<in> k_netns (sim_view s') \<and> port_netns 6000 \<notin> k_netns (sim_view s')"
proof -
  have "ns_listen_port (ex_net 0) \<noteq> 6000" by (simp add: ex_net_def)
  then show ?thesis
    using apply_partial_misfiles [OF ex_system, of "global_start ex_bridged" "ex_net 0" 6000 "[]"]
      ex_bridged_ok ex_valid [of 0]
    by (simp add: global_start_def ex_bridged_def sim_empty_def)
qed



text \<open>
  C29. \<open>apply_addr\<close> only ever adds: afterwards the interface has its old addresses and the configured
  ones, so an address that left the configuration stays on an interface that is kept.
\<close>

theorem apply_addr_only_adds:
  assumes "gateway_system E view mtu0 ipt0 canon accepts nginx_ok"
    and "k_ifs (view s) (nso, name) = Some i" and "distinct target"
  shows "\<exists>s'. apply_addr E nso name target s = (Ok (), s') \<and>
     k_ifs (view s') (nso, name) = Some (i\<lparr>if_addrs := if_addrs i \<union> set target\<rparr>)"
proof -
  have "linux E view mtu0 ipt0 canon accepts nginx_ok" using assms(1) by (simp add: gateway_system_def)
  from linux.apply_addr_moves [OF this, of s nso name target] assms(2,3) show ?thesis
    by (auto simp: moves_def spec_addrs_def upd_if_def)
qed

theorem apply_addr_only_adds_witness:
  "\<exists>s'. apply_addr ex_env None BRIDGE_INTERFACE [bridge_addr] ex_bridged = (Ok (), s') \<and>
     k_ifs (sim_view s') (None, BRIDGE_INTERFACE) =
       Some ((view_if (new_if None))\<lparr>if_addrs := if_addrs (view_if (new_if None)) \<union> {bridge_addr}\<rparr>)"
  using apply_addr_only_adds [OF ex_system, of ex_bridged None BRIDGE_INTERFACE "view_if (new_if None)" "[bridge_addr]"]
  by (simp add: sim_view_def ex_bridged_def)

section \<open>The integration test\<close>



text \<open>
  C31. The partial configurations it generates are valid too: added networks are filed under their own
  ports and can be applied, and only ports of the given list are removed.
\<close>

theorem generate_partial_config_valid:
  assumes "test_laws L T" and "i < j" and "j \<le> 2 ^ 31"
    and "\<And>c. \<exists>sf. render_iptables E c = Ok sf \<and> accepts (clean_iptables (lib E) sf)"
  shows "\<exists>d t'. generate_partial_config L p T add remove (i, j) existing t = (Ok d, t') \<and>
     well_keyed_partial d \<and> (\<forall>port. bt_get d port = Some None \<longrightarrow> port \<in> set existing) \<and>
     (\<forall>port n. bt_get d port = Some (Some n) \<longrightarrow>
        test_network_ok (peer_keys t') n \<and> net_valid E accepts n)"
proof -
  obtain d t' where d: "generate_partial_config L p T add remove (i, j) existing t = (Ok d, t')"
     "\<forall>port n. bt_get d port = Some (Some n) \<longrightarrow> ns_listen_port n = port \<and> test_network_ok (peer_keys t') n"
     "\<forall>port. bt_get d port = Some None \<longrightarrow> port \<in> set existing"
    using test_laws.generate_partial_config_ok [OF assms(1-3)] by blast
  then have "\<forall>port n. bt_get d port = Some (Some n) \<longrightarrow> net_valid E accepts n"
    using test_network_valid [OF _ assms(4)] by blast
  with d show ?thesis by (intro exI [of _ d] exI [of _ t']) (simp add: well_keyed_partial_def)
qed

theorem generate_partial_config_valid_witness:
  "\<exists>d t'. generate_partial_config std_libs Release (sim_test True) 1 1 (0, 3) [50000] ex_test_start = (Ok d, t') \<and>
     well_keyed_partial d \<and> (\<forall>port. bt_get d port = Some None \<longrightarrow> port = 50000)"
  using generate_partial_config_valid [OF sim_tests.test_laws_axioms, of 0 3 ex_env "\<lambda>_. True" Release True 1 1 "[50000]" ex_test_start]
  by auto

text \<open>
  C32. \<open>apply_config\<close> sends the request and returns the status of the first apply response among the
  messages that follow, whatever traffic and event messages come before it; the later messages remain
  for the next call.
\<close>

theorem apply_config_answer:
  assumes "request_to_string T (ReqApply c) = Ok m" and "test_send T m (test_sys t) = (Ok (), s')"
    and "inbox t = pre @ MsgText v # post" and "\<forall>x \<in> set pre. no_apply T x"
    and "response_from_str T v = Ok (RespApply st)"
  shows "apply_config T c t = (Ok st, t\<lparr>test_sys := s', inbox := post\<rparr>)"
  using await_apply_answer [OF assms(4,5), of post] assms(1,2,3)
  by (simp add: apply_config_def bind_io_def then_io_def run_simps on_test_def zoom_def receive_status_def)

theorem apply_config_answer_witness:
  "apply_config (sim_test True) bt_empty
      \<lparr>peer_keys = bt_empty, inbox = [MsgOther, MsgText ''Traffic'', MsgText ''Apply: Err'', MsgText ''Apply: Ok''],
       test_sys = sim_empty\<rparr> =
    (Ok (Inl ''failed''), \<lparr>peer_keys = bt_empty, inbox = [MsgText ''Apply: Ok''], test_sys = sim_empty\<rparr>)"
  using apply_config_answer [of "sim_test True" bt_empty "''{}''"
      "\<lparr>peer_keys = bt_empty, inbox = [MsgOther, MsgText ''Traffic'', MsgText ''Apply: Err'', MsgText ''Apply: Ok''],
       test_sys = sim_empty\<rparr>" sim_empty "[MsgOther, MsgText ''Traffic'']" "''Apply: Err''" "[MsgText ''Apply: Ok'']"
      "Inl ''failed''"]
  by (simp add: sim_test_def no_apply_def response_parse_def)



text \<open>
  C35. A test run that passes has seen exactly fourteen apply responses, every one a success: one for the
  empty configuration before and after, and one in each of the twelve rounds.
\<close>

theorem run_tests_responses:
  assumes "run_tests E T gateway t = (Ok (), t')"
  shows "\<exists>ms. inbox t = ms @ inbox t' \<and> statuses T ms = replicate 14 (Inr ())"
  using run_tests_consumes [of T E gateway] assms unfolding consumes_def by blast

theorem run_tests_responses_witness:
  "run_tests ex_env idle_test (IpV4 0) ex_test_start = (Ok (), ex_test_start\<lparr>inbox := [MsgOther]\<rparr>) \<and>
   (\<exists>ms. inbox ex_test_start = ms @ [MsgOther] \<and> statuses idle_test ms = replicate 14 (Inr ()))"
  using run_tests_responses [OF idle_run_tests [of "IpV4 0"]] idle_run_tests [of "IpV4 0"] by simp

section \<open>The daemon as a whole\<close>









text \<open>
  C34. Reading the channels comes to an end: from every reachable state the connection can take at most as
  many turns on the two channels as there are values waiting, as long as nothing new is sent; and a
  connection that has not fallen behind by more than the channels keep takes exactly that many and is
  then still open, with nothing left to read.
\<close>

theorem connection_catches_up:
  assumes "daemon_system D thist tcur tcap ehist ecur ecap out netkey"
    and "(daemon_step D ehist)\<^sup>*\<^sup>* (history_start sock, daemon_start D x sock) (h, d)"
  shows "(\<forall>n d'. (channel_turn D ^^ n) d d' \<longrightarrow> n + waiting thist tcur ehist ecur d' \<le> waiting thist tcur ehist ecur d) \<and>
     (\<forall>rt re j k. dm_link d = Online rt re \<and>
        tcur (sh_traffic (dm_shared d)) rt = Some j \<and> length (thist (sh_traffic (dm_shared d))) \<le> j + 16 \<and>
        ecur (sh_events (dm_shared d)) re = Some k \<and> length (ehist (sh_events (dm_shared d))) \<le> k + 16 \<longrightarrow>
      (\<exists>d'. (channel_turn D ^^ waiting thist tcur ehist ecur d) d d' \<and> dm_link d' = Online rt re \<and>
         waiting thist tcur ehist ecur d' = 0))"
proof (intro conjI allI impI)
  fix n d' assume "(channel_turn D ^^ n) d d'"
  then show "n + waiting thist tcur ehist ecur d' \<le> waiting thist tcur ehist ecur d"
    by (rule daemon_system.channel_turns_bound [OF assms(1) _ daemon_system.daemon_reachable_inv [OF assms]])
next
  fix rt re j k
  assume a: "dm_link d = Online rt re \<and>
        tcur (sh_traffic (dm_shared d)) rt = Some j \<and> length (thist (sh_traffic (dm_shared d))) \<le> j + 16 \<and>
        ecur (sh_events (dm_shared d)) re = Some k \<and> length (ehist (sh_events (dm_shared d))) \<le> k + 16"
  obtain j' where r: "daemon_system.reading thist tcur ehist ecur rt re j' k (dm_shared d)"
    and cap: "16 \<le> ecap (sh_events (dm_shared d))" "16 \<le> tcap (sh_traffic (dm_shared d))"
    using daemon_system.reachable_reading [OF assms] a
    by (auto simp: BROADCAST_QUEUE_EVENTS_def BROADCAST_QUEUE_TRAFFIC_def)
  then have "j' = j" using a by (simp add: daemon_system.reading_def [OF assms(1)])
  with daemon_system.channel_turns_catch_up [OF assms(1) _ r] a cap
  show "\<exists>d'. (channel_turn D ^^ waiting thist tcur ehist ecur d) d d' \<and> dm_link d' = Online rt re \<and>
         waiting thist tcur ehist ecur d' = 0" by simp
qed

theorem connection_catches_up_witness:
  "\<exists>d d'. waiting bc_hist bc_cursor bc_hist bc_cursor d = 1 \<and> channel_turn ex_parts d d' \<and>
     dm_link d' = Online 1 1 \<and> waiting bc_hist bc_cursor bc_hist bc_cursor d' = 0"
proof (rule ex_poll)
  fix w assume w: "watchdog_run (parts_wd ex_parts) (dm_wd ex_online) = (Ok (), w)"
      "sh_events (wd_sys w) = sh_events (dm_shared ex_online)"
      "bc_cursors (sh_traffic (wd_sys w)) = [(1, 0)]" "length (bc_hist (sh_traffic (wd_sys w))) = 1"
  let ?d = "ex_online\<lparr>dm_wd := w\<rparr>"
  have "daemon_step ex_parts bc_hist (history_start [], ex_online) (history_start [], ?d)"
    by (rule daemon_step.poll [OF _ w(1)]) (simp add: ex_online_simps)
  with ex_reach_online have "(daemon_step ex_parts bc_hist)\<^sup>*\<^sup>* (history_start [], ex_begin) (history_start [], ?d)"
    by (rule rtranclp.rtrancl_into_rtrancl)
  note up = connection_catches_up [OF ex_daemon.daemon_system_axioms this]
  have st: "dm_link ?d = Online 1 1" "bc_cursor (sh_traffic (dm_shared ?d)) 1 = Some 0"
      "bc_cursor (sh_events (dm_shared ?d)) 1 = Some 0" "length (bc_hist (sh_events (dm_shared ?d))) = 0"
      "length (bc_hist (sh_traffic (dm_shared ?d))) = 1"
    using w by (simp_all add: ex_online_simps bc_cursor_def)
  then have one: "waiting bc_hist bc_cursor bc_hist bc_cursor ?d = 1" by (simp add: waiting_def)
  then obtain d' where "channel_turn ex_parts ?d d'" "dm_link d' = Online 1 1"
      "waiting bc_hist bc_cursor bc_hist bc_cursor d' = 0"
    using up [THEN conjunct2, rule_format, of 1 1 0 0] st by auto
  with one show ?thesis by (intro exI [of _ ?d] exI [of _ d']) simp
qed

text \<open>
  C39. The WireGuard configuration written for a network reads back, section by section, as the network's
  state: one interface section with its port and private key, and one section per peer, in the order of
  the keys, with its public key, truncated allowed networks, preshared key and endpoint where present, and
  the keepalive interval.
\<close>

theorem wireguard_config_roundtrip:
  assumes "conf_laws L"
  shows "read_conf (network_to_config L n) =
     (''[Interface]'', [(''ListenPort'', word_to_dec (ns_listen_port n)),
        (''PrivateKey'', privkey_to_string L (ns_private_key n))]) #
     map (\<lambda>(k, p). (''[Peer]'',
       [(''PublicKey'', pubkey_to_string L k),
        (''AllowedIPs'', join '', '' (map (\<lambda>ip. ipnet_to_string L (ipnet_trunc L ip)) (ps_allowed_ips p)))] @
       (case ps_preshared_key p of None \<Rightarrow> [] | Some s \<Rightarrow> [(''PresharedKey'', secret_to_string L s)]) @
       (case ps_endpoint p of None \<Rightarrow> [] | Some a \<Rightarrow> [(''Endpoint'', sock_to_string L a)]) @
       [(''PersistentKeepalive'', ''25'')])) (bt_iter (ns_peers n))"
  using conf_laws.read_network_config [OF assms, of n]
  by (simp add: interface_section_def peer_section_def case_prod_beta)

theorem wireguard_config_roundtrip_witness:
  "length (read_conf (network_to_config std_libs ex_test_net)) = 2"
  by (simp only: wireguard_config_roundtrip [OF std_conf.conf_laws_axioms]) (simp add: ex_test_net_def)

text \<open>
  C40. A partial update leaves nothing for a full one to do: on a system set up for the stored
  configuration, after \<open>apply_partial\<close> applying the whole configuration that is now stored succeeds and
  changes nothing observable.
\<close>

theorem partial_leaves_nothing:
  assumes "gateway_system E view mtu0 ipt0 canon accepts nginx_ok"
    and "well_keyed (gw_config g)" and "well_keyed_partial d"
    and "all_applied E canon m0 st0 (networks_of (gw_config g)) (view (gw_sys g))" and "links_ok (view (gw_sys g))"
    and "\<forall>n \<in> set (networks_of (config_apply_partial (gw_config g) d)). net_valid E accepts n"
    and "nginx_config E (networks_of (config_apply_partial (gw_config g) d)) = Ok (m, st)"
    and "nginx_ok (Some m, Some st)"
  shows "\<exists>g' s'. apply_partial E d g = (Ok (), g') \<and>
     gateway_apply E (gw_config g') g' = (Ok (), g'\<lparr>gw_sys := s'\<rparr>) \<and> view s' = view (gw_sys g')"
proof -
  let ?c = "config_apply_partial (gw_config g) d"
  have w: "well_keyed ?c" using assms(2,3) by (rule well_keyed_apply_partial)
  have "\<forall>p n. bt_get d p = Some (Some n) \<longrightarrow> bt_get ?c p = Some n" by (simp add: overlay_def)
  then have valid: "\<forall>p n. bt_get d p = Some (Some n) \<longrightarrow> net_valid E accepts n"
    using assms(6) by (auto simp: networks_of_values [OF w] bt_values_set)
  obtain s1 where s1: "apply_partial E d g = (Ok (), g\<lparr>gw_config := ?c, gw_sys := s1\<rparr>)"
      "all_applied E canon m st (networks_of ?c) (view s1)" "links_ok (view s1)"
    using gateway_system.apply_partial_all_applied [OF assms(1-5) valid assms(7,8)] by blast
  let ?g = "g\<lparr>gw_config := ?c, gw_sys := s1\<rparr>"
  have "veth_paired (view (gw_sys ?g))" using s1(3) by (simp add: links_ok_def)
  then obtain s2 where "gateway_apply E ?c ?g = (Ok (), ?g\<lparr>gw_config := ?c, gw_sys := s2\<rparr>)"
      "view s2 = spec_nginx m st (spec_networks E mtu0 ipt0 canon (networks_of ?c) (view (gw_sys ?g)))"
    using gateway_system.gateway_apply_moves [OF assms(1,6-8)] by blast
  with s1 spec_fix [OF s1(2)] show ?thesis by (intro exI [of _ ?g] exI [of _ s2]) simp
qed

theorem partial_leaves_nothing_witness:
  "\<exists>g g' s'. gw_config g = ex_config \<and> apply_partial ex_env ex_partial g = (Ok (), g') \<and>
     gateway_apply ex_env (gw_config g') g' = (Ok (), g'\<lparr>gw_sys := s'\<rparr>) \<and> sim_view s' = sim_view (gw_sys g')"
proof (rule ex_applied, rule ex_partial_ready)
  fix g :: "sim gateway" and m0 st0 m st
  assume g: "gw_config g = ex_config"
      "all_applied ex_env (clean_iptables std_libs) m0 st0 (networks_of (gw_config g)) (sim_view (gw_sys g))"
      "links_ok (sim_view (gw_sys g))"
    and k: "well_keyed ex_config" "well_keyed_partial ex_partial"
    and cfg: "nginx_config ex_env (networks_of (config_apply_partial ex_config ex_partial)) = Ok (m, st)"
  have "\<forall>n \<in> set (networks_of (config_apply_partial ex_config ex_partial)). net_valid ex_env (\<lambda>_. True) n"
    unfolding ex_partial_merge using ex_valid [of 6000] by (simp add: networks_of_def ex_net_def)
  with k(1) cfg have "well_keyed (gw_config g)"
      "\<forall>n \<in> set (networks_of (config_apply_partial (gw_config g) ex_partial)). net_valid ex_env (\<lambda>_. True) n"
      "nginx_config ex_env (networks_of (config_apply_partial (gw_config g) ex_partial)) = Ok (m, st)"
    by (simp_all only: g(1))
  from partial_leaves_nothing [OF ex_system this(1) k(2) g(2,3) this(2,3) TrueI] g(1) show ?thesis by blast
qed

end
